theory Spec2Isabelle
  imports Main "HOL-Library.Sublist" "HOL-Library.AList"
begin

section \<open>Python string operations used by vmware\_guest\_rdm.py\<close>

text \<open>
  \<open>str.lower()\<close>: the letters \<open>A\<close>..\<open>Z\<close> are mapped to \<open>a\<close>..\<open>z\<close>, every other
  character is kept.
\<close>

definition lower_char :: "char \<Rightarrow> char" where
  "lower_char c =
     (case map_of (zip ''ABCDEFGHIJKLMNOPQRSTUVWXYZ'' ''abcdefghijklmnopqrstuvwxyz'') c of
        None \<Rightarrow> c
      | Some d \<Rightarrow> d)"

definition str_lower :: "string \<Rightarrow> string" where
  "str_lower s = map lower_char s"

text \<open>
  \<open>str.find(s, sub)\<close>: the lowest index at which \<open>sub\<close> occurs in \<open>s\<close>, or \<open>-1\<close>.
\<close>

fun find_from :: "string \<Rightarrow> string \<Rightarrow> int \<Rightarrow> int" where
  "find_from [] sub i = (if sub = [] then i else - 1)"
| "find_from (c # cs) sub i =
     (if prefix sub (c # cs) then i else find_from cs sub (i + 1))"

definition str_find :: "string \<Rightarrow> string \<Rightarrow> int" where
  "str_find s sub = find_from s sub 0"

text \<open>
  \<open>s.replace(old, new)\<close>: every non-overlapping occurrence of \<open>old\<close>, left to right, is
  replaced; an empty \<open>old\<close> puts \<open>new\<close> before every character and at the end.
\<close>

function replace_occurrences :: "string \<Rightarrow> string \<Rightarrow> string \<Rightarrow> string" where
  "replace_occurrences [] old new = []"
| "replace_occurrences (c # cs) old new =
     (if old \<noteq> [] \<and> prefix old (c # cs)
      then new @ replace_occurrences (drop (length old) (c # cs)) old new
      else c # replace_occurrences cs old new)"
  by pat_completeness auto
termination
  by (relation "measure (\<lambda>(s, old, new). length s)") (auto simp: neq_Nil_conv)

definition str_replace :: "string \<Rightarrow> string \<Rightarrow> string \<Rightarrow> string" where
  "str_replace s old new =
     (if old = [] then new @ concat (map (\<lambda>c. c # new) s)
      else replace_occurrences s old new)"

text \<open>
  \<open>re.split(re.compile('^naa\.[0-9a-z]+0000+'), name)[1]\<close>. The pattern is anchored at
  the start, so it matches at most once and the split list is \<open>['', rest]\<close> on a match and
  \<open>[name]\<close> otherwise, where index 1 raises IndexError (\<open>None\<close> here). The engine
  matches \<open>naa.\<close>, lets \<open>[0-9a-z]+\<close> take the longest run it can and gives characters back
  one at a time until \<open>000\<close> and then \<open>0+\<close> (as many zeros as follow) match.
\<close>

definition in_wwn_class :: "char \<Rightarrow> bool" where
  "in_wwn_class c \<longleftrightarrow> c \<in> set ''0123456789abcdefghijklmnopqrstuvwxyz''"

fun backtrack_wwn :: "nat list \<Rightarrow> string \<Rightarrow> nat option" where
  "backtrack_wwn [] t = None"
| "backtrack_wwn (n # ns) t =
     (if prefix ''000'' (drop n t) \<and> takeWhile (\<lambda>c. c = CHR ''0'') (drop (n + 3) t) \<noteq> []
      then Some (n + 3 + length (takeWhile (\<lambda>c. c = CHR ''0'') (drop (n + 3) t)))
      else backtrack_wwn ns t)"

definition re_split_wwn :: "string \<Rightarrow> string option" where
  "re_split_wwn name =
     (if prefix ''naa.'' name then
        (let t = drop 4 name;
             longest = length (takeWhile in_wwn_class t)
         in case backtrack_wwn (rev [1..<Suc longest]) t of
              None \<Rightarrow> None
            | Some e \<Rightarrow> Some (drop e t))
      else None)"

section \<open>Data: the virtual machine as the module reads it\<close>

text \<open>The four classes accepted by \<open>PyVmomiDeviceHelper.is_scsi_controller\<close>.\<close>

datatype scsi_class =
    VirtualLsiLogicController
  | ParaVirtualSCSIController
  | VirtualBusLogicController
  | VirtualLsiLogicSASController

text \<open>\<open>type(device).__name__\<close> of a controller device.\<close>

fun type_name :: "scsi_class \<Rightarrow> string" where
  "type_name VirtualLsiLogicController = ''vim.vm.device.VirtualLsiLogicController''"
| "type_name ParaVirtualSCSIController = ''vim.vm.device.ParaVirtualSCSIController''"
| "type_name VirtualBusLogicController = ''vim.vm.device.VirtualBusLogicController''"
| "type_name VirtualLsiLogicSASController = ''vim.vm.device.VirtualLsiLogicSASController''"

text \<open>
  A disk whose backing is \<open>RawDiskMappingVer1BackingInfo\<close>: the fields of the device that
  the module reads.
\<close>

record virtual_disk =
  key :: int
  controllerKey :: int
  unitNumber :: int
  lunUuid :: string

text \<open>
  An entry of \<open>vm.config.hardware.device\<close>, classified by the two tests the module
  applies to it: \<open>is_scsi_controller\<close> (class, key, busNumber) and
  \<open>type(dev.backing) == RawDiskMappingVer1BackingInfo\<close>. Everything else, a disk with
  another backing included, is \<open>OtherDevice\<close>.
\<close>

datatype device =
    ScsiController scsi_class int int
  | RdmDisk virtual_disk
  | OtherDevice

text \<open>An entry of the host's \<open>storageDeviceInfo.scsiLun\<close>.\<close>

record scsi_lun =
  canonicalName :: string
  uuid :: string
  deviceName :: string

text \<open>
  The virtual machine object. \<open>host_view\<close> is the \<open>view\<close> of the list view created over
  \<open>vm.runtime.host\<close> (\<open>None\<close> when it cannot be read), each host given by its LUN list;
  \<open>vm_version\<close> is \<open>int(str(facts['hw_version']).replace("vmx-", ""))\<close>.
\<close>

record vm =
  device :: "device list"
  datastore :: "string list"
  vmPathName :: string
  host_view :: "scsi_lun list list option"
  vm_version :: int

text \<open>
  A \<open>VirtualDeviceSpec\<close> as built by \<open>PyVmomiDeviceHelper\<close>.
  \<open>AddController cls bus\<close>: operation add, a device of class \<open>cls\<close> on \<open>busNumber = bus\<close>
  (pciSlotNumber 16, controllerKey 100, unitNumber 3, hotAddRemove, noSharing,
  scsiCtlrUnitNumber 7).
  \<open>AddDisk key controllerKey unitNumber lunUuid deviceName datastore fileName\<close>:
  operation add, fileOperation create, raw disk mapping backing (physicalMode,
  independent\_persistent, sharingNone).
  \<open>RemoveDisk key controllerKey unitNumber\<close>: operation remove, fileOperation destroy.
\<close>

datatype device_spec =
    AddController scsi_class int
  | AddDisk int int int string string string string
  | RemoveDisk int int int

text \<open>
  The ways the run stops: the \<open>fail_json\<close> calls of the module, and the Python
  exceptions that \<open>main\<close> catches and reports through \<open>fail_json\<close>.
\<close>

datatype error =
    ControllerTypeMismatch
  | InsufficientCapacity int int
  | LunNotPresented string
  | HostPermissionDenied
  | DatastorePermissionDenied
  | VersioningRestricted string
  | KeyError
  | IndexError
  | AttributeError

text \<open>The module parameters the helper reads.\<close>

record params =
  state :: string
  rdm_controller_type :: string
  rdm_controller_bus :: "int list"
  rdm_disk :: "string list"

text \<open>
  The fields of \<open>PyVmomiHelper\<close>. Dictionaries are association lists in insertion order;
  \<open>deviceChange\<close> is \<open>self.configspec.deviceChange\<close>, and \<open>requested\<close> is
  \<open>self.params.get('rdm_disk')\<close>, each entry given by its \<open>wwid\<close>.
\<close>

record helper =
  deviceChange :: "device_spec list"
  change_detected :: bool
  rdm_state :: string
  rdm_disks :: "virtual_disk list"
  ctl_list :: "int list"
  ctl_type :: string
  ctl_max :: int
  ctl_slot_key :: "(int \<times> int) list"
  ctl_key_slot :: "(int \<times> int) list"
  ctl_units :: "(int \<times> string) list"
  disk_units :: "(int \<times> int set) list"
  requested :: "string list"

section \<open>PyVmomiDeviceHelper\<close>

definition create_scsi_controller_bus :: "string \<Rightarrow> int \<Rightarrow> error + device_spec" where
  "create_scsi_controller_bus scsi_type bus_n =
     (if scsi_type = ''lsilogic'' then Inr (AddController VirtualLsiLogicController bus_n)
      else if scsi_type = ''paravirtual'' then Inr (AddController ParaVirtualSCSIController bus_n)
      else if scsi_type = ''buslogic'' then Inr (AddController VirtualBusLogicController bus_n)
      else if scsi_type = ''lsilogicsas'' then Inr (AddController VirtualLsiLogicSASController bus_n)
      else Inl AttributeError)"

definition create_rdm_disk :: "int \<Rightarrow> scsi_lun \<Rightarrow> string \<Rightarrow> string \<Rightarrow> int \<Rightarrow> device_spec" where
  "create_rdm_disk scsi_key lun ds fname disk_index =
     AddDisk (- 100 - disk_index) scsi_key disk_index (uuid lun) (deviceName lun) ds fname"

definition remove_rdm_disk :: "virtual_disk \<Rightarrow> device_spec" where
  "remove_rdm_disk rdm = RemoveDisk (key rdm) (controllerKey rdm) (unitNumber rdm)"

section \<open>PyVmomiHelper\<close>

definition init :: "params \<Rightarrow> helper" where
  "init p =
     \<lparr> deviceChange = [], change_detected = False, rdm_state = state p, rdm_disks = [],
       ctl_list = rdm_controller_bus p, ctl_type = rdm_controller_type p, ctl_max = 15,
       ctl_slot_key = [], ctl_key_slot = [], ctl_units = [], disk_units = [],
       requested = rdm_disk p \<rparr>"

definition check_maximums :: "int \<Rightarrow> helper \<Rightarrow> helper" where
  "check_maximums version self =
     (if version \<ge> 14 \<and> ctl_type self = ''paravirtual'' then self\<lparr>ctl_max := 64\<rparr> else self)"

definition get_host_by_vm :: "vm \<Rightarrow> error + scsi_lun list" where
  "get_host_by_vm vm_obj =
     (case host_view vm_obj of
        None \<Rightarrow> Inl HostPermissionDenied
      | Some [] \<Rightarrow> Inl IndexError
      | Some (h # _) \<Rightarrow> Inr h)"

definition get_datastore_by_vm :: "vm \<Rightarrow> error + string" where
  "get_datastore_by_vm vm_obj =
     (case datastore vm_obj of
        [] \<Rightarrow> Inl DatastorePermissionDenied
      | ds # _ \<Rightarrow> Inr ds)"

fun vm_get_ctls :: "device list \<Rightarrow> helper \<Rightarrow> helper" where
  "vm_get_ctls [] self = self"
| "vm_get_ctls (ScsiController cls k bus # devs) self =
     vm_get_ctls devs
       (self\<lparr> ctl_slot_key := AList.update bus k (ctl_slot_key self),
              ctl_key_slot := AList.update k bus (ctl_key_slot self),
              ctl_units :=
                AList.update bus (str_replace (str_lower (type_name cls)) ''vim.vm.device.'' [])
                  (ctl_units self) \<rparr>)"
| "vm_get_ctls (_ # devs) self = vm_get_ctls devs self"

fun check_types_loop :: "(int \<times> string) list \<Rightarrow> int list \<Rightarrow> string \<Rightarrow> error + unit" where
  "check_types_loop [] allowed search = Inr ()"
| "check_types_loop ((bus, bus_type) # items) allowed search =
     (if bus \<in> set allowed \<and> str_find bus_type search = - 1 then Inl ControllerTypeMismatch
      else check_types_loop items allowed search)"

definition ctl_check_types :: "string \<Rightarrow> helper \<Rightarrow> error + helper" where
  "ctl_check_types search self =
     (case check_types_loop (ctl_units self) (ctl_list self) search of
        Inl e \<Rightarrow> Inl e
      | Inr _ \<Rightarrow> Inr self)"

fun get_vm_ctl_n :: "device list \<Rightarrow> int \<Rightarrow> device option" where
  "get_vm_ctl_n [] bus_n = None"
| "get_vm_ctl_n (ScsiController cls k bus # devs) bus_n =
     (if bus = bus_n then Some (ScsiController cls k bus) else get_vm_ctl_n devs bus_n)"
| "get_vm_ctl_n (_ # devs) bus_n = get_vm_ctl_n devs bus_n"

fun create_new_loop :: "int list \<Rightarrow> string \<Rightarrow> device list \<Rightarrow> helper \<Rightarrow> error + helper" where
  "create_new_loop [] ty devs self = Inr self"
| "create_new_loop (ctl # ctls) ty devs self =
     (if ctl \<notin> fst ` set (ctl_units self) \<and> get_vm_ctl_n devs ctl = None then
        (case create_scsi_controller_bus ty ctl of
           Inl e \<Rightarrow> Inl e
         | Inr scsi_ctl_bus_n \<Rightarrow>
             create_new_loop ctls ty devs
               (self\<lparr> change_detected := True,
                      deviceChange := deviceChange self @ [scsi_ctl_bus_n] \<rparr>))
      else create_new_loop ctls ty devs self)"

definition ctl_create_new :: "string \<Rightarrow> device list \<Rightarrow> helper \<Rightarrow> error + helper" where
  "ctl_create_new ty devs self = create_new_loop (ctl_list self) ty devs self"

text \<open>
  \<open>get_rdm_info\<close>. The inner loop over the requested disks breaks at the first match, so
  a disk is counted when some requested WWID occurs in its lower-cased \<open>lunUuid\<close>.
\<close>

definition wwid_matches :: "virtual_disk \<Rightarrow> string list \<Rightarrow> bool" where
  "wwid_matches disk rdms_requested \<longleftrightarrow>
     (\<exists>wwid \<in> set rdms_requested. str_find (str_lower (lunUuid disk)) (str_lower wwid) \<ge> 0)"

fun scan_rdms ::
  "virtual_disk list \<Rightarrow> string list \<Rightarrow> (int \<times> int) list \<Rightarrow> (int \<times> int set) list \<Rightarrow> int
   \<Rightarrow> error + ((int \<times> int set) list \<times> int)" where
  "scan_rdms [] rdms_requested key_slot units wwid_presented = Inr (units, wwid_presented)"
| "scan_rdms (disk # rdms) rdms_requested key_slot units wwid_presented =
     (case map_of key_slot (controllerKey disk) of
        None \<Rightarrow> Inl KeyError
      | Some ctl_n \<Rightarrow>
          (case map_of units ctl_n of
             None \<Rightarrow> Inl KeyError
           | Some occupied \<Rightarrow>
               scan_rdms rdms rdms_requested key_slot
                 (AList.update ctl_n (insert (unitNumber disk) occupied) units)
                 (if wwid_matches disk rdms_requested then wwid_presented + 1
                  else wwid_presented)))"

definition get_rdm_info :: "virtual_disk list \<Rightarrow> helper \<Rightarrow> error + helper" where
  "get_rdm_info rdms self =
     (let used_disks = int (length rdms);
          rdms_requested = requested self;
          reserved = fold (\<lambda>c. AList.update c {7}) (map fst (ctl_units self)) (disk_units self)
      in case scan_rdms rdms rdms_requested (ctl_key_slot self) reserved 0 of
           Inl e \<Rightarrow> Inl e
         | Inr (units, wwid_presented) \<Rightarrow>
             (let new_disks = int (length (requested self)) - wwid_presented;
                  all_disk = used_disks + new_disks;
                  free_bays = ctl_max self * int (length (ctl_list self))
              in if all_disk > free_bays \<and> rdm_state self = ''present''
                 then Inl (InsufficientCapacity all_disk free_bays)
                 else Inr (self\<lparr>disk_units := units\<rparr>)))"

text \<open>
  \<open>create_rdm\<close>. The two nested loops are left through the exception \<open>FreeBusFound\<close> at
  the first unit that is not in \<open>disk_units[ctl]\<close>; when they run to their end nothing
  is raised and the method returns without doing anything.
\<close>

fun scan_units :: "int list \<Rightarrow> int \<Rightarrow> (int \<times> int set) list \<Rightarrow> error + int option" where
  "scan_units [] ctl units = Inr None"
| "scan_units (bus_n # rest) ctl units =
     (case map_of units ctl of
        None \<Rightarrow> Inl KeyError
      | Some occupied \<Rightarrow>
          (if bus_n \<notin> occupied then Inr (Some bus_n) else scan_units rest ctl units))"

fun find_free_bus ::
  "int list \<Rightarrow> int \<Rightarrow> (int \<times> int set) list \<Rightarrow> error + (int \<times> int) option" where
  "find_free_bus [] cmax units = Inr None"
| "find_free_bus (ctl # ctls) cmax units =
     (case scan_units [0..cmax] ctl units of
        Inl e \<Rightarrow> Inl e
      | Inr (Some bus_n) \<Rightarrow> Inr (Some (ctl, bus_n))
      | Inr None \<Rightarrow> find_free_bus ctls cmax units)"

definition create_rdm :: "scsi_lun \<Rightarrow> string \<Rightarrow> string \<Rightarrow> helper \<Rightarrow> error + helper" where
  "create_rdm lun vm_ds rdm_file self =
     (case find_free_bus (ctl_list self) (ctl_max self) (disk_units self) of
        Inl e \<Rightarrow> Inl e
      | Inr None \<Rightarrow> Inr self
      | Inr (Some (ctl, bus_n)) \<Rightarrow>
          (case map_of (disk_units self) ctl of
             None \<Rightarrow> Inl KeyError
           | Some occupied \<Rightarrow>
               (case map_of (ctl_slot_key self) ctl of
                  None \<Rightarrow> Inl KeyError
                | Some scsi_key \<Rightarrow>
                    Inr (self\<lparr> disk_units :=
                                 AList.update ctl (insert bus_n occupied) (disk_units self),
                               deviceChange :=
                                 deviceChange self
                                 @ [create_rdm_disk scsi_key lun vm_ds rdm_file bus_n],
                               change_detected := True \<rparr>))))"

text \<open>
  \<open>configure_rdm_disks\<close>. \<open>find_lun\<close> is the first element of the list comprehension
  over the host's LUNs, \<open>None\<close> where indexing the empty list raises IndexError.
\<close>

definition find_lun :: "scsi_lun list \<Rightarrow> string \<Rightarrow> scsi_lun option" where
  "find_lun vm_host_luns wwid =
     List.find (\<lambda>l. canonicalName l = ''naa.'' @ str_lower wwid) vm_host_luns"

fun attach_loop ::
  "string list \<Rightarrow> scsi_lun list \<Rightarrow> string \<Rightarrow> string \<Rightarrow> helper \<Rightarrow> error + helper" where
  "attach_loop [] vm_host_luns vm_ds vm_vmx_path self = Inr self"
| "attach_loop (wwid # rest) vm_host_luns vm_ds vm_vmx_path self =
     (case find_lun vm_host_luns wwid of
        None \<Rightarrow> Inl (LunNotPresented wwid)
      | Some lun \<Rightarrow>
          (if \<exists>rdm \<in> set (rdm_disks self). uuid lun = lunUuid rdm
           then attach_loop rest vm_host_luns vm_ds vm_vmx_path self
           else
             (case re_split_wwn (canonicalName lun) of
                None \<Rightarrow> Inl IndexError
              | Some rdmid \<Rightarrow>
                  (case create_rdm lun vm_ds
                          (str_replace vm_vmx_path ''.vmx'' (''_RDM'' @ rdmid @ ''.vmdk'')) self of
                     Inl e \<Rightarrow> Inl e
                   | Inr self' \<Rightarrow> attach_loop rest vm_host_luns vm_ds vm_vmx_path self'))))"

fun detach_matching :: "virtual_disk list \<Rightarrow> scsi_lun \<Rightarrow> helper \<Rightarrow> helper" where
  "detach_matching [] lun self = self"
| "detach_matching (rdm # rdms) lun self =
     (if lunUuid rdm = uuid lun
      then detach_matching rdms lun
             (self\<lparr> deviceChange := deviceChange self @ [remove_rdm_disk rdm],
                    change_detected := True \<rparr>)
      else detach_matching rdms lun self)"

fun detach_loop :: "string list \<Rightarrow> scsi_lun list \<Rightarrow> helper \<Rightarrow> error + helper" where
  "detach_loop [] vm_host_luns self = Inr self"
| "detach_loop (wwid # rest) vm_host_luns self =
     (case find_lun vm_host_luns wwid of
        None \<Rightarrow> Inl (LunNotPresented wwid)
      | Some lun \<Rightarrow> detach_loop rest vm_host_luns (detach_matching (rdm_disks self) lun self))"

definition configure_rdm_disks :: "vm \<Rightarrow> helper \<Rightarrow> error + helper" where
  "configure_rdm_disks vm_obj self =
     (case get_host_by_vm vm_obj of
        Inl e \<Rightarrow> Inl e
      | Inr vm_host_luns \<Rightarrow>
          (case get_datastore_by_vm vm_obj of
             Inl e \<Rightarrow> Inl e
           | Inr vm_ds \<Rightarrow>
               (case (if rdm_state self = ''present''
                      then attach_loop (requested self) vm_host_luns vm_ds (vmPathName vm_obj) self
                      else Inr self) of
                  Inl e \<Rightarrow> Inl e
                | Inr self' \<Rightarrow>
                    (if rdm_state self' = ''absent''
                     then detach_loop (requested self') vm_host_luns self'
                     else Inr self'))))"

text \<open>
  The remote side. \<open>ReconfigVM_Task\<close> is a call to the management server: it is a
  parameter of the model, a function from the machine and the submitted change list to
  the task's final state and the machine afterwards. \<open>wait_for_task\<close> polls until that
  final state is reached.
\<close>

datatype task_result = TaskSuccess | TaskError string | RestrictedVersionFault string

type_synonym reconfig_task = "vm \<Rightarrow> device_spec list \<Rightarrow> task_result \<times> vm"

definition apply_changes :: "reconfig_task \<Rightarrow> vm \<Rightarrow> helper \<Rightarrow> (error + string option) \<times> vm" where
  "apply_changes task vm_obj self =
     (case task vm_obj (deviceChange self) of
        (RestrictedVersionFault m, vm') \<Rightarrow> (Inl (VersioningRestricted m), vm')
      | (TaskError m, vm') \<Rightarrow> (Inr (Some m), vm')
      | (TaskSuccess, vm') \<Rightarrow> (Inr None, vm'))"

text \<open>The truth value of \<open>res\<close> in \<open>if res:\<close>.\<close>

definition truthy :: "string option \<Rightarrow> bool" where
  "truthy res = (case res of None \<Rightarrow> False | Some m \<Rightarrow> m \<noteq> [])"

text \<open>
  The dictionary \<open>reconfigure_vm\<close> returns (\<open>instance\<close>, the facts gathered from the
  machine, is read off \<open>vm_after\<close>), and what a run leaves behind: what it returned or how
  it stopped, the machine, and the change lists it submitted, in order.
\<close>

record result =
  changed :: bool
  failed :: bool
  msg :: "string option"

record outcome =
  returned :: "error + result"
  vm_after :: vm
  submitted :: "device_spec list list"

definition rdm_devices :: "device list \<Rightarrow> virtual_disk list" where
  "rdm_devices devs = concat (map (\<lambda>dev. case dev of RdmDisk d \<Rightarrow> [d] | _ \<Rightarrow> []) devs)"

text \<open>Lines 429 to 446 of \<open>reconfigure_vm\<close>: the disk pass.\<close>

definition add_disks ::
  "reconfig_task \<Rightarrow> vm \<Rightarrow> device_spec list list \<Rightarrow> bool \<Rightarrow> helper \<Rightarrow> outcome" where
  "add_disks task vm_obj sent change_applied self =
     (let self1 = self\<lparr>deviceChange := [], rdm_disks := rdm_devices (device vm_obj)\<rparr> in
      case get_rdm_info (rdm_disks self1) self1 of
        Inl e \<Rightarrow> \<lparr>returned = Inl e, vm_after = vm_obj, submitted = sent\<rparr>
      | Inr self2 \<Rightarrow>
          (case configure_rdm_disks vm_obj self2 of
             Inl e \<Rightarrow> \<lparr>returned = Inl e, vm_after = vm_obj, submitted = sent\<rparr>
           | Inr self3 \<Rightarrow>
               (if change_detected self3 then
                  (case apply_changes task vm_obj self3 of
                     (Inl e, vm') \<Rightarrow>
                       \<lparr>returned = Inl e, vm_after = vm',
                        submitted = sent @ [deviceChange self3]\<rparr>
                   | (Inr res, vm') \<Rightarrow>
                       (if truthy res
                        then \<lparr>returned = Inr \<lparr>changed = True, failed = True, msg = res\<rparr>,
                              vm_after = vm', submitted = sent @ [deviceChange self3]\<rparr>
                        else \<lparr>returned = Inr \<lparr>changed = True, failed = False, msg = None\<rparr>,
                              vm_after = vm', submitted = sent @ [deviceChange self3]\<rparr>))
                else \<lparr>returned = Inr \<lparr>changed = change_applied, failed = False, msg = None\<rparr>,
                      vm_after = vm_obj, submitted = sent\<rparr>)))"

definition reconfigure_vm :: "reconfig_task \<Rightarrow> vm \<Rightarrow> helper \<Rightarrow> outcome" where
  "reconfigure_vm task vm_obj self0 =
     (let self1 = vm_get_ctls (device vm_obj) (check_maximums (vm_version vm_obj) self0) in
      if rdm_state self1 = ''present'' then
        (case ctl_check_types (ctl_type self1) (self1\<lparr>deviceChange := []\<rparr>) of
           Inl e \<Rightarrow> \<lparr>returned = Inl e, vm_after = vm_obj, submitted = []\<rparr>
         | Inr self2 \<Rightarrow>
             (case ctl_create_new (ctl_type self2) (device vm_obj) self2 of
                Inl e \<Rightarrow> \<lparr>returned = Inl e, vm_after = vm_obj, submitted = []\<rparr>
              | Inr self3 \<Rightarrow>
                  (if change_detected self3 then
                     (case apply_changes task vm_obj self3 of
                        (Inl e, vm') \<Rightarrow>
                          \<lparr>returned = Inl e, vm_after = vm', submitted = [deviceChange self3]\<rparr>
                      | (Inr res, vm') \<Rightarrow>
                          (if truthy res
                           then \<lparr>returned = Inr \<lparr>changed = True, failed = True, msg = res\<rparr>,
                                 vm_after = vm', submitted = [deviceChange self3]\<rparr>
                           else add_disks task vm' [deviceChange self3] True
                                  (vm_get_ctls (device vm') self3)))
                   else add_disks task vm_obj [] False self3)))
      else add_disks task vm_obj [] False self1)"

text \<open>\<open>main\<close>, once the machine has been found: a fresh helper runs \<open>reconfigure_vm\<close>.\<close>

definition run :: "reconfig_task \<Rightarrow> params \<Rightarrow> vm \<Rightarrow> outcome" where
  "run task p vm_obj = reconfigure_vm task vm_obj (init p)"

text \<open>
  A management server that carries out every change it is sent, for running the module
  on concrete machines: a new controller on bus \<open>b\<close> gets key \<open>1000 + b\<close>, a new disk is
  listed with the controller key, unit number and LUN of its specification under a key
  of the server's choosing, a removed disk is dropped from the device list.
\<close>

fun realise :: "device list \<Rightarrow> device_spec \<Rightarrow> device list" where
  "realise devs (AddController cls bus) = devs @ [ScsiController cls (1000 + bus) bus]"
| "realise devs (AddDisk k ck u lu dn ds f) =
     devs @ [RdmDisk \<lparr>key = 2000 + 16 * ck + u, controllerKey = ck, unitNumber = u, lunUuid = lu\<rparr>]"
| "realise devs (RemoveDisk k ck u) =
     filter (\<lambda>dev. case dev of RdmDisk d \<Rightarrow> key d \<noteq> k | _ \<Rightarrow> True) devs"

definition obedient_server :: reconfig_task where
  "obedient_server vm_obj changes = (TaskSuccess, vm_obj\<lparr>device := foldl realise (device vm_obj) changes\<rparr>)"

section \<open>Notions used to state the properties\<close>

text \<open>Unit \<open>u\<close> is in the occupied set that \<open>disk_units\<close> holds for bus \<open>ctl\<close>.\<close>

definition is_occupied :: "(int \<times> int set) list \<Rightarrow> int \<Rightarrow> int \<Rightarrow> bool" where
  "is_occupied units ctl u =
     (case map_of units ctl of None \<Rightarrow> False | Some occupied \<Rightarrow> u \<in> occupied)"

text \<open>Every unit number \<open>0..ctl_max\<close> on every bus of \<open>ctl_list\<close> is occupied.\<close>

definition exhausted :: "helper \<Rightarrow> bool" where
  "exhausted self \<longleftrightarrow>
     list_all (\<lambda>ctl. list_all (is_occupied (disk_units self) ctl) [0..ctl_max self])
       (ctl_list self)"

text \<open>
  Successive calls of \<open>create_rdm\<close> in one pass, one per request, each on the helper the
  previous call left: the (bus, unit) pair each call took, in order. A call that finds
  nothing free takes no pair; a call that raises ends the pass.
\<close>

fun batch_slots :: "(scsi_lun \<times> string \<times> string) list \<Rightarrow> helper \<Rightarrow> (int \<times> int) list" where
  "batch_slots [] self = []"
| "batch_slots ((lun, vm_ds, rdm_file) # reqs) self =
     (case create_rdm lun vm_ds rdm_file self of
        Inl e \<Rightarrow> []
      | Inr self' \<Rightarrow>
          (case find_free_bus (ctl_list self) (ctl_max self) (disk_units self) of
             Inr (Some slot) \<Rightarrow> [slot]
           | _ \<Rightarrow> [])
          @ batch_slots reqs self')"

text \<open>
  The controller class that \<open>create_scsi_controller_bus\<close> builds for a value of
  \<open>rdm_controller_type\<close>, \<open>None\<close> for a value outside the four choices.
\<close>

definition requested_class :: "string \<Rightarrow> scsi_class option" where
  "requested_class ty =
     (case create_scsi_controller_bus ty 0 of
        Inr (AddController cls _) \<Rightarrow> Some cls
      | _ \<Rightarrow> None)"

text \<open>
  The quantities of the capacity check in \<open>get_rdm_info\<close>: \<open>wwid_presented\<close> after the
  loop (the existing RDM disks matched by some request), \<open>all_disk\<close> (the existing RDM
  disks plus \<open>new_disks\<close>, the number of requests minus \<open>wwid_presented\<close>) and
  \<open>free_bays\<close>; and the condition under which the loop meets no missing key: every RDM
  disk hangs off a controller of the inventory.
\<close>

definition matched_disks :: "virtual_disk list \<Rightarrow> string list \<Rightarrow> int" where
  "matched_disks rdms rdms_requested =
     int (length (filter (\<lambda>disk. wwid_matches disk rdms_requested) rdms))"

definition all_disk :: "helper \<Rightarrow> virtual_disk list \<Rightarrow> int" where
  "all_disk self rdms =
     int (length rdms) + (int (length (requested self)) - matched_disks rdms (requested self))"

definition free_bays :: "helper \<Rightarrow> int" where
  "free_bays self = ctl_max self * int (length (ctl_list self))"

definition on_known_controllers :: "helper \<Rightarrow> virtual_disk list \<Rightarrow> bool" where
  "on_known_controllers self rdms \<longleftrightarrow>
     list_all (\<lambda>disk. case map_of (ctl_key_slot self) (controllerKey disk) of
                        None \<Rightarrow> False
                      | Some ctl_n \<Rightarrow> ctl_n \<in> fst ` set (ctl_units self)) rdms"

text \<open>
  Every RDM disk of the device list hangs off one of its SCSI controllers.
\<close>

definition controller_keys :: "device list \<Rightarrow> int list" where
  "controller_keys devs =
     concat (map (\<lambda>dev. case dev of ScsiController cls k bus \<Rightarrow> [k] | _ \<Rightarrow> []) devs)"

definition disks_on_scsi :: "device list \<Rightarrow> bool" where
  "disks_on_scsi devs \<longleftrightarrow>
     list_all (\<lambda>disk. controllerKey disk \<in> set (controller_keys devs)) (rdm_devices devs)"

text \<open>
  The detach specifications of an absent pass, in order: for each requested WWID whose
  LUN the host presents, one per RDM disk whose \<open>lunUuid\<close> is that LUN's \<open>uuid\<close>.
\<close>

definition detach_specs :: "string list \<Rightarrow> scsi_lun list \<Rightarrow> virtual_disk list \<Rightarrow> device_spec list" where
  "detach_specs wwids vm_host_luns rdms =
     concat (map (\<lambda>wwid. case find_lun vm_host_luns wwid of
                           None \<Rightarrow> []
                         | Some lun \<Rightarrow>
                             map remove_rdm_disk (filter (\<lambda>rdm. lunUuid rdm = uuid lun) rdms))
                 wwids)"

text \<open>
  The requested WWIDs that no existing RDM disk satisfies, each requested WWID tested on
  its own with the match test of \<open>get_rdm_info\<close>.
\<close>

definition unsatisfied_wwids :: "virtual_disk list \<Rightarrow> string list \<Rightarrow> string list" where
  "unsatisfied_wwids rdms rdms_requested =
     filter (\<lambda>wwid. \<not> (\<exists>disk\<in>set rdms. wwid_matches disk [wwid])) rdms_requested"

text \<open>
  The bus numbers of the SCSI controllers of a device list. vSphere gives the SCSI
  controller on bus \<open>b\<close> the device key \<open>1000 + b\<close>; \<open>scsi_keys_by_bus\<close> says that every
  SCSI controller of the device list carries that key.
\<close>

definition controller_buses :: "device list \<Rightarrow> int list" where
  "controller_buses devs =
     concat (map (\<lambda>dev. case dev of ScsiController cls k bus \<Rightarrow> [bus] | _ \<Rightarrow> []) devs)"

definition scsi_keys_by_bus :: "device list \<Rightarrow> bool" where
  "scsi_keys_by_bus devs \<longleftrightarrow>
     list_all (\<lambda>dev. case dev of ScsiController cls k bus \<Rightarrow> k = 1000 + bus | _ \<Rightarrow> True) devs"

text \<open>
  The three dictionaries of the inventory when the controllers are keyed that way and
  \<open>B\<close> is the set of buses with a controller: \<open>ctl_key_slot\<close> maps \<open>1000 + b\<close> to \<open>b\<close>,
  \<open>ctl_slot_key\<close> maps \<open>b\<close> to \<open>1000 + b\<close>, and \<open>ctl_units\<close> has the keys \<open>B\<close>.
\<close>

definition keyed_inventory :: "helper \<Rightarrow> int set \<Rightarrow> bool" where
  "keyed_inventory self B \<longleftrightarrow>
     (\<forall>k. map_of (ctl_key_slot self) k = (if k - 1000 \<in> B then Some (k - 1000) else None))
   \<and> (\<forall>b. map_of (ctl_slot_key self) b = (if b \<in> B then Some (1000 + b) else None))
   \<and> fst ` set (ctl_units self) = B"

text \<open>
  The machine as a run of the module leaves it when the server carries out every change
  it is sent.
\<close>

definition machine_after :: "params \<Rightarrow> vm \<Rightarrow> vm" where
  "machine_after p vm_obj = vm_after (run obedient_server p vm_obj)"

subsection \<open>Concrete machines and requests\<close>

definition lun_6a :: scsi_lun where
  "lun_6a = \<lparr> canonicalName = ''naa.60002ac0000000000000006a000123fd'',
              uuid = ''020000000060002ac0000000000000006a000123fd565620'',
              deviceName = ''/vmfs/devices/disks/naa.60002ac0000000000000006a000123fd'' \<rparr>"

definition lun_6b :: scsi_lun where
  "lun_6b = \<lparr> canonicalName = ''naa.60002ac0000000000000006b000123fd'',
              uuid = ''020000000060002ac0000000000000006b000123fd565620'',
              deviceName = ''/vmfs/devices/disks/naa.60002ac0000000000000006b000123fd'' \<rparr>"

text \<open>A helper whose only allowed bus, bus 0, has all of its units 0..15 occupied.\<close>

definition full_helper :: helper where
  "full_helper =
     \<lparr> deviceChange = [], change_detected = False, rdm_state = ''present'', rdm_disks = [],
       ctl_list = [0], ctl_type = ''paravirtual'', ctl_max = 15,
       ctl_slot_key = [(0, 1000)], ctl_key_slot = [(1000, 0)],
       ctl_units = [(0, ''paravirtualscsicontroller'')], disk_units = [(0, {0..15})],
       requested = [] \<rparr>"

text \<open>Occupancy \<open>{0: {7, 0, 1}, 1: {7}}\<close> with buses \<open>[0, 1]\<close> allowed and capacity 15.\<close>

definition two_bus_helper :: helper where
  "two_bus_helper =
     \<lparr> deviceChange = [], change_detected = False, rdm_state = ''present'', rdm_disks = [],
       ctl_list = [0, 1], ctl_type = ''paravirtual'', ctl_max = 15,
       ctl_slot_key = [(0, 1000), (1, 1001)], ctl_key_slot = [(1000, 0), (1001, 1)],
       ctl_units = [(0, ''paravirtualscsicontroller''), (1, ''paravirtualscsicontroller'')],
       disk_units = [(0, {7, 0, 1}), (1, {7})],
       requested = [] \<rparr>"

text \<open>A machine with neither a SCSI controller nor an RDM disk, on a host that sees \<open>lun_6a\<close>.\<close>

definition bare_vm :: vm where
  "bare_vm = \<lparr> device = [OtherDevice], datastore = [''ds1''], vmPathName = ''[ds1] vm/vm.vmx'',
               host_view = Some [[lun_6a]], vm_version = 13 \<rparr>"

text \<open>\<open>state: present\<close> on bus 1 with an empty \<open>rdm_disk\<close> list.\<close>

definition present_nothing :: params where
  "present_nothing = \<lparr> state = ''present'', rdm_controller_type = ''paravirtual'',
                       rdm_controller_bus = [1], rdm_disk = [] \<rparr>"

text \<open>A machine whose only SCSI controller is an LSI Logic one on bus 0.\<close>

definition lsi_vm :: vm where
  "lsi_vm = \<lparr> device = [ScsiController VirtualLsiLogicController 1000 0, OtherDevice],
              datastore = [''ds1''], vmPathName = ''[ds1] vm/vm.vmx'',
              host_view = Some [[lun_6a]], vm_version = 13 \<rparr>"

text \<open>\<open>state: absent\<close> on bus 0 with type paravirtual and an empty \<open>rdm_disk\<close> list.\<close>

definition absent_nothing :: params where
  "absent_nothing = \<lparr> state = ''absent'', rdm_controller_type = ''paravirtual'',
                      rdm_controller_bus = [0], rdm_disk = [] \<rparr>"

text \<open>\<open>state: present\<close> on bus 0 with type paravirtual and an empty \<open>rdm_disk\<close> list.\<close>

definition present_bus0 :: params where
  "present_bus0 = \<lparr> state = ''present'', rdm_controller_type = ''paravirtual'',
                    rdm_controller_bus = [0], rdm_disk = [] \<rparr>"

text \<open>
  Fourteen RDM disks on the controller with key 1000, units 0..14 without 7, and a helper
  for \<open>state: present\<close> on the single bus 0 of that controller with capacity 15.
\<close>

definition fourteen_disks :: "virtual_disk list" where
  "fourteen_disks =
     map (\<lambda>u. \<lparr>key = 2000 + u, controllerKey = 1000, unitNumber = u, lunUuid = ''0200''\<rparr>)
       [0, 1, 2, 3, 4, 5, 6, 8, 9, 10, 11, 12, 13, 14]"

definition one_bus_helper :: "string list \<Rightarrow> helper" where
  "one_bus_helper wwids =
     \<lparr> deviceChange = [], change_detected = False, rdm_state = ''present'',
       rdm_disks = fourteen_disks, ctl_list = [0], ctl_type = ''paravirtual'', ctl_max = 15,
       ctl_slot_key = [(0, 1000)], ctl_key_slot = [(1000, 0)],
       ctl_units = [(0, ''paravirtualscsicontroller'')], disk_units = [],
       requested = wwids \<rparr>"

text \<open>
  A machine whose only controller sits on bus 3 and carries one RDM disk, the LUN
  \<open>lun_6a\<close>; and \<open>state: absent\<close> requests for that LUN and for one the host does not
  see, both with bus 1 as the only allowed bus.
\<close>

definition vm_bus3 :: vm where
  "vm_bus3 =
     \<lparr> device = [ScsiController ParaVirtualSCSIController 1003 3,
                  RdmDisk \<lparr>key = 2048, controllerKey = 1003, unitNumber = 0,
                           lunUuid = ''020000000060002ac0000000000000006a000123fd565620''\<rparr>],
       datastore = [''ds1''], vmPathName = ''[ds1] vm/vm.vmx'',
       host_view = Some [[lun_6a]], vm_version = 13 \<rparr>"

definition absent_6a :: params where
  "absent_6a = \<lparr> state = ''absent'', rdm_controller_type = ''paravirtual'',
                 rdm_controller_bus = [1],
                 rdm_disk = [''60002AC0000000000000006A000123FD''] \<rparr>"

definition absent_6b :: params where
  "absent_6b = \<lparr> state = ''absent'', rdm_controller_type = ''paravirtual'',
                 rdm_controller_bus = [1],
                 rdm_disk = [''60002AC0000000000000006B000123FD''] \<rparr>"


text \<open>
  A second LUN whose WWID is a prefix of that of \<open>lun_6a\<close>; the RDM disk of \<open>lun_6a\<close> on
  unit 0 of the controller with key 1000; a machine with that controller on bus 0, that
  disk, and a host that sees both LUNs; \<open>state: present\<close> requests on bus 0 for each of the
  two WWIDs; and the helper as it stands when the attach loop starts on the machine with
  the disk.
\<close>

definition lun_6a_short :: scsi_lun where
  "lun_6a_short = \<lparr> canonicalName = ''naa.60002ac0000000000000006a'',
                    uuid = ''020000000060002ac0000000000000006a565620'',
                    deviceName = ''/vmfs/devices/disks/naa.60002ac0000000000000006a'' \<rparr>"

definition disk_6a :: virtual_disk where
  "disk_6a = \<lparr> key = 2000, controllerKey = 1000, unitNumber = 0,
               lunUuid = ''020000000060002ac0000000000000006a000123fd565620'' \<rparr>"

definition vm_6a_attached :: vm where
  "vm_6a_attached =
     \<lparr> device = [ScsiController ParaVirtualSCSIController 1000 0, RdmDisk disk_6a],
       datastore = [''ds1''], vmPathName = ''[ds1] vm/vm.vmx'',
       host_view = Some [[lun_6a, lun_6a_short]], vm_version = 13 \<rparr>"

definition present_6a_short :: params where
  "present_6a_short = \<lparr> state = ''present'', rdm_controller_type = ''paravirtual'',
                        rdm_controller_bus = [0], rdm_disk = [''60002AC0000000000000006A''] \<rparr>"

definition helper_6a :: helper where
  "helper_6a =
     \<lparr> deviceChange = [], change_detected = False, rdm_state = ''present'',
       rdm_disks = [disk_6a], ctl_list = [0], ctl_type = ''paravirtual'', ctl_max = 15,
       ctl_slot_key = [(0, 1000)], ctl_key_slot = [(1000, 0)],
       ctl_units = [(0, ''paravirtualscsicontroller'')], disk_units = [(0, {7, 0})],
       requested = [''60002AC0000000000000006A000123FD''] \<rparr>"


text \<open>
  The fourteen disks and a fifteenth on unit 15 that carries the LUN \<open>lun_6a\<close>.
\<close>

definition fifteen_disks :: "virtual_disk list" where
  "fifteen_disks =
     fourteen_disks
     @ [\<lparr>key = 2015, controllerKey = 1000, unitNumber = 15,
         lunUuid = ''020000000060002ac0000000000000006a000123fd565620''\<rparr>]"

text \<open>
  \<open>state: absent\<close> requests on the allowed bus 1: for the LUN \<open>lun_6a\<close> followed by one the
  host of \<open>vm_bus3\<close> does not see, for the same two in the other order, and for the LUN
  \<open>lun_6a_short\<close>.
\<close>

definition absent_6a_6b :: params where
  "absent_6a_6b = \<lparr> state = ''absent'', rdm_controller_type = ''paravirtual'',
                    rdm_controller_bus = [1],
                    rdm_disk = [''60002AC0000000000000006A000123FD'',
                                ''60002AC0000000000000006B000123FD''] \<rparr>"

definition absent_6b_6a :: params where
  "absent_6b_6a = \<lparr> state = ''absent'', rdm_controller_type = ''paravirtual'',
                    rdm_controller_bus = [1],
                    rdm_disk = [''60002AC0000000000000006B000123FD'',
                                ''60002AC0000000000000006A000123FD''] \<rparr>"

definition absent_6a_short :: params where
  "absent_6a_short = \<lparr> state = ''absent'', rdm_controller_type = ''paravirtual'',
                       rdm_controller_bus = [1], rdm_disk = [''60002AC0000000000000006A''] \<rparr>"

text \<open>
  A machine without a SCSI controller on a host that sees \<open>lun_6a\<close> and \<open>lun_6a_short\<close>, a
  \<open>state: present\<close> request for both on bus 0, and the machine with the controller and
  the two disks; and \<open>vm_6a_attached\<close> with \<open>lun_6a_short\<close> attached as well.
\<close>

definition vm_two_luns :: vm where
  "vm_two_luns = \<lparr> device = [OtherDevice], datastore = [''ds1''],
                   vmPathName = ''[ds1] vm/vm.vmx'',
                   host_view = Some [[lun_6a, lun_6a_short]], vm_version = 13 \<rparr>"

definition present_two :: params where
  "present_two = \<lparr> state = ''present'', rdm_controller_type = ''paravirtual'',
                   rdm_controller_bus = [0],
                   rdm_disk = [''60002AC0000000000000006A000123FD'',
                               ''60002AC0000000000000006A''] \<rparr>"

definition vm_two_attached :: vm where
  "vm_two_attached =
     vm_two_luns\<lparr>device :=
        [OtherDevice, ScsiController ParaVirtualSCSIController 1000 0,
         RdmDisk \<lparr>key = 18000, controllerKey = 1000, unitNumber = 0,
                  lunUuid = ''020000000060002ac0000000000000006a000123fd565620''\<rparr>,
         RdmDisk \<lparr>key = 18001, controllerKey = 1000, unitNumber = 1,
                  lunUuid = ''020000000060002ac0000000000000006a565620''\<rparr>]\<rparr>"

definition vm_6a_both :: vm where
  "vm_6a_both =
     vm_6a_attached\<lparr>device := device vm_6a_attached
        @ [RdmDisk \<lparr>key = 18001, controllerKey = 1000, unitNumber = 1,
                    lunUuid = ''020000000060002ac0000000000000006a565620''\<rparr>]\<rparr>"

text \<open>
  A LUN whose \<open>uuid\<close> does not contain its WWID; a machine with a paravirtual controller
  on bus 0 that carries the fourteen disks, on a host that sees this LUN; a
  \<open>state: present\<close> request for the LUN on bus 0; and the machine with the LUN attached
  on unit 15.
\<close>

definition lun_6c :: scsi_lun where
  "lun_6c = \<lparr> canonicalName = ''naa.60002ac0000000000000006c000123fd'',
              uuid = ''0100000000364330'',
              deviceName = ''/vmfs/devices/disks/naa.60002ac0000000000000006c000123fd'' \<rparr>"

definition vm_fourteen :: vm where
  "vm_fourteen =
     \<lparr> device = ScsiController ParaVirtualSCSIController 1000 0 # map RdmDisk fourteen_disks,
       datastore = [''ds1''], vmPathName = ''[ds1] vm/vm.vmx'',
       host_view = Some [[lun_6c]], vm_version = 13 \<rparr>"

definition present_6c :: params where
  "present_6c = \<lparr> state = ''present'', rdm_controller_type = ''paravirtual'',
                  rdm_controller_bus = [0], rdm_disk = [''60002AC0000000000000006C000123FD''] \<rparr>"

definition vm_fifteen :: vm where
  "vm_fifteen =
     vm_fourteen\<lparr>device := device vm_fourteen
        @ [RdmDisk \<lparr>key = 18015, controllerKey = 1000, unitNumber = 15,
                    lunUuid = ''0100000000364330''\<rparr>]\<rparr>"

section \<open>Properties\<close>

subsection \<open>Evaluation rules\<close>

lemma short_name_literals:
  "str_replace (str_lower ''vim.vm.device.VirtualLsiLogicController'') ''vim.vm.device.'' []
     = ''virtuallsilogiccontroller''"
  "str_replace (str_lower ''vim.vm.device.ParaVirtualSCSIController'') ''vim.vm.device.'' []
     = ''paravirtualscsicontroller''"
  "str_replace (str_lower ''vim.vm.device.VirtualBusLogicController'') ''vim.vm.device.'' []
     = ''virtualbuslogiccontroller''"
  "str_replace (str_lower ''vim.vm.device.VirtualLsiLogicSASController'') ''vim.vm.device.'' []
     = ''virtuallsilogicsascontroller''"
  by (simp_all add: str_lower_def lower_char_def str_replace_def)

lemma find_table:
  "str_find ''virtuallsilogiccontroller'' ''lsilogic'' \<noteq> - 1"
  "str_find ''virtuallsilogiccontroller'' ''paravirtual'' = - 1"
  "str_find ''virtuallsilogiccontroller'' ''buslogic'' = - 1"
  "str_find ''virtuallsilogiccontroller'' ''lsilogicsas'' = - 1"
  "str_find ''paravirtualscsicontroller'' ''lsilogic'' = - 1"
  "str_find ''paravirtualscsicontroller'' ''paravirtual'' \<noteq> - 1"
  "str_find ''paravirtualscsicontroller'' ''buslogic'' = - 1"
  "str_find ''paravirtualscsicontroller'' ''lsilogicsas'' = - 1"
  "str_find ''virtualbuslogiccontroller'' ''lsilogic'' = - 1"
  "str_find ''virtualbuslogiccontroller'' ''paravirtual'' = - 1"
  "str_find ''virtualbuslogiccontroller'' ''buslogic'' \<noteq> - 1"
  "str_find ''virtualbuslogiccontroller'' ''lsilogicsas'' = - 1"
  "str_find ''virtuallsilogicsascontroller'' ''lsilogic'' \<noteq> - 1"
  "str_find ''virtuallsilogicsascontroller'' ''paravirtual'' = - 1"
  "str_find ''virtuallsilogicsascontroller'' ''buslogic'' = - 1"
  "str_find ''virtuallsilogicsascontroller'' ''lsilogicsas'' \<noteq> - 1"
  by (simp_all add: str_find_def)

lemmas upto_small = upto.simps [of 0 "numeral n"] upto.simps [of 1 "numeral n"] for n

lemmas run_defs =
  run_def reconfigure_vm_def add_disks_def init_def check_maximums_def ctl_check_types_def
  ctl_create_new_def create_scsi_controller_bus_def apply_changes_def truthy_def
  rdm_devices_def get_rdm_info_def configure_rdm_disks_def get_host_by_vm_def
  get_datastore_by_vm_def obedient_server_def short_name_literals find_table

subsection \<open>The substring test\<close>

lemma find_from_sublist: "0 \<le> i \<Longrightarrow> 0 \<le> find_from s sub i \<longleftrightarrow> sublist sub s"
proof (induction s arbitrary: i)
  case Nil
  then show ?case by simp
next
  case (Cons c s)
  have "0 \<le> i + 1" using Cons.prems by simp
  from Cons.IH [OF this] Cons.prems show ?case
    by (simp add: sublist_Cons_right)
qed

lemma str_find_sublist: "0 \<le> str_find s sub \<longleftrightarrow> sublist sub s"
  by (simp add: str_find_def find_from_sublist)

lemma wwid_matches_sublist:
  "wwid_matches disk req
   \<longleftrightarrow> (\<exists>wwid\<in>set req. sublist (str_lower wwid) (str_lower (lunUuid disk)))"
  by (simp add: wwid_matches_def str_find_sublist)

lemma lower_literals:
  "str_lower ''60002AC0000000000000006A000123FD'' = ''60002ac0000000000000006a000123fd''"
  "str_lower ''60002AC0000000000000006B000123FD'' = ''60002ac0000000000000006b000123fd''"
  by (simp_all add: str_lower_def lower_char_def)

lemma lower_short:
  "str_lower ''60002AC0000000000000006A'' = ''60002ac0000000000000006a''"
  "str_lower ''020000000060002ac0000000000000006a000123fd565620''
     = ''020000000060002ac0000000000000006a000123fd565620''"
  "str_lower ''0200'' = ''0200''"
  by (simp_all add: str_lower_def lower_char_def)

subsection \<open>The slot search of \<open>create_rdm\<close>\<close>

lemma scan_units_Some:
  "scan_units us ctl units = Inr (Some u) \<Longrightarrow>
   \<exists>occupied pre post. map_of units ctl = Some occupied \<and> us = pre @ u # post
      \<and> u \<notin> occupied \<and> set pre \<subseteq> occupied"
proof (induction us)
  case Nil
  then show ?case by simp
next
  case (Cons a us)
  then obtain occupied where occ: "map_of units ctl = Some occupied"
    by (auto split: option.splits)
  show ?case
  proof (cases "a \<in> occupied")
    case False
    with Cons.prems occ have "u = a" by simp
    with False occ show ?thesis by fastforce
  next
    case True
    with Cons.prems occ have "scan_units us ctl units = Inr (Some u)" by simp
    from Cons.IH [OF this] obtain occupied' pre post where
      h: "map_of units ctl = Some occupied'" "us = pre @ u # post" "u \<notin> occupied'"
         "set pre \<subseteq> occupied'" by blast
    with occ have eq: "occupied' = occupied" by simp
    have "a # us = (a # pre) @ u # post" using h by simp
    moreover have "set (a # pre) \<subseteq> occupied" using h True eq by simp
    ultimately show ?thesis using occ h eq by blast
  qed
qed

lemma scan_units_None_iff:
  "scan_units us ctl units = Inr None \<longleftrightarrow> list_all (is_occupied units ctl) us"
  by (induction us) (auto simp: is_occupied_def split: option.splits)

lemma scan_upto_Some:
  assumes "scan_units [0..cmax] ctl units = Inr (Some u)"
  shows "\<exists>occupied. map_of units ctl = Some occupied \<and> 0 \<le> u \<and> u \<le> cmax \<and> u \<notin> occupied
           \<and> (\<forall>u'. 0 \<le> u' \<and> u' < u \<longrightarrow> u' \<in> occupied)"
proof -
  from scan_units_Some [OF assms] obtain occupied pre post where
    h: "map_of units ctl = Some occupied" "[0..cmax] = pre @ u # post" "u \<notin> occupied"
       "set pre \<subseteq> occupied" by blast
  have "u \<in> set [0..cmax]" using h(2) by simp
  then have range: "0 \<le> u" "u \<le> cmax" by simp_all
  have srt: "sorted_wrt (<) (pre @ u # post)" using h(2) sorted_wrt_upto [of 0 cmax] by simp
  have below: "u' \<in> occupied" if "0 \<le> u'" "u' < u" for u'
  proof -
    have "u' \<in> set [0..cmax]" using that range by simp
    then have "u' \<in> set pre \<or> u' = u \<or> u' \<in> set post" using h(2) by auto
    moreover have "\<forall>y\<in>set post. u < y" using srt by (simp add: sorted_wrt_append)
    ultimately have "u' \<in> set pre" using that by auto
    then show ?thesis using h(4) by auto
  qed
  show ?thesis using h(1,3) range below by blast
qed

lemma find_free_bus_None_iff:
  "find_free_bus ctls cmax units = Inr None \<longleftrightarrow>
   list_all (\<lambda>ctl. list_all (is_occupied units ctl) [0..cmax]) ctls"
proof (induction ctls)
  case Nil
  then show ?case by simp
next
  case (Cons c ctls)
  show ?case
  proof (cases "scan_units [0..cmax] c units")
    case (Inl e)
    then have "\<not> list_all (is_occupied units c) [0..cmax]"
      using scan_units_None_iff [of "[0..cmax]" c units] by simp
    with Inl show ?thesis by simp
  next
    case (Inr r)
    show ?thesis
    proof (cases r)
      case None
      with Inr have "list_all (is_occupied units c) [0..cmax]"
        using scan_units_None_iff [of "[0..cmax]" c units] by simp
      with Inr None Cons.IH show ?thesis by simp
    next
      case (Some u)
      with Inr have "\<not> list_all (is_occupied units c) [0..cmax]"
        using scan_units_None_iff [of "[0..cmax]" c units] by simp
      with Inr Some show ?thesis by simp
    qed
  qed
qed

lemma find_free_bus_Some:
  "find_free_bus ctls cmax units = Inr (Some (ctl, u)) \<Longrightarrow>
   \<exists>pre post occupied. ctls = pre @ ctl # post
     \<and> (\<forall>c\<in>set pre. \<forall>u'. 0 \<le> u' \<and> u' \<le> cmax \<longrightarrow> is_occupied units c u')
     \<and> map_of units ctl = Some occupied \<and> 0 \<le> u \<and> u \<le> cmax \<and> u \<notin> occupied
     \<and> (\<forall>u'. 0 \<le> u' \<and> u' < u \<longrightarrow> u' \<in> occupied)"
proof (induction ctls)
  case Nil
  then show ?case by simp
next
  case (Cons c ctls)
  show ?case
  proof (cases "scan_units [0..cmax] c units")
    case (Inl e)
    with Cons.prems show ?thesis by simp
  next
    case (Inr r)
    show ?thesis
    proof (cases r)
      case None
      with Inr Cons.prems have "find_free_bus ctls cmax units = Inr (Some (ctl, u))" by simp
      from Cons.IH [OF this] obtain pre post occupied where
        h: "ctls = pre @ ctl # post"
           "\<forall>c\<in>set pre. \<forall>u'. 0 \<le> u' \<and> u' \<le> cmax \<longrightarrow> is_occupied units c u'"
           "map_of units ctl = Some occupied" "0 \<le> u" "u \<le> cmax" "u \<notin> occupied"
           "\<forall>u'. 0 \<le> u' \<and> u' < u \<longrightarrow> u' \<in> occupied" by blast
      have "list_all (is_occupied units c) [0..cmax]"
        using Inr None scan_units_None_iff [of "[0..cmax]" c units] by simp
      then have full: "\<forall>u'. 0 \<le> u' \<and> u' \<le> cmax \<longrightarrow> is_occupied units c u'"
        by (simp add: list_all_iff)
      have "c # ctls = (c # pre) @ ctl # post" using h(1) by simp
      moreover have "\<forall>c'\<in>set (c # pre). \<forall>u'. 0 \<le> u' \<and> u' \<le> cmax \<longrightarrow> is_occupied units c' u'"
        using full h(2) by simp
      ultimately show ?thesis using h(3-7) by blast
    next
      case (Some v)
      with Inr Cons.prems have eq: "c = ctl" "v = u" by simp_all
      from scan_upto_Some [of cmax c units v] Inr Some eq obtain occupied where
        "map_of units ctl = Some occupied" "0 \<le> u" "u \<le> cmax" "u \<notin> occupied"
        "\<forall>u'. 0 \<le> u' \<and> u' < u \<longrightarrow> u' \<in> occupied" by auto
      moreover have "c # ctls = [] @ ctl # ctls" using eq by simp
      ultimately show ?thesis by (metis empty_iff empty_set)
    qed
  qed
qed

lemma find_free_bus_total:
  "\<forall>c\<in>set ctls. map_of units c \<noteq> None \<Longrightarrow> \<exists>r. find_free_bus ctls cmax units = Inr r"
proof (induction ctls)
  case Nil
  then show ?case by simp
next
  case (Cons c ctls)
  have "\<exists>r. scan_units us c units = Inr r" for us
    using Cons.prems by (induction us) (auto split: option.splits)
  then obtain r where "scan_units [0..cmax] c units = Inr r" by blast
  with Cons show ?case by (cases r) auto
qed

lemma find_free_bus_unoccupied:
  "find_free_bus ctls cmax units = Inr (Some (c, u)) \<Longrightarrow> \<not> is_occupied units c u"
  by (drule find_free_bus_Some) (auto simp: is_occupied_def)

lemma create_rdm_exhausted:
  assumes "exhausted self"
  shows "create_rdm lun vm_ds rdm_file self = Inr self"
proof -
  have "find_free_bus (ctl_list self) (ctl_max self) (disk_units self) = Inr None"
    using assms by (simp add: exhausted_def find_free_bus_None_iff)
  then show ?thesis by (simp add: create_rdm_def)
qed

lemma create_rdm_occupied_mono:
  assumes "create_rdm lun vm_ds rdm_file self = Inr self'"
      and "is_occupied (disk_units self) c u"
  shows "is_occupied (disk_units self') c u"
  using assms
  by (auto simp: create_rdm_def is_occupied_def update_conv'
      split: sum.splits option.splits prod.splits if_splits)

lemma create_rdm_reserves:
  assumes "create_rdm lun vm_ds rdm_file self = Inr self'"
      and "find_free_bus (ctl_list self) (ctl_max self) (disk_units self) = Inr (Some (c, u))"
  shows "is_occupied (disk_units self') c u"
  using assms
  by (auto simp: create_rdm_def is_occupied_def update_conv'
      split: sum.splits option.splits prod.splits if_splits)

lemma batch_slots_unoccupied:
  "(c, u) \<in> set (batch_slots reqs self) \<Longrightarrow> \<not> is_occupied (disk_units self) c u"
proof (induction reqs arbitrary: self)
  case Nil
  then show ?case by simp
next
  case (Cons r reqs)
  obtain lun vm_ds rdm_file where r: "r = (lun, vm_ds, rdm_file)" by (cases r) auto
  show ?case
  proof (cases "create_rdm lun vm_ds rdm_file self")
    case (Inl e)
    with Cons.prems r show ?thesis by simp
  next
    case (Inr self')
    from Cons.prems r Inr consider
      (head) "find_free_bus (ctl_list self) (ctl_max self) (disk_units self) = Inr (Some (c, u))"
      | (tail) "(c, u) \<in> set (batch_slots reqs self')"
      by (auto split: sum.splits option.splits)
    then show ?thesis
    proof cases
      case head
      then show ?thesis by (rule find_free_bus_unoccupied)
    next
      case tail
      from Cons.IH [OF this] show ?thesis using create_rdm_occupied_mono [OF Inr] by blast
    qed
  qed
qed

lemma distinct_batch_slots: "distinct (batch_slots reqs self)"
proof (induction reqs arbitrary: self)
  case Nil
  then show ?case by simp
next
  case (Cons r reqs)
  obtain lun vm_ds rdm_file where r: "r = (lun, vm_ds, rdm_file)" by (cases r) auto
  show ?case
  proof (cases "create_rdm lun vm_ds rdm_file self")
    case (Inl e)
    with r show ?thesis by simp
  next
    case (Inr self')
    show ?thesis
    proof (cases "find_free_bus (ctl_list self) (ctl_max self) (disk_units self)")
      case (Inl e)
      with Inr r Cons.IH show ?thesis by simp
    next
      case found: (Inr slot)
      show ?thesis
      proof (cases slot)
        case None
        with found Inr r Cons.IH show ?thesis by simp
      next
        case (Some p)
        obtain c u where p: "p = (c, u)" by (cases p) auto
        have "is_occupied (disk_units self') c u"
          using create_rdm_reserves [OF Inr] found Some p by simp
        then have "(c, u) \<notin> set (batch_slots reqs self')"
          using batch_slots_unoccupied by blast
        with found Some p Inr r Cons.IH show ?thesis by simp
      qed
    qed
  qed
qed

lemma create_rdm_result:
  assumes "create_rdm lun vm_ds rdm_file self = Inr self'"
  shows "(exhausted self \<and> self' = self) \<or>
         (\<exists>pre ctl post u occupied scsi_key.
            ctl_list self = pre @ ctl # post
          \<and> (\<forall>c\<in>set pre. \<forall>u'. 0 \<le> u' \<and> u' \<le> ctl_max self
                \<longrightarrow> is_occupied (disk_units self) c u')
          \<and> map_of (disk_units self) ctl = Some occupied
          \<and> 0 \<le> u \<and> u \<le> ctl_max self \<and> u \<notin> occupied
          \<and> (\<forall>u'. 0 \<le> u' \<and> u' < u \<longrightarrow> u' \<in> occupied)
          \<and> map_of (ctl_slot_key self) ctl = Some scsi_key
          \<and> self' = self\<lparr> disk_units := AList.update ctl (insert u occupied) (disk_units self),
                           deviceChange :=
                             deviceChange self @ [create_rdm_disk scsi_key lun vm_ds rdm_file u],
                           change_detected := True \<rparr>)"
proof (cases "find_free_bus (ctl_list self) (ctl_max self) (disk_units self)")
  case (Inl e)
  with assms show ?thesis by (simp add: create_rdm_def)
next
  case (Inr r)
  show ?thesis
  proof (cases r)
    case None
    with Inr have "exhausted self" by (simp add: exhausted_def find_free_bus_None_iff)
    moreover have "self' = self" using assms Inr None by (simp add: create_rdm_def)
    ultimately show ?thesis by simp
  next
    case (Some p)
    obtain ctl u where p: "p = (ctl, u)" by (cases p) auto
    from find_free_bus_Some [of "ctl_list self" "ctl_max self" "disk_units self" ctl u]
      Inr Some p
    obtain pre post occupied where
      h: "ctl_list self = pre @ ctl # post"
         "\<forall>c\<in>set pre. \<forall>u'. 0 \<le> u' \<and> u' \<le> ctl_max self \<longrightarrow> is_occupied (disk_units self) c u'"
         "map_of (disk_units self) ctl = Some occupied" "0 \<le> u" "u \<le> ctl_max self"
         "u \<notin> occupied" "\<forall>u'. 0 \<le> u' \<and> u' < u \<longrightarrow> u' \<in> occupied" by auto
    from assms Inr Some p h(3) obtain scsi_key where
      k: "map_of (ctl_slot_key self) ctl = Some scsi_key"
      by (auto simp: create_rdm_def split: option.splits)
    have "self' = self\<lparr> disk_units := AList.update ctl (insert u occupied) (disk_units self),
                        deviceChange :=
                          deviceChange self @ [create_rdm_disk scsi_key lun vm_ds rdm_file u],
                        change_detected := True \<rparr>"
      using assms Inr Some p h(3) k by (simp add: create_rdm_def)
    with h k show ?thesis by blast
  qed
qed

lemma create_rdm_total:
  assumes "\<forall>c\<in>set (ctl_list self).
             map_of (disk_units self) c \<noteq> None \<and> map_of (ctl_slot_key self) c \<noteq> None"
  shows "\<exists>self'. create_rdm lun vm_ds rdm_file self = Inr self'"
proof -
  from assms have "\<forall>c\<in>set (ctl_list self). map_of (disk_units self) c \<noteq> None" by blast
  from find_free_bus_total [OF this] obtain r where
    r: "find_free_bus (ctl_list self) (ctl_max self) (disk_units self) = Inr r" by blast
  show ?thesis
  proof (cases r)
    case None
    with r show ?thesis by (simp add: create_rdm_def)
  next
    case (Some p)
    obtain ctl u where p: "p = (ctl, u)" by (cases p) auto
    from find_free_bus_Some [of "ctl_list self" "ctl_max self" "disk_units self" ctl u] r Some p
    have "ctl \<in> set (ctl_list self)" by auto
    with assms obtain occupied scsi_key where
      "map_of (disk_units self) ctl = Some occupied"
      "map_of (ctl_slot_key self) ctl = Some scsi_key" by auto
    with r Some p show ?thesis by (simp add: create_rdm_def)
  qed
qed

lemma exhausted_full_helper: "exhausted full_helper"
  by (simp add: exhausted_def full_helper_def list_all_iff is_occupied_def)

lemma batch_slots_two_bus_helper:
  "batch_slots [(lun_6a, ''ds1'', ''[ds1] vm/vm_RDM6a000123fd.vmdk''),
                (lun_6b, ''ds1'', ''[ds1] vm/vm_RDM6b000123fd.vmdk'')] two_bus_helper
   = [(0, 2), (0, 3)]"
  by (simp add: two_bus_helper_def create_rdm_def upto_small)

text \<open>
  C1. A call of \<open>create_rdm\<close> that returns either found every unit \<open>0..ctl_max\<close> of
  every allowed bus occupied and changed nothing, or took the first free pair in scan
  order: the allowed buses before \<open>ctl\<close> in \<open>ctl_list\<close> are full, \<open>u\<close> is in
  \<open>0..ctl_max\<close> and not occupied on \<open>ctl\<close>, every smaller unit of \<open>ctl\<close> is occupied;
  \<open>u\<close> is added to the occupied set of \<open>ctl\<close> and the attach specification for unit \<open>u\<close>
  on that controller's key is appended. The call returns whenever every allowed bus has
  an occupancy entry and a controller key. The pairs taken by successive calls in one
  pass are pairwise different, and from occupancy \<open>{0: {7, 0, 1}, 1: {7}}\<close> with buses
  \<open>[0, 1]\<close> two calls take \<open>(0, 2)\<close> and then \<open>(0, 3)\<close>.
\<close>

theorem create_rdm_takes_first_free_slot:
  "(create_rdm lun vm_ds rdm_file self = Inr self' \<longrightarrow>
      (exhausted self \<and> self' = self) \<or>
      (\<exists>pre ctl post u occupied scsi_key.
          ctl_list self = pre @ ctl # post
        \<and> (\<forall>c\<in>set pre. \<forall>u'. 0 \<le> u' \<and> u' \<le> ctl_max self
              \<longrightarrow> is_occupied (disk_units self) c u')
        \<and> map_of (disk_units self) ctl = Some occupied
        \<and> 0 \<le> u \<and> u \<le> ctl_max self \<and> u \<notin> occupied
        \<and> (\<forall>u'. 0 \<le> u' \<and> u' < u \<longrightarrow> u' \<in> occupied)
        \<and> map_of (ctl_slot_key self) ctl = Some scsi_key
        \<and> self' = self\<lparr> disk_units := AList.update ctl (insert u occupied) (disk_units self),
                         deviceChange :=
                           deviceChange self @ [create_rdm_disk scsi_key lun vm_ds rdm_file u],
                         change_detected := True \<rparr>))
   \<and> ((\<forall>c\<in>set (ctl_list self).
          map_of (disk_units self) c \<noteq> None \<and> map_of (ctl_slot_key self) c \<noteq> None)
        \<longrightarrow> (\<exists>self''. create_rdm lun vm_ds rdm_file self = Inr self''))
   \<and> distinct (batch_slots reqs self)
   \<and> batch_slots [(lun_6a, ''ds1'', ''[ds1] vm/vm_RDM6a000123fd.vmdk''),
                   (lun_6b, ''ds1'', ''[ds1] vm/vm_RDM6b000123fd.vmdk'')] two_bus_helper
       = [(0, 2), (0, 3)]"
  using create_rdm_result [of lun vm_ds rdm_file self self']
    create_rdm_total [of self lun vm_ds rdm_file]
    distinct_batch_slots [of reqs self] batch_slots_two_bus_helper
  by blast

theorem create_rdm_takes_first_free_slot_witness:
  "create_rdm lun_6a ''ds1'' ''[ds1] vm/vm_RDM6a000123fd.vmdk'' two_bus_helper =
     Inr (two_bus_helper\<lparr> disk_units := [(0, {2, 7, 0, 1}), (1, {7})],
                          deviceChange :=
                            [AddDisk (- 102) 1000 2 (uuid lun_6a) (deviceName lun_6a) ''ds1''
                               ''[ds1] vm/vm_RDM6a000123fd.vmdk''],
                          change_detected := True \<rparr>)
   \<and> \<not> exhausted two_bus_helper
   \<and> map_of (disk_units two_bus_helper) 0 = Some {7, 0, 1}
   \<and> map_of (ctl_slot_key two_bus_helper) 0 = Some 1000
   \<and> map_of (disk_units two_bus_helper) 1 \<noteq> None
   \<and> map_of (ctl_slot_key two_bus_helper) 1 \<noteq> None
   \<and> distinct (batch_slots [(lun_6a, ''ds1'', ''[ds1] vm/vm_RDM6a000123fd.vmdk''),
                             (lun_6b, ''ds1'', ''[ds1] vm/vm_RDM6b000123fd.vmdk'')]
                  two_bus_helper)"
  using create_rdm_takes_first_free_slot
          [of lun_6a "''ds1''" "''[ds1] vm/vm_RDM6a000123fd.vmdk''" two_bus_helper
              "two_bus_helper\<lparr> disk_units := [(0, {2, 7, 0, 1}), (1, {7})],
                          deviceChange :=
                            [AddDisk (- 102) 1000 2 (uuid lun_6a) (deviceName lun_6a) ''ds1''
                               ''[ds1] vm/vm_RDM6a000123fd.vmdk''],
                          change_detected := True \<rparr>"
              "[(lun_6a, ''ds1'', ''[ds1] vm/vm_RDM6a000123fd.vmdk''),
                (lun_6b, ''ds1'', ''[ds1] vm/vm_RDM6b000123fd.vmdk'')]"]
  by (simp add: two_bus_helper_def create_rdm_def create_rdm_disk_def upto_small
      exhausted_def is_occupied_def)

text \<open>
  C4, as the code has it: when every unit number \<open>0..ctl_max\<close> of every allowed bus is
  occupied, \<open>create_rdm\<close> raises nothing. It returns with the helper as it was: no unit
  reserved, no attach specification appended, \<open>change_detected\<close> untouched. The disk is
  skipped; the only check against too many disks is the one in \<open>get_rdm_info\<close>.
\<close>

theorem create_rdm_exhausted_is_silent:
  "exhausted self \<Longrightarrow> create_rdm lun vm_ds rdm_file self = Inr self"
  by (rule create_rdm_exhausted)

theorem create_rdm_exhausted_is_silent_witness:
  "exhausted full_helper \<and>
   create_rdm lun_6a ''ds1'' ''[ds1] vm/vm_RDM6a000123fd.vmdk'' full_helper = Inr full_helper"
  using create_rdm_exhausted_is_silent [OF exhausted_full_helper] exhausted_full_helper
  by simp

text \<open>
  C4 as claimed fails: on bus 0 with units 0..15 all taken, the allocator called for
  \<open>lun_6a\<close> signals no error of any kind.
\<close>

theorem no_free_slot_not_signalled:
  "exhausted full_helper \<and>
   \<not> (\<exists>e. create_rdm lun_6a ''ds1'' ''[ds1] vm/vm_RDM6a000123fd.vmdk'' full_helper = Inl e)"
  by (simp add: exhausted_full_helper create_rdm_exhausted)

subsection \<open>Controller inventory and the controller type check\<close>

lemma vm_get_ctls_frame:
  "deviceChange (vm_get_ctls devs self) = deviceChange self"
  "change_detected (vm_get_ctls devs self) = change_detected self"
  "rdm_state (vm_get_ctls devs self) = rdm_state self"
  "rdm_disks (vm_get_ctls devs self) = rdm_disks self"
  "ctl_list (vm_get_ctls devs self) = ctl_list self"
  "ctl_type (vm_get_ctls devs self) = ctl_type self"
  "ctl_max (vm_get_ctls devs self) = ctl_max self"
  "disk_units (vm_get_ctls devs self) = disk_units self"
  "requested (vm_get_ctls devs self) = requested self"
  by (induction devs self rule: vm_get_ctls.induct) simp_all

lemma vm_get_ctls_units:
  "\<forall>cls' k'. ScsiController cls' k' bus \<in> set devs \<longrightarrow> cls' = cls \<Longrightarrow>
   (\<exists>k. ScsiController cls k bus \<in> set devs)
     \<or> map_of (ctl_units self) bus
        = Some (str_replace (str_lower (type_name cls)) ''vim.vm.device.'' []) \<Longrightarrow>
   map_of (ctl_units (vm_get_ctls devs self)) bus
     = Some (str_replace (str_lower (type_name cls)) ''vim.vm.device.'' [])"
proof (induction devs arbitrary: self)
  case Nil
  then show ?case by simp
next
  case (Cons dev devs)
  define name where "name = (\<lambda>c. str_replace (str_lower (type_name c)) ''vim.vm.device.'' [])"
  have all: "\<forall>cls' k'. ScsiController cls' k' bus \<in> set devs \<longrightarrow> cls' = cls"
    using Cons.prems(1) by simp
  show ?case
  proof (cases dev)
    case (ScsiController cls' k' bus')
    let ?self' = "self\<lparr> ctl_slot_key := AList.update bus' k' (ctl_slot_key self),
                        ctl_key_slot := AList.update k' bus' (ctl_key_slot self),
                        ctl_units := AList.update bus' (name cls') (ctl_units self) \<rparr>"
    have step: "vm_get_ctls (dev # devs) self = vm_get_ctls devs ?self'"
      unfolding ScsiController name_def by simp
    have "(\<exists>k. ScsiController cls k bus \<in> set devs)
          \<or> map_of (ctl_units ?self') bus = Some (name cls)"
    proof (cases "bus' = bus")
      case True
      then have "cls' = cls" using Cons.prems(1) ScsiController by simp
      then show ?thesis using True by (simp add: update_conv')
    next
      case False
      from Cons.prems(2) have "(\<exists>k. ScsiController cls k bus \<in> set devs)
          \<or> map_of (ctl_units self) bus = Some (name cls)"
        unfolding name_def using False ScsiController by auto
      then show ?thesis using False by (auto simp: update_conv')
    qed
    then have "map_of (ctl_units (vm_get_ctls devs ?self')) bus = Some (name cls)"
      unfolding name_def by (rule Cons.IH [OF all])
    then show ?thesis unfolding step name_def .
  next
    case (RdmDisk d)
    have "(\<exists>k. ScsiController cls k bus \<in> set devs)
          \<or> map_of (ctl_units self) bus
             = Some (str_replace (str_lower (type_name cls)) ''vim.vm.device.'' [])"
      using Cons.prems(2) RdmDisk by auto
    from Cons.IH [OF all this] show ?thesis using RdmDisk by simp
  next
    case OtherDevice
    have "(\<exists>k. ScsiController cls k bus \<in> set devs)
          \<or> map_of (ctl_units self) bus
             = Some (str_replace (str_lower (type_name cls)) ''vim.vm.device.'' [])"
      using Cons.prems(2) OtherDevice by auto
    from Cons.IH [OF all this] show ?thesis using OtherDevice by simp
  qed
qed

lemma check_types_loop_mismatch:
  "(bus, bus_type) \<in> set items \<Longrightarrow> bus \<in> set allowed \<Longrightarrow> str_find bus_type search = - 1
   \<Longrightarrow> check_types_loop items allowed search = Inl ControllerTypeMismatch"
  by (induction items allowed search rule: check_types_loop.induct) auto

lemma check_types_loop_ok_iff:
  "check_types_loop items allowed search = Inr () \<longleftrightarrow>
   (\<forall>(bus, bus_type) \<in> set items. bus \<in> set allowed \<longrightarrow> str_find bus_type search \<noteq> - 1)"
  by (induction items allowed search rule: check_types_loop.induct) auto

lemma requested_class_cases:
  "requested_class ty = Some want \<Longrightarrow>
     (ty = ''lsilogic'' \<and> want = VirtualLsiLogicController)
   \<or> (ty = ''paravirtual'' \<and> want = ParaVirtualSCSIController)
   \<or> (ty = ''buslogic'' \<and> want = VirtualBusLogicController)
   \<or> (ty = ''lsilogicsas'' \<and> want = VirtualLsiLogicSASController)"
  by (auto simp: requested_class_def create_scsi_controller_bus_def split: if_splits)

lemma type_test:
  assumes "requested_class ty = Some want"
  shows "str_find (str_replace (str_lower (type_name cls)) ''vim.vm.device.'' []) ty = - 1
         \<longleftrightarrow> cls \<noteq> want \<and> \<not> (cls = VirtualLsiLogicSASController \<and> want = VirtualLsiLogicController)"
  using requested_class_cases [OF assms]
  apply (elim disjE conjE)
     apply (cases cls; simp add: short_name_literals find_table)
    apply (cases cls; simp add: short_name_literals find_table)
   apply (cases cls; simp add: short_name_literals find_table)
  apply (cases cls; simp add: short_name_literals find_table)
  done

text \<open>
  C2, as the code has it. With \<open>state: present\<close>, an existing controller on an allowed
  bus whose class differs from the class requested by \<open>rdm_controller_type\<close> makes the
  run stop with the controller type error before anything is submitted: no change list
  is sent and the machine is as it was. The statement leaves aside an LSI Logic SAS
  controller met by a request for \<open>lsilogic\<close>. (The fourth hypothesis says the bus number
  identifies the controller: every controller of the machine on that bus has class
  \<open>cls\<close>.)
\<close>

theorem wrong_type_rejected_when_present:
  assumes "state p = ''present''"
      and "requested_class (rdm_controller_type p) = Some want"
      and "ScsiController cls k bus \<in> set (device vm_obj)"
      and "\<forall>cls' k'. ScsiController cls' k' bus \<in> set (device vm_obj) \<longrightarrow> cls' = cls"
      and "bus \<in> set (rdm_controller_bus p)"
      and "cls \<noteq> want"
      and "\<not> (cls = VirtualLsiLogicSASController \<and> want = VirtualLsiLogicController)"
  shows "run task p vm_obj =
           \<lparr>returned = Inl ControllerTypeMismatch, vm_after = vm_obj, submitted = []\<rparr>"
proof -
  let ?self1 = "vm_get_ctls (device vm_obj) (check_maximums (vm_version vm_obj) (init p))"
  let ?name = "str_replace (str_lower (type_name cls)) ''vim.vm.device.'' []"
  have fr: "rdm_state ?self1 = ''present''" "ctl_list ?self1 = rdm_controller_bus p"
    "ctl_type ?self1 = rdm_controller_type p"
    using assms(1) by (simp_all add: vm_get_ctls_frame check_maximums_def init_def)
  have "map_of (ctl_units ?self1) bus = Some ?name"
    using assms(3,4) by (intro vm_get_ctls_units) auto
  then have mem: "(bus, ?name) \<in> set (ctl_units ?self1)" by (rule map_of_SomeD)
  have miss: "str_find ?name (rdm_controller_type p) = - 1"
    using type_test [OF assms(2), of cls] assms(6,7) by simp
  have "check_types_loop (ctl_units ?self1) (rdm_controller_bus p)
                     (rdm_controller_type p) = Inl ControllerTypeMismatch"
    by (rule check_types_loop_mismatch [OF mem assms(5) miss])
  then show ?thesis using fr by (simp add: run_def reconfigure_vm_def ctl_check_types_def Let_def)
qed

theorem wrong_type_rejected_when_present_witness:
  "run obedient_server present_bus0 lsi_vm =
     \<lparr>returned = Inl ControllerTypeMismatch, vm_after = lsi_vm, submitted = []\<rparr>"
proof -
  have 1: "state present_bus0 = ''present''" by (simp add: present_bus0_def)
  have 2: "requested_class (rdm_controller_type present_bus0) = Some ParaVirtualSCSIController"
    by (simp add: present_bus0_def requested_class_def create_scsi_controller_bus_def)
  have 3: "ScsiController VirtualLsiLogicController 1000 0 \<in> set (device lsi_vm)"
    by (simp add: lsi_vm_def)
  have 4: "\<forall>cls' k'. ScsiController cls' k' 0 \<in> set (device lsi_vm)
             \<longrightarrow> cls' = VirtualLsiLogicController"
    by (simp add: lsi_vm_def)
  have 5: "0 \<in> set (rdm_controller_bus present_bus0)" by (simp add: present_bus0_def)
  show ?thesis
    by (rule wrong_type_rejected_when_present [OF 1 2 3 4 5]) simp_all
qed

text \<open>
  C2 as claimed fails for \<open>state: absent\<close>: with an LSI Logic controller on the allowed
  bus 0 and type paravirtual requested, the run ends normally, without the controller
  type error.
\<close>

theorem wrong_type_not_rejected_when_absent:
  "state absent_nothing = ''absent'' \<and>
   ScsiController VirtualLsiLogicController 1000 0 \<in> set (device lsi_vm) \<and>
   0 \<in> set (rdm_controller_bus absent_nothing) \<and>
   requested_class (rdm_controller_type absent_nothing) = Some ParaVirtualSCSIController \<and>
   run obedient_server absent_nothing lsi_vm =
     \<lparr>returned = Inr \<lparr>changed = False, failed = False, msg = None\<rparr>,
      vm_after = lsi_vm, submitted = []\<rparr>"
  by (simp add: run_defs absent_nothing_def lsi_vm_def requested_class_def lun_6a_def short_name_literals)

text \<open>
  The type test is \<open>str.find(bus_type, search) == -1\<close> on the lower-cased class name,
  and \<open>lsilogic\<close> occurs in \<open>virtuallsilogicsascontroller\<close>: an LSI Logic SAS controller
  passes the check when \<open>lsilogic\<close> is requested.
\<close>

lemma lsilogicsas_passes_for_lsilogic:
  "returned (run obedient_server
      \<lparr>state = ''present'', rdm_controller_type = ''lsilogic'', rdm_controller_bus = [0], rdm_disk = []\<rparr>
      (lsi_vm\<lparr>device := [ScsiController VirtualLsiLogicSASController 1000 0]\<rparr>))
   = Inr \<lparr>changed = False, failed = False, msg = None\<rparr>"
  by (simp add: run_defs lsi_vm_def str_find_def short_name_literals lun_6a_def)

subsection \<open>What the inventory knows after \<open>vm_get_ctls\<close>\<close>

lemma set_update_subset: "(a, b) \<in> set (AList.update k v al) \<Longrightarrow> (a, b) = (k, v) \<or> (a, b) \<in> set al"
  by (induction al) (auto split: if_splits)

lemma vm_get_ctls_keys_mono:
  "map_of (ctl_key_slot self) k \<noteq> None
   \<Longrightarrow> map_of (ctl_key_slot (vm_get_ctls devs self)) k \<noteq> None"
  by (induction devs self rule: vm_get_ctls.induct) (simp_all add: update_conv')

lemma vm_get_ctls_keys:
  "ScsiController cls k bus \<in> set devs
   \<Longrightarrow> map_of (ctl_key_slot (vm_get_ctls devs self)) k \<noteq> None"
proof (induction devs self rule: vm_get_ctls.induct)
  case (1 self)
  then show ?case by simp
next
  case (2 cls' k' bus' devs self)
  show ?case
  proof (cases "k' = k")
    case True
    show ?thesis unfolding vm_get_ctls.simps
      by (rule vm_get_ctls_keys_mono) (simp add: True update_conv')
  next
    case False
    with "2.prems" have "ScsiController cls k bus \<in> set devs" by auto
    then show ?thesis unfolding vm_get_ctls.simps by (rule "2.IH")
  qed
qed simp_all

lemma vm_get_ctls_buses_mono:
  "bus \<in> fst ` set (ctl_units self) \<Longrightarrow> bus \<in> fst ` set (ctl_units (vm_get_ctls devs self))"
  by (induction devs self rule: vm_get_ctls.induct) (simp_all add: dom_update)

lemma vm_get_ctls_buses:
  "ScsiController cls k bus \<in> set devs \<Longrightarrow> bus \<in> fst ` set (ctl_units (vm_get_ctls devs self))"
proof (induction devs self rule: vm_get_ctls.induct)
  case (1 self)
  then show ?case by simp
next
  case (2 cls' k' bus' devs self)
  show ?case
  proof (cases "bus' = bus")
    case True
    show ?thesis unfolding vm_get_ctls.simps
      by (rule vm_get_ctls_buses_mono) (simp add: True dom_update)
  next
    case False
    with "2.prems" have "ScsiController cls k bus \<in> set devs" by auto
    then show ?thesis unfolding vm_get_ctls.simps by (rule "2.IH")
  qed
qed simp_all

lemma vm_get_ctls_inv:
  "\<forall>k b. map_of (ctl_key_slot self) k = Some b \<longrightarrow> b \<in> fst ` set (ctl_units self)
   \<Longrightarrow> \<forall>k b. map_of (ctl_key_slot (vm_get_ctls devs self)) k = Some b
         \<longrightarrow> b \<in> fst ` set (ctl_units (vm_get_ctls devs self))"
proof (induction devs self rule: vm_get_ctls.induct)
  case (1 self)
  then show ?case by simp
next
  case (2 cls' k' bus' devs self)
  show ?case unfolding vm_get_ctls.simps
  proof (rule "2.IH")
    show "\<forall>k b. map_of (ctl_key_slot (self\<lparr>ctl_slot_key := AList.update bus' k' (ctl_slot_key self),
                   ctl_key_slot := AList.update k' bus' (ctl_key_slot self),
                   ctl_units := AList.update bus'
                      (str_replace (str_lower (type_name cls')) ''vim.vm.device.'' [])
                      (ctl_units self)\<rparr>)) k = Some b
           \<longrightarrow> b \<in> fst ` set (ctl_units (self\<lparr>ctl_slot_key := AList.update bus' k' (ctl_slot_key self),
                   ctl_key_slot := AList.update k' bus' (ctl_key_slot self),
                   ctl_units := AList.update bus'
                      (str_replace (str_lower (type_name cls')) ''vim.vm.device.'' [])
                      (ctl_units self)\<rparr>))"
      using "2.prems" by (simp add: update_conv' dom_update)
  qed
qed simp_all

lemma vm_get_ctls_entries:
  "(bus, ty) \<in> set (ctl_units (vm_get_ctls devs self)) \<Longrightarrow>
   (bus, ty) \<in> set (ctl_units self)
   \<or> (\<exists>cls k. ScsiController cls k bus \<in> set devs
        \<and> ty = str_replace (str_lower (type_name cls)) ''vim.vm.device.'' [])"
proof (induction devs self rule: vm_get_ctls.induct)
  case (1 self)
  then show ?case by simp
next
  case (2 cls' k' bus' devs self)
  let ?self' = "self\<lparr>ctl_slot_key := AList.update bus' k' (ctl_slot_key self),
                   ctl_key_slot := AList.update k' bus' (ctl_key_slot self),
                   ctl_units := AList.update bus'
                      (str_replace (str_lower (type_name cls')) ''vim.vm.device.'' [])
                      (ctl_units self)\<rparr>"
  from "2.prems" have "(bus, ty) \<in> set (ctl_units (vm_get_ctls devs ?self'))" by simp
  from "2.IH" [OF this] consider
      (old) "(bus, ty) \<in> set (ctl_units ?self')"
    | (new) "\<exists>cls k. ScsiController cls k bus \<in> set devs
        \<and> ty = str_replace (str_lower (type_name cls)) ''vim.vm.device.'' []"
    by fast
  then show ?case
  proof cases
    case old
    then have "(bus, ty) \<in> set (AList.update bus'
                      (str_replace (str_lower (type_name cls')) ''vim.vm.device.'' [])
                      (ctl_units self))" by simp
    from set_update_subset [OF this] show ?thesis by fastforce
  next
    case new
    then obtain cls k where "ScsiController cls k bus \<in> set devs"
      "ty = str_replace (str_lower (type_name cls)) ''vim.vm.device.'' []" by fast
    then show ?thesis by (intro disjI2 exI [of _ cls] exI [of _ k]) simp
  qed
qed simp_all

lemma rdm_devices_set: "disk \<in> set (rdm_devices devs) \<longleftrightarrow> RdmDisk disk \<in> set devs"
  by (induction devs) (auto simp: rdm_devices_def split: device.splits)

lemma controller_keys_set:
  "k \<in> set (controller_keys devs) \<longleftrightarrow> (\<exists>cls bus. ScsiController cls k bus \<in> set devs)"
  by (induction devs) (auto simp: controller_keys_def split: device.splits)

lemma disks_on_scsi_iff:
  "disks_on_scsi devs \<longleftrightarrow>
   (\<forall>disk. RdmDisk disk \<in> set devs
      \<longrightarrow> (\<exists>cls bus. ScsiController cls (controllerKey disk) bus \<in> set devs))"
  by (auto simp: disks_on_scsi_def list_all_iff rdm_devices_set controller_keys_set)

lemma vm_get_ctls_known:
  assumes "disks_on_scsi devs"
      and "\<forall>k b. map_of (ctl_key_slot self) k = Some b \<longrightarrow> b \<in> fst ` set (ctl_units self)"
  shows "on_known_controllers ((vm_get_ctls devs self)\<lparr>deviceChange := dc, rdm_disks := rd\<rparr>)
           (rdm_devices devs)"
proof -
  have known: "\<exists>b. map_of (ctl_key_slot (vm_get_ctls devs self)) (controllerKey disk) = Some b
           \<and> b \<in> fst ` set (ctl_units (vm_get_ctls devs self))"
    if "disk \<in> set (rdm_devices devs)" for disk
  proof -
    from that assms(1) obtain cls bus where
      "ScsiController cls (controllerKey disk) bus \<in> set devs"
      by (auto simp: disks_on_scsi_iff rdm_devices_set)
    from vm_get_ctls_keys [OF this, of self] obtain b where
      b: "map_of (ctl_key_slot (vm_get_ctls devs self)) (controllerKey disk) = Some b" by auto
    with vm_get_ctls_inv [OF assms(2), of devs] show ?thesis by auto
  qed
  show ?thesis unfolding on_known_controllers_def list_all_iff
  proof
    fix disk assume "disk \<in> set (rdm_devices devs)"
    from known [OF this] obtain b where
      "map_of (ctl_key_slot (vm_get_ctls devs self)) (controllerKey disk) = Some b"
      "b \<in> fst ` set (ctl_units (vm_get_ctls devs self))" by blast
    then show "case map_of (ctl_key_slot ((vm_get_ctls devs self)\<lparr>deviceChange := dc, rdm_disks := rd\<rparr>))
                      (controllerKey disk) of
                 None \<Rightarrow> False
               | Some ctl_n \<Rightarrow>
                   ctl_n \<in> fst ` set (ctl_units ((vm_get_ctls devs self)\<lparr>deviceChange := dc, rdm_disks := rd\<rparr>))"
      by simp
  qed
qed

subsection \<open>The capacity check of \<open>get_rdm_info\<close>\<close>

lemma fold_update_lookup:
  "map_of (fold (\<lambda>c. AList.update c v) cs al) c = (if c \<in> set cs then Some v else map_of al c)"
  by (induction cs arbitrary: al) (auto simp: update_conv')

lemma scan_rdms_count:
  "scan_rdms rdms req ks units n = Inr (units', n') \<Longrightarrow> n' = n + matched_disks rdms req"
proof (induction rdms arbitrary: units n)
  case Nil
  then show ?case by (simp add: matched_disks_def)
next
  case (Cons disk rdms)
  from Cons.prems obtain ctl_n occupied where
    k: "map_of ks (controllerKey disk) = Some ctl_n" and u: "map_of units ctl_n = Some occupied"
    by (auto split: option.splits)
  with Cons.prems have
    "scan_rdms rdms req ks (AList.update ctl_n (insert (unitNumber disk) occupied) units)
       (if wwid_matches disk req then n + 1 else n) = Inr (units', n')" by simp
  from Cons.IH [OF this] show ?case by (simp add: matched_disks_def)
qed

lemma scan_rdms_error:
  "scan_rdms rdms req ks units n = Inl e \<Longrightarrow> e = KeyError"
  by (induction rdms arbitrary: units n) (auto split: option.splits)

lemma scan_rdms_total:
  "list_all (\<lambda>disk. case map_of ks (controllerKey disk) of
                      None \<Rightarrow> False | Some ctl_n \<Rightarrow> map_of units ctl_n \<noteq> None) rdms
   \<Longrightarrow> \<exists>units'. scan_rdms rdms req ks units n = Inr (units', n + matched_disks rdms req)"
proof (induction rdms arbitrary: units n)
  case Nil
  then show ?case by (simp add: matched_disks_def)
next
  case (Cons disk rdms)
  from Cons.prems obtain ctl_n occupied where
    k: "map_of ks (controllerKey disk) = Some ctl_n" and u: "map_of units ctl_n = Some occupied"
    by (auto split: option.splits)
  let ?units = "AList.update ctl_n (insert (unitNumber disk) occupied) units"
  have "list_all (\<lambda>disk. case map_of ks (controllerKey disk) of
                      None \<Rightarrow> False | Some ctl_n \<Rightarrow> map_of ?units ctl_n \<noteq> None) rdms"
    using Cons.prems by (auto simp: list_all_iff update_conv' split: option.splits)
  from Cons.IH [OF this]
  obtain units' where
    "scan_rdms rdms req ks ?units
       (if wwid_matches disk req then n + 1 else n)
     = Inr (units', (if wwid_matches disk req then n + 1 else n) + matched_disks rdms req)"
    by blast
  then show ?case using k u by (auto simp: matched_disks_def)
qed

lemma get_rdm_info_scan:
  assumes "on_known_controllers self rdms"
  shows "\<exists>units. scan_rdms rdms (requested self) (ctl_key_slot self)
            (fold (\<lambda>c. AList.update c {7}) (map fst (ctl_units self)) (disk_units self)) 0
         = Inr (units, matched_disks rdms (requested self))"
proof -
  have "list_all (\<lambda>disk. case map_of (ctl_key_slot self) (controllerKey disk) of
            None \<Rightarrow> False
          | Some ctl_n \<Rightarrow>
              map_of (fold (\<lambda>c. AList.update c {7}) (map fst (ctl_units self)) (disk_units self))
                ctl_n \<noteq> None) rdms"
    using assms
    by (auto simp: on_known_controllers_def list_all_iff fold_update_lookup split: option.splits)
  from scan_rdms_total [OF this, of "requested self" 0] show ?thesis by simp
qed

lemma get_rdm_info_known:
  assumes "on_known_controllers self rdms"
  shows "(rdm_state self = ''present'' \<and> all_disk self rdms > free_bays self
            \<longrightarrow> get_rdm_info rdms self
                = Inl (InsufficientCapacity (all_disk self rdms) (free_bays self)))
       \<and> (\<not> (rdm_state self = ''present'' \<and> all_disk self rdms > free_bays self)
            \<longrightarrow> (\<exists>self'. get_rdm_info rdms self = Inr self'))"
proof -
  from get_rdm_info_scan [OF assms] obtain units where
    "scan_rdms rdms (requested self) (ctl_key_slot self)
            (fold (\<lambda>c. AList.update c {7}) (map fst (ctl_units self)) (disk_units self)) 0
         = Inr (units, matched_disks rdms (requested self))" by blast
  then show ?thesis
    by (simp add: get_rdm_info_def Let_def all_disk_def free_bays_def)
qed

lemma get_rdm_info_absent:
  assumes "rdm_state self = ''absent''"
  shows "get_rdm_info rdms self \<noteq> Inl (InsufficientCapacity a b)"
  using assms
  by (auto simp: get_rdm_info_def Let_def split: sum.splits prod.splits
      dest: scan_rdms_error)

lemma add_disks_capacity_failure:
  assumes "get_rdm_info (rdm_devices (device vm_obj))
             (self\<lparr>deviceChange := [], rdm_disks := rdm_devices (device vm_obj)\<rparr>) = Inl e"
  shows "add_disks task vm_obj sent applied self
         = \<lparr>returned = Inl e, vm_after = vm_obj, submitted = sent\<rparr>"
  using assms by (simp add: add_disks_def Let_def)

lemma check_maximums_init:
  "ctl_max (check_maximums version (init p))
   = (if rdm_controller_type p = ''paravirtual'' \<and> version \<ge> 14 then 64 else 15)"
  by (simp add: check_maximums_def init_def)

lemma all_disk_explicit:
  "all_disk self rdms
   = int (length rdms)
     + (int (length (requested self))
        - int (length (filter (\<lambda>disk. \<exists>wwid\<in>set (requested self).
                                 sublist (str_lower wwid) (str_lower (lunUuid disk))) rdms)))"
  by (simp add: all_disk_def matched_disks_def wwid_matches_sublist)

text \<open>
  C3, as the code has it. The capacity of a controller is 15, and 64 exactly when the type
  is paravirtual and the hardware version is at least 14. The check compares \<open>all_disk\<close>
  with \<open>free_bays\<close>: \<open>all_disk\<close> is the number of existing RDM disks plus the number of
  requested WWIDs minus the number of existing RDM disks whose lower-cased \<open>lunUuid\<close>
  contains the lower-cased text of some requested WWID, and \<open>free_bays\<close> is the capacity
  times the number of allowed buses. Provided every RDM disk hangs off a controller of
  the inventory: for \<open>state: present\<close>, \<open>get_rdm_info\<close> stops with the capacity error
  when \<open>all_disk\<close> exceeds \<open>free_bays\<close> and returns when it does not, the boundary
  \<open>all_disk = free_bays\<close> included; when it stops, the disk pass ends with that error,
  the machine untouched and nothing further submitted. For \<open>state: absent\<close> the capacity
  error never occurs.
\<close>

theorem capacity_rule:
  "ctl_max (check_maximums version (init p))
     = (if rdm_controller_type p = ''paravirtual'' \<and> version \<ge> 14 then 64 else 15)
   \<and> all_disk self rdms
       = int (length rdms)
         + (int (length (requested self))
            - int (length (filter (\<lambda>disk. \<exists>wwid\<in>set (requested self).
                                     sublist (str_lower wwid) (str_lower (lunUuid disk))) rdms)))
   \<and> free_bays self = ctl_max self * int (length (ctl_list self))
   \<and> (on_known_controllers self rdms \<and> rdm_state self = ''present''
        \<and> all_disk self rdms > free_bays self
        \<longrightarrow> get_rdm_info rdms self
            = Inl (InsufficientCapacity (all_disk self rdms) (free_bays self)))
   \<and> (on_known_controllers self rdms \<and> rdm_state self = ''present''
        \<and> all_disk self rdms \<le> free_bays self
        \<longrightarrow> (\<exists>self'. get_rdm_info rdms self = Inr self'))
   \<and> (get_rdm_info (rdm_devices (device vm_obj))
          (self\<lparr>deviceChange := [], rdm_disks := rdm_devices (device vm_obj)\<rparr>) = Inl e
        \<longrightarrow> add_disks task vm_obj sent applied self
            = \<lparr>returned = Inl e, vm_after = vm_obj, submitted = sent\<rparr>)
   \<and> (rdm_state self = ''absent''
        \<longrightarrow> (\<forall>a b. get_rdm_info rdms self \<noteq> Inl (InsufficientCapacity a b))
          \<and> (on_known_controllers self rdms \<longrightarrow> (\<exists>self'. get_rdm_info rdms self = Inr self')))"
proof -
  have absent: "\<exists>self'. get_rdm_info rdms self = Inr self'"
    if "rdm_state self = ''absent''" "on_known_controllers self rdms"
  proof -
    have "\<not> (rdm_state self = ''present'' \<and> all_disk self rdms > free_bays self)"
      using that(1) by simp
    then show ?thesis using get_rdm_info_known [OF that(2)] by simp
  qed
  have present_ok: "\<exists>self'. get_rdm_info rdms self = Inr self'"
    if "on_known_controllers self rdms" "all_disk self rdms \<le> free_bays self"
  proof -
    have "\<not> (rdm_state self = ''present'' \<and> all_disk self rdms > free_bays self)"
      using that(2) by simp
    then show ?thesis using get_rdm_info_known [OF that(1)] by simp
  qed
  have fb: "free_bays self = ctl_max self * int (length (ctl_list self))"
    by (simp add: free_bays_def)
  have rest: "(on_known_controllers self rdms \<and> rdm_state self = ''present''
        \<and> all_disk self rdms > free_bays self
        \<longrightarrow> get_rdm_info rdms self
            = Inl (InsufficientCapacity (all_disk self rdms) (free_bays self)))
   \<and> (on_known_controllers self rdms \<and> rdm_state self = ''present''
        \<and> all_disk self rdms \<le> free_bays self
        \<longrightarrow> (\<exists>self'. get_rdm_info rdms self = Inr self'))
   \<and> (get_rdm_info (rdm_devices (device vm_obj))
          (self\<lparr>deviceChange := [], rdm_disks := rdm_devices (device vm_obj)\<rparr>) = Inl e
        \<longrightarrow> add_disks task vm_obj sent applied self
            = \<lparr>returned = Inl e, vm_after = vm_obj, submitted = sent\<rparr>)
   \<and> (rdm_state self = ''absent''
        \<longrightarrow> (\<forall>a b. get_rdm_info rdms self \<noteq> Inl (InsufficientCapacity a b))
          \<and> (on_known_controllers self rdms \<longrightarrow> (\<exists>self'. get_rdm_info rdms self = Inr self')))"
    using get_rdm_info_known [of self rdms]
      add_disks_capacity_failure [of vm_obj self e task sent applied]
      get_rdm_info_absent [of self rdms] absent present_ok
    by (intro conjI impI allI) simp_all
  show ?thesis
    by (intro conjI check_maximums_init all_disk_explicit fb rest [THEN conjunct1]
        rest [THEN conjunct2, THEN conjunct1]
        rest [THEN conjunct2, THEN conjunct2, THEN conjunct1]
        rest [THEN conjunct2, THEN conjunct2, THEN conjunct2])
qed

lemma fourteen_known: "on_known_controllers (one_bus_helper wwids) fourteen_disks"
  by (simp add: on_known_controllers_def one_bus_helper_def fourteen_disks_def)

lemma fifteen_known: "on_known_controllers (one_bus_helper wwids) fifteen_disks"
  by (simp add: on_known_controllers_def one_bus_helper_def fifteen_disks_def fourteen_disks_def)

lemma fourteen_unmatched:
  "disk \<in> set fourteen_disks \<Longrightarrow> lunUuid disk = ''0200''"
  by (auto simp: fourteen_disks_def)

lemma no_match_0200:
  "\<not> wwid_matches \<lparr>key = k, controllerKey = ck, unitNumber = u, lunUuid = ''0200''\<rparr>
       [''60002AC0000000000000006A'', ''60002AC0000000000000006A000123FD'']"
  "\<not> wwid_matches \<lparr>key = k, controllerKey = ck, unitNumber = u, lunUuid = ''0200''\<rparr>
       [''60002AC0000000000000006A000123FD'']"
  "\<not> wwid_matches \<lparr>key = k, controllerKey = ck, unitNumber = u, lunUuid = ''0200''\<rparr>
       [''6a'', ''6b'']"
  "\<not> wwid_matches \<lparr>key = k, controllerKey = ck, unitNumber = u, lunUuid = ''0200''\<rparr> [''6a'']"
  by (simp_all add: wwid_matches_def lower_literals lower_short str_find_def str_lower_def
      lower_char_def)

lemma match_6a_uuid:
  "wwid_matches \<lparr>key = k, controllerKey = ck, unitNumber = u,
       lunUuid = ''020000000060002ac0000000000000006a000123fd565620''\<rparr>
     [''60002AC0000000000000006A'', ''60002AC0000000000000006A000123FD'']"
  "wwid_matches \<lparr>key = k, controllerKey = ck, unitNumber = u,
       lunUuid = ''020000000060002ac0000000000000006a000123fd565620''\<rparr>
     [''60002AC0000000000000006A000123FD'']"
  "wwid_matches \<lparr>key = k, controllerKey = ck, unitNumber = u,
       lunUuid = ''020000000060002ac0000000000000006a000123fd565620''\<rparr>
     [''60002AC0000000000000006A'']"
  by (simp_all add: wwid_matches_def lower_literals lower_short str_find_def)

lemma fourteen_matched: "matched_disks fourteen_disks [''6a'', ''6b''] = 0"
  "matched_disks fourteen_disks [''6a''] = 0"
  by (simp_all add: matched_disks_def fourteen_disks_def no_match_0200)

lemma fifteen_matched:
  "matched_disks fifteen_disks
     [''60002AC0000000000000006A'', ''60002AC0000000000000006A000123FD''] = 1"
  "matched_disks fifteen_disks [''60002AC0000000000000006A000123FD''] = 1"
  by (simp_all add: matched_disks_def fifteen_disks_def fourteen_disks_def no_match_0200
      match_6a_uuid)

lemma fifteen_length: "length fifteen_disks = 15" "length fourteen_disks = 14"
  by (simp_all add: fifteen_disks_def fourteen_disks_def)

theorem capacity_rule_witness:
  "on_known_controllers (one_bus_helper [''6a'', ''6b'']) fourteen_disks
   \<and> rdm_state (one_bus_helper [''6a'', ''6b'']) = ''present''
   \<and> all_disk (one_bus_helper [''6a'', ''6b'']) fourteen_disks = 16
   \<and> free_bays (one_bus_helper [''6a'', ''6b'']) = 15
   \<and> get_rdm_info fourteen_disks (one_bus_helper [''6a'', ''6b''])
       = Inl (InsufficientCapacity 16 15)
   \<and> on_known_controllers (one_bus_helper [''60002AC0000000000000006A000123FD''])
        fifteen_disks
   \<and> all_disk (one_bus_helper [''60002AC0000000000000006A000123FD'']) fifteen_disks = 15
   \<and> (\<exists>self'. get_rdm_info fifteen_disks
                 (one_bus_helper [''60002AC0000000000000006A000123FD'']) = Inr self')
   \<and> (\<exists>self'. get_rdm_info fourteen_disks
                 ((one_bus_helper [''6a'', ''6b''])\<lparr>rdm_state := ''absent''\<rparr>) = Inr self')"
proof -
  have a2: "all_disk (one_bus_helper [''6a'', ''6b'']) fourteen_disks = 16"
    by (simp add: all_disk_def one_bus_helper_def fourteen_matched fifteen_length)
  have a1: "all_disk (one_bus_helper [''60002AC0000000000000006A000123FD'']) fifteen_disks = 15"
    by (simp add: all_disk_def one_bus_helper_def fifteen_matched fifteen_length)
  have f: "free_bays (one_bus_helper wwids) = 15" for wwids
    by (simp add: free_bays_def one_bus_helper_def)
  have p: "rdm_state (one_bus_helper wwids) = ''present''" for wwids
    by (simp add: one_bus_helper_def)
  have k: "on_known_controllers ((one_bus_helper wwids)\<lparr>rdm_state := ''absent''\<rparr>) fourteen_disks"
    for wwids
    by (simp add: on_known_controllers_def one_bus_helper_def fourteen_disks_def)
  show ?thesis
    using capacity_rule [where self = "one_bus_helper [''6a'', ''6b'']" and rdms = fourteen_disks]
      capacity_rule [where self = "one_bus_helper [''60002AC0000000000000006A000123FD'']"
                       and rdms = fifteen_disks]
      capacity_rule [where self = "(one_bus_helper [''6a'', ''6b''])\<lparr>rdm_state := ''absent''\<rparr>"
                       and rdms = fourteen_disks]
      fourteen_known fifteen_known a1 a2 f p k
    by simp
qed

text \<open>
  C3 as claimed fails at the boundary. Fifteen RDM disks sit on the single allowed bus
  (capacity 15) and the two requested WWIDs are both satisfied by the disk of \<open>lun_6a\<close>,
  so the existing disks plus the requested-but-unsatisfied WWIDs are exactly 15, the
  product. The check subtracts the one matched disk from the two requests and stops
  with the capacity error for 16 against 15.
\<close>

theorem capacity_boundary_counts_disks_not_wwids:
  "rdm_state (one_bus_helper [''60002AC0000000000000006A'', ''60002AC0000000000000006A000123FD''])
     = ''present''
   \<and> on_known_controllers
        (one_bus_helper [''60002AC0000000000000006A'', ''60002AC0000000000000006A000123FD''])
        fifteen_disks
   \<and> int (length fifteen_disks)
       + int (length (unsatisfied_wwids fifteen_disks
            [''60002AC0000000000000006A'', ''60002AC0000000000000006A000123FD''])) = 15
   \<and> ctl_max (one_bus_helper [''60002AC0000000000000006A'', ''60002AC0000000000000006A000123FD''])
       * int (length (ctl_list
            (one_bus_helper [''60002AC0000000000000006A'', ''60002AC0000000000000006A000123FD''])))
       = 15
   \<and> get_rdm_info fifteen_disks
        (one_bus_helper [''60002AC0000000000000006A'', ''60002AC0000000000000006A000123FD''])
       = Inl (InsufficientCapacity 16 15)"
proof -
  let ?h = "one_bus_helper [''60002AC0000000000000006A'', ''60002AC0000000000000006A000123FD'']"
  have p: "rdm_state ?h = ''present''" by (simp add: one_bus_helper_def)
  have u: "unsatisfied_wwids fifteen_disks
            [''60002AC0000000000000006A'', ''60002AC0000000000000006A000123FD''] = []"
    by (simp add: unsatisfied_wwids_def fifteen_disks_def match_6a_uuid)
  have f: "free_bays ?h = 15" by (simp add: free_bays_def one_bus_helper_def)
  have a: "all_disk ?h fifteen_disks = 16"
    by (simp add: all_disk_def one_bus_helper_def fifteen_matched fifteen_length)
  have g: "get_rdm_info fifteen_disks ?h = Inl (InsufficientCapacity 16 15)"
    using get_rdm_info_known [OF fifteen_known, of
        "[''60002AC0000000000000006A'', ''60002AC0000000000000006A000123FD'']"] p a f
    by simp
  from p fifteen_known u f g show ?thesis
    by (simp add: fifteen_length free_bays_def)
qed

subsection \<open>The absent pass\<close>

lemma detach_matching_change:
  "deviceChange (detach_matching rdms lun self)
   = deviceChange self @ map remove_rdm_disk (filter (\<lambda>rdm. lunUuid rdm = uuid lun) rdms)"
  by (induction rdms arbitrary: self) simp_all

lemma detach_matching_detected:
  "change_detected (detach_matching rdms lun self)
   \<longleftrightarrow> change_detected self \<or> filter (\<lambda>rdm. lunUuid rdm = uuid lun) rdms \<noteq> []"
  by (induction rdms arbitrary: self) simp_all

lemma detach_matching_frame:
  "rdm_disks (detach_matching rdms lun self) = rdm_disks self"
  "requested (detach_matching rdms lun self) = requested self"
  "rdm_state (detach_matching rdms lun self) = rdm_state self"
  by (induction rdms arbitrary: self) simp_all

lemma detach_matching_none:
  "\<forall>rdm\<in>set rdms. lunUuid rdm \<noteq> uuid lun \<Longrightarrow> detach_matching rdms lun self = self"
  by (induction rdms arbitrary: self) simp_all

lemma detach_loop_result:
  "detach_loop wwids luns self = Inr self' \<Longrightarrow>
     deviceChange self' = deviceChange self @ detach_specs wwids luns (rdm_disks self)
   \<and> (change_detected self'
        \<longleftrightarrow> change_detected self \<or> detach_specs wwids luns (rdm_disks self) \<noteq> [])
   \<and> rdm_state self' = rdm_state self"
proof (induction wwids arbitrary: self)
  case Nil
  then show ?case by (simp add: detach_specs_def)
next
  case (Cons wwid wwids)
  from Cons.prems obtain lun where lun: "find_lun luns wwid = Some lun"
    by (auto split: option.splits)
  with Cons.prems have
    "detach_loop wwids luns (detach_matching (rdm_disks self) lun self) = Inr self'" by simp
  from Cons.IH [OF this] show ?case
    using lun
    by (simp add: detach_matching_change detach_matching_detected detach_matching_frame
        detach_specs_def)
qed

lemma detach_loop_total:
  "\<forall>wwid\<in>set wwids. find_lun luns wwid \<noteq> None \<Longrightarrow> \<exists>self'. detach_loop wwids luns self = Inr self'"
  by (induction wwids arbitrary: self) (auto split: option.splits)

lemma detach_loop_error:
  "detach_loop wwids luns self = Inl e \<Longrightarrow> \<exists>wwid. e = LunNotPresented wwid"
  by (induction wwids arbitrary: self) (auto split: option.splits)

lemma detach_specs_removes:
  "spec \<in> set (detach_specs wwids luns rdms) \<Longrightarrow> \<exists>k ck u. spec = RemoveDisk k ck u"
  by (auto simp: detach_specs_def remove_rdm_disk_def split: option.splits)

lemma get_rdm_info_frame:
  "get_rdm_info rdms self = Inr self' \<Longrightarrow> \<exists>units. self' = self\<lparr>disk_units := units\<rparr>"
  by (auto simp: get_rdm_info_def Let_def split: sum.splits prod.splits if_splits)

lemma get_rdm_info_error:
  "get_rdm_info rdms self = Inl e \<Longrightarrow> e = KeyError \<or> (\<exists>a b. e = InsufficientCapacity a b)"
  by (auto simp: get_rdm_info_def Let_def split: sum.splits prod.splits if_splits
      dest: scan_rdms_error)

lemma configure_absent:
  assumes "rdm_state self = ''absent''"
  shows "configure_rdm_disks vm_obj self =
           (case get_host_by_vm vm_obj of
              Inl e \<Rightarrow> Inl e
            | Inr vm_host_luns \<Rightarrow>
                (case get_datastore_by_vm vm_obj of
                   Inl e \<Rightarrow> Inl e
                 | Inr vm_ds \<Rightarrow> detach_loop (requested self) vm_host_luns self))"
  using assms by (simp add: configure_rdm_disks_def split: sum.splits)

lemma configure_absent_error:
  assumes "rdm_state self = ''absent''" "configure_rdm_disks vm_obj self = Inl e"
  shows "e \<noteq> ControllerTypeMismatch"
proof -
  have "e = HostPermissionDenied \<or> e = IndexError \<or> e = DatastorePermissionDenied
        \<or> (\<exists>wwid. e = LunNotPresented wwid)"
    using assms(2) unfolding configure_absent [OF assms(1)]
    by (auto simp: get_host_by_vm_def get_datastore_by_vm_def
        split: sum.splits option.splits list.splits dest: detach_loop_error)
  then show ?thesis by auto
qed

lemma configure_absent_result:
  assumes "rdm_state self = ''absent''" "configure_rdm_disks vm_obj self = Inr self'"
  shows "\<exists>luns. deviceChange self' = deviceChange self @ detach_specs (requested self) luns (rdm_disks self)
         \<and> (change_detected self' \<longleftrightarrow>
              change_detected self \<or> detach_specs (requested self) luns (rdm_disks self) \<noteq> [])"
  using assms(2) unfolding configure_absent [OF assms(1)]
  by (auto split: sum.splits dest!: detach_loop_result)


lemma apply_changes_error:
  "apply_changes task vm_obj self = (Inl e, vm') \<Longrightarrow> \<exists>m. e = VersioningRestricted m"
  by (auto simp: apply_changes_def split: prod.splits task_result.splits)

lemma add_disks_absent_shape:
  assumes "rdm_state self = ''absent''"
  shows "(submitted (add_disks task vm_obj sent applied self) = sent
          \<or> (\<exists>luns. submitted (add_disks task vm_obj sent applied self)
                = sent @ [detach_specs (requested self) luns (rdm_devices (device vm_obj))]))
       \<and> returned (add_disks task vm_obj sent applied self) \<noteq> Inl ControllerTypeMismatch"
proof -
  let ?rdms = "rdm_devices (device vm_obj)"
  let ?self1 = "self\<lparr>deviceChange := [], rdm_disks := ?rdms\<rparr>"
  show ?thesis
  proof (cases "get_rdm_info ?rdms ?self1")
    case (Inl e)
    from get_rdm_info_error [OF Inl] have "e \<noteq> ControllerTypeMismatch" by auto
    with Inl show ?thesis by (simp add: add_disks_def Let_def)
  next
    case (Inr self2)
    from get_rdm_info_frame [OF Inr] obtain units where
      self2: "self2 = ?self1\<lparr>disk_units := units\<rparr>" by blast
    have st2: "rdm_state self2 = ''absent''" using assms self2 by simp
    show ?thesis
    proof (cases "configure_rdm_disks vm_obj self2")
      case (Inl e)
      from configure_absent_error [OF st2 Inl] Inl Inr show ?thesis
        by (simp add: add_disks_def Let_def)
    next
      case conf: (Inr self3)
      from configure_absent_result [OF st2 conf] self2 obtain luns where
        dc: "deviceChange self3 = detach_specs (requested self) luns ?rdms" by auto
      show ?thesis
      proof (cases "change_detected self3")
        case False
        with Inr conf show ?thesis by (simp add: add_disks_def Let_def)
      next
        case True
        obtain r vm' where ap: "apply_changes task vm_obj self3 = (r, vm')"
          by (cases "apply_changes task vm_obj self3") auto
        show ?thesis
        proof (cases r)
          case (Inl e)
          from apply_changes_error [of task vm_obj self3 e vm'] ap Inl
          have "e \<noteq> ControllerTypeMismatch" by auto
          with Inr conf True ap Inl dc show ?thesis
            by (auto simp: add_disks_def Let_def)
        next
          case res: (Inr res)
          with Inr conf True ap dc show ?thesis
            by (auto simp: add_disks_def Let_def)
        qed
      qed
    qed
  qed
qed

lemma run_not_present:
  "state p \<noteq> ''present'' \<Longrightarrow>
   run task p vm_obj
   = add_disks task vm_obj [] False
       (vm_get_ctls (device vm_obj) (check_maximums (vm_version vm_obj) (init p)))"
  by (simp add: run_def reconfigure_vm_def Let_def vm_get_ctls_frame check_maximums_def init_def)

text \<open>
  C10. With \<open>state: absent\<close> the run goes straight from the inventory to the disk pass:
  \<open>ctl_check_types\<close> and \<open>ctl_create_new\<close> are not called and no controller change list is
  applied. Whatever the machine and the server's answers, the run submits at most one
  configuration update, every operation in it removes a disk, and the run never stops
  with the controller type error.
\<close>

theorem absent_run_only_detaches:
  assumes "state p = ''absent''"
  shows "run task p vm_obj
           = add_disks task vm_obj [] False
               (vm_get_ctls (device vm_obj) (check_maximums (vm_version vm_obj) (init p)))
       \<and> length (submitted (run task p vm_obj)) \<le> 1
       \<and> (\<forall>changes\<in>set (submitted (run task p vm_obj)).
            \<forall>spec\<in>set changes. \<exists>k ck u. spec = RemoveDisk k ck u)
       \<and> returned (run task p vm_obj) \<noteq> Inl ControllerTypeMismatch"
proof -
  let ?self1 = "vm_get_ctls (device vm_obj) (check_maximums (vm_version vm_obj) (init p))"
  have np: "state p \<noteq> ''present''" using assms by simp
  have eq: "run task p vm_obj = add_disks task vm_obj [] False ?self1"
    by (rule run_not_present [OF np])
  have st: "rdm_state ?self1 = ''absent''"
    using assms by (simp add: vm_get_ctls_frame check_maximums_def init_def)
  from add_disks_absent_shape [OF st, of task vm_obj "[]" False]
  have shape: "submitted (run task p vm_obj) = []
          \<or> (\<exists>luns. submitted (run task p vm_obj)
                = [detach_specs (requested ?self1) luns (rdm_devices (device vm_obj))])"
    and ret: "returned (run task p vm_obj) \<noteq> Inl ControllerTypeMismatch"
    unfolding eq by simp_all
  from shape have len: "length (submitted (run task p vm_obj)) \<le> 1" by auto
  from shape have only: "\<forall>changes\<in>set (submitted (run task p vm_obj)).
            \<forall>spec\<in>set changes. \<exists>k ck u. spec = RemoveDisk k ck u"
    using detach_specs_removes by fastforce
  from eq len only ret show ?thesis by simp
qed


theorem absent_run_only_detaches_witness:
  "state absent_6a = ''absent''
   \<and> submitted (run obedient_server absent_6a vm_bus3) = [[RemoveDisk 2048 1003 0]]
   \<and> returned (run obedient_server absent_6a vm_bus3)
       = Inr \<lparr>changed = True, failed = False, msg = None\<rparr>"
  using absent_run_only_detaches [of absent_6a obedient_server vm_bus3]
  by (simp add: run_defs absent_6a_def vm_bus3_def lun_6a_def find_lun_def lower_literals
      remove_rdm_disk_def wwid_matches_def)

lemma run_absent_resolved:
  assumes "state p = ''absent''" "disks_on_scsi (device vm_obj)"
      and "host_view vm_obj = Some (luns # hosts)" "datastore vm_obj \<noteq> []"
      and "\<forall>wwid\<in>set (rdm_disk p). find_lun luns wwid \<noteq> None"
  shows "(detach_specs (rdm_disk p) luns (rdm_devices (device vm_obj)) = []
            \<longrightarrow> run task p vm_obj
                = \<lparr>returned = Inr \<lparr>changed = False, failed = False, msg = None\<rparr>,
                   vm_after = vm_obj, submitted = []\<rparr>)
       \<and> (detach_specs (rdm_disk p) luns (rdm_devices (device vm_obj)) \<noteq> []
            \<longrightarrow> submitted (run task p vm_obj)
                = [detach_specs (rdm_disk p) luns (rdm_devices (device vm_obj))])"
proof -
  let ?rdms = "rdm_devices (device vm_obj)"
  let ?specs = "detach_specs (rdm_disk p) luns ?rdms"
  let ?self0 = "vm_get_ctls (device vm_obj) (check_maximums (vm_version vm_obj) (init p))"
  let ?self1 = "?self0\<lparr>deviceChange := [], rdm_disks := ?rdms\<rparr>"
  have np: "state p \<noteq> ''present''" using assms(1) by simp
  have eq: "run task p vm_obj = add_disks task vm_obj [] False ?self0"
    by (rule run_not_present [OF np])
  have fr: "rdm_state ?self1 = ''absent''" "requested ?self1 = rdm_disk p"
    "change_detected ?self1 = False" "deviceChange ?self1 = []" "rdm_disks ?self1 = ?rdms"
    using assms(1) by (simp_all add: vm_get_ctls_frame check_maximums_def init_def)
  have "\<forall>k b. map_of (ctl_key_slot (check_maximums (vm_version vm_obj) (init p))) k = Some b
          \<longrightarrow> b \<in> fst ` set (ctl_units (check_maximums (vm_version vm_obj) (init p)))"
    by (simp add: check_maximums_def init_def)
  from vm_get_ctls_known [OF assms(2) this]
  have known: "on_known_controllers ?self1 ?rdms" .
  have "\<not> (rdm_state ?self1 = ''present'' \<and> all_disk ?self1 ?rdms > free_bays ?self1)"
    using fr(1) by simp
  with get_rdm_info_known [OF known] obtain self2 where
    g: "get_rdm_info ?rdms ?self1 = Inr self2" by blast
  from get_rdm_info_frame [OF g] obtain units where
    self2: "self2 = ?self1\<lparr>disk_units := units\<rparr>" by blast
  have fr2: "rdm_state self2 = ''absent''" "requested self2 = rdm_disk p"
    "change_detected self2 = False" "deviceChange self2 = []" "rdm_disks self2 = ?rdms"
    using fr unfolding self2 by simp_all
  obtain ds dss where ds: "datastore vm_obj = ds # dss"
    using assms(4) by (cases "datastore vm_obj") auto
  have "\<forall>wwid\<in>set (requested self2). find_lun luns wwid \<noteq> None"
    using assms(5) fr2(2) by simp
  from detach_loop_total [OF this] obtain self3 where
    d: "detach_loop (requested self2) luns self2 = Inr self3" by blast
  have c: "configure_rdm_disks vm_obj self2 = Inr self3"
    unfolding configure_absent [OF fr2(1)]
    using assms(3) ds d by (simp add: get_host_by_vm_def get_datastore_by_vm_def)
  from detach_loop_result [OF d] fr2 have
    r: "deviceChange self3 = ?specs" "change_detected self3 \<longleftrightarrow> ?specs \<noteq> []" by simp_all
  have add: "add_disks task vm_obj [] False ?self0 =
          (if change_detected self3 then
             (case apply_changes task vm_obj self3 of
                (Inl e, vm') \<Rightarrow>
                  \<lparr>returned = Inl e, vm_after = vm', submitted = [] @ [deviceChange self3]\<rparr>
              | (Inr res, vm') \<Rightarrow>
                  (if truthy res
                   then \<lparr>returned = Inr \<lparr>changed = True, failed = True, msg = res\<rparr>,
                         vm_after = vm', submitted = [] @ [deviceChange self3]\<rparr>
                   else \<lparr>returned = Inr \<lparr>changed = True, failed = False, msg = None\<rparr>,
                         vm_after = vm', submitted = [] @ [deviceChange self3]\<rparr>))
           else \<lparr>returned = Inr \<lparr>changed = False, failed = False, msg = None\<rparr>,
                 vm_after = vm_obj, submitted = []\<rparr>)"
    using g c fr(5) by (simp add: add_disks_def Let_def)
  show ?thesis
  proof (intro conjI impI)
    assume "?specs = []"
    then show "run task p vm_obj
                = \<lparr>returned = Inr \<lparr>changed = False, failed = False, msg = None\<rparr>,
                   vm_after = vm_obj, submitted = []\<rparr>"
      unfolding eq add using r(2) by simp
  next
    assume "?specs \<noteq> []"
    then have cd: "change_detected self3" using r(2) by simp
    obtain res vm' where ap: "apply_changes task vm_obj self3 = (res, vm')"
      by (cases "apply_changes task vm_obj self3") auto
    show "submitted (run task p vm_obj) = [?specs]"
      unfolding eq add using cd ap r(1) by (cases res) simp_all
  qed
qed


lemma detach_specs_append:
  "detach_specs (ws @ ws') luns rdms = detach_specs ws luns rdms @ detach_specs ws' luns rdms"
  by (simp add: detach_specs_def)

lemma detach_specs_no_match:
  assumes "find_lun luns wwid = Some lun" "\<forall>rdm\<in>set rdms. lunUuid rdm \<noteq> uuid lun"
  shows "detach_specs [wwid] luns rdms = []"
  using assms by (simp add: detach_specs_def filter_empty_conv)

lemma detach_specs_match:
  assumes "wwid \<in> set wwids" "find_lun luns wwid = Some lun" "rdm \<in> set rdms"
      and "lunUuid rdm = uuid lun"
  shows "remove_rdm_disk rdm \<in> set (detach_specs wwids luns rdms)"
proof -
  have "remove_rdm_disk rdm
        \<in> set (case find_lun luns wwid of
                  None \<Rightarrow> []
                | Some lun \<Rightarrow> map remove_rdm_disk (filter (\<lambda>rdm. lunUuid rdm = uuid lun) rdms))"
    using assms(2-4) by simp
  then show ?thesis using assms(1) unfolding detach_specs_def set_concat set_map by blast
qed

text \<open>
  C7, as the code has it. With \<open>state: absent\<close>, readable host and datastore, every RDM
  disk on a SCSI controller of the machine, and every requested WWID resolving to a LUN
  the host presents: for a requested WWID and an RDM disk of the machine whose \<open>lunUuid\<close>
  is the \<open>uuid\<close> of the LUN found for it, the one submitted update holds the remove
  operation with that disk's own key, controller key and unit number.
  \<open>rdm_controller_bus\<close> is arbitrary: nothing is asked of the bus of the disk's
  controller.
\<close>

theorem detach_ignores_allowed_buses:
  assumes "state p = ''absent''" "disks_on_scsi (device vm_obj)"
      and "host_view vm_obj = Some (luns # hosts)" "datastore vm_obj \<noteq> []"
      and "\<forall>w\<in>set (rdm_disk p). find_lun luns w \<noteq> None"
      and "wwid \<in> set (rdm_disk p)" "find_lun luns wwid = Some lun"
      and "RdmDisk rdm \<in> set (device vm_obj)" "lunUuid rdm = uuid lun"
  shows "\<exists>changes. submitted (run task p vm_obj) = [changes]
           \<and> RemoveDisk (key rdm) (controllerKey rdm) (unitNumber rdm) \<in> set changes"
proof -
  let ?specs = "detach_specs (rdm_disk p) luns (rdm_devices (device vm_obj))"
  have "rdm \<in> set (rdm_devices (device vm_obj))" using assms(8) by (simp add: rdm_devices_set)
  from detach_specs_match [OF assms(6,7) this assms(9)]
  have mem: "remove_rdm_disk rdm \<in> set ?specs" .
  then have "?specs \<noteq> []" by auto
  with run_absent_resolved [OF assms(1-5), of task]
  have "submitted (run task p vm_obj) = [?specs]" by simp
  with mem show ?thesis by (simp add: remove_rdm_disk_def)
qed

lemma disks_on_scsi_vm_bus3: "disks_on_scsi (device vm_bus3)"
  by (simp add: disks_on_scsi_def vm_bus3_def rdm_devices_def controller_keys_def)

lemma find_6a: "find_lun [lun_6a] ''60002AC0000000000000006A000123FD'' = Some lun_6a"
  by (simp add: find_lun_def lower_literals) (simp add: lun_6a_def)

lemma find_6b: "find_lun [lun_6a] ''60002AC0000000000000006B000123FD'' = None"
  by (simp add: find_lun_def lower_literals) (simp add: lun_6a_def)

theorem detach_ignores_allowed_buses_witness:
  "3 \<notin> set (rdm_controller_bus absent_6a)
   \<and> ScsiController ParaVirtualSCSIController 1003 3 \<in> set (device vm_bus3)
   \<and> (\<exists>changes. submitted (run obedient_server absent_6a vm_bus3) = [changes]
         \<and> RemoveDisk 2048 1003 0 \<in> set changes)"
proof -
  have 1: "state absent_6a = ''absent''" by (simp add: absent_6a_def)
  have 3: "host_view vm_bus3 = Some ([lun_6a] # [])" by (simp add: vm_bus3_def)
  have 4: "datastore vm_bus3 \<noteq> []" by (simp add: vm_bus3_def)
  have 5: "\<forall>w\<in>set (rdm_disk absent_6a). find_lun [lun_6a] w \<noteq> None"
    by (simp add: absent_6a_def find_6a)
  have 6: "''60002AC0000000000000006A000123FD'' \<in> set (rdm_disk absent_6a)"
    by (simp add: absent_6a_def)
  have 8: "RdmDisk \<lparr>key = 2048, controllerKey = 1003, unitNumber = 0,
                    lunUuid = ''020000000060002ac0000000000000006a000123fd565620''\<rparr>
           \<in> set (device vm_bus3)" by (simp add: vm_bus3_def)
  have 9: "lunUuid \<lparr>key = 2048, controllerKey = 1003, unitNumber = 0,
                    lunUuid = ''020000000060002ac0000000000000006a000123fd565620''\<rparr>
           = uuid lun_6a" by (simp add: lun_6a_def)
  from detach_ignores_allowed_buses [OF 1 disks_on_scsi_vm_bus3 3 4 5 6 find_6a 8 9,
      of obedient_server]
  show ?thesis by (simp add: absent_6a_def vm_bus3_def)
qed

text \<open>
  C7 as claimed fails. The disk of \<open>lun_6a\<close> sits on bus 3 of \<open>vm_bus3\<close> and its WWID is
  requested with \<open>state: absent\<close>, after a WWID whose LUN the host does not present. The
  loop stops at the first WWID with "LUN not presented to host": no remove operation is
  built for the matching disk, nothing is submitted and the machine keeps the disk.
\<close>

theorem matching_disk_kept_when_another_lun_is_missing:
  "state absent_6b_6a = ''absent''
   \<and> ''60002AC0000000000000006A000123FD'' \<in> set (rdm_disk absent_6b_6a)
   \<and> find_lun [lun_6a] ''60002AC0000000000000006A000123FD'' = Some lun_6a
   \<and> RdmDisk \<lparr>key = 2048, controllerKey = 1003, unitNumber = 0, lunUuid = uuid lun_6a\<rparr>
       \<in> set (device vm_bus3)
   \<and> host_view vm_bus3 = Some [[lun_6a]]
   \<and> run obedient_server absent_6b_6a vm_bus3
       = \<lparr>returned = Inl (LunNotPresented ''60002AC0000000000000006B000123FD''),
          vm_after = vm_bus3, submitted = []\<rparr>"
proof -
  have 1: "state absent_6b_6a = ''absent''"
    "''60002AC0000000000000006A000123FD'' \<in> set (rdm_disk absent_6b_6a)"
    by (simp_all add: absent_6b_6a_def)
  have 2: "RdmDisk \<lparr>key = 2048, controllerKey = 1003, unitNumber = 0, lunUuid = uuid lun_6a\<rparr>
       \<in> set (device vm_bus3)" "host_view vm_bus3 = Some [[lun_6a]]"
    by (simp_all add: vm_bus3_def lun_6a_def)
  have 3: "run obedient_server absent_6b_6a vm_bus3
       = \<lparr>returned = Inl (LunNotPresented ''60002AC0000000000000006B000123FD''),
          vm_after = vm_bus3, submitted = []\<rparr>"
    by (simp add: run_defs absent_6b_6a_def vm_bus3_def find_6b wwid_matches_def)
  from 1 2 3 find_6a show ?thesis by simp
qed

lemma detach_loop_unresolved:
  "\<forall>w\<in>set ws1. find_lun luns w \<noteq> None \<Longrightarrow> find_lun luns w0 = None \<Longrightarrow>
   detach_loop (ws1 @ w0 # ws2) luns self = Inl (LunNotPresented w0)"
  by (induction ws1 arbitrary: self) (auto split: option.splits)

lemma run_absent_unresolved:
  assumes "state p = ''absent''" "disks_on_scsi (device vm_obj)"
      and "host_view vm_obj = Some (luns # hosts)" "datastore vm_obj \<noteq> []"
      and "rdm_disk p = ws1 @ w0 # ws2"
      and "\<forall>w\<in>set ws1. find_lun luns w \<noteq> None" "find_lun luns w0 = None"
  shows "run task p vm_obj
         = \<lparr>returned = Inl (LunNotPresented w0), vm_after = vm_obj, submitted = []\<rparr>"
proof -
  let ?rdms = "rdm_devices (device vm_obj)"
  let ?self0 = "vm_get_ctls (device vm_obj) (check_maximums (vm_version vm_obj) (init p))"
  let ?self1 = "?self0\<lparr>deviceChange := [], rdm_disks := ?rdms\<rparr>"
  have np: "state p \<noteq> ''present''" using assms(1) by simp
  have eq: "run task p vm_obj = add_disks task vm_obj [] False ?self0"
    by (rule run_not_present [OF np])
  have fr: "rdm_state ?self1 = ''absent''" "requested ?self1 = rdm_disk p"
    "rdm_disks ?self1 = ?rdms"
    using assms(1) by (simp_all add: vm_get_ctls_frame check_maximums_def init_def)
  have "\<forall>k b. map_of (ctl_key_slot (check_maximums (vm_version vm_obj) (init p))) k = Some b
          \<longrightarrow> b \<in> fst ` set (ctl_units (check_maximums (vm_version vm_obj) (init p)))"
    by (simp add: check_maximums_def init_def)
  from vm_get_ctls_known [OF assms(2) this]
  have known: "on_known_controllers ?self1 ?rdms" .
  have "\<not> (rdm_state ?self1 = ''present'' \<and> all_disk ?self1 ?rdms > free_bays ?self1)"
    using fr(1) by simp
  with get_rdm_info_known [OF known] obtain self2 where
    g: "get_rdm_info ?rdms ?self1 = Inr self2" by blast
  from get_rdm_info_frame [OF g] obtain units where
    self2: "self2 = ?self1\<lparr>disk_units := units\<rparr>" by blast
  have fr2: "rdm_state self2 = ''absent''" "requested self2 = ws1 @ w0 # ws2"
    using fr assms(5) unfolding self2 by simp_all
  obtain ds dss where ds: "datastore vm_obj = ds # dss"
    using assms(4) by (cases "datastore vm_obj") auto
  have d: "detach_loop (requested self2) luns self2 = Inl (LunNotPresented w0)"
    unfolding fr2(2) by (rule detach_loop_unresolved [OF assms(6,7)])
  have c: "configure_rdm_disks vm_obj self2 = Inl (LunNotPresented w0)"
    unfolding configure_absent [OF fr2(1)]
    using assms(3) ds d by (simp add: get_host_by_vm_def get_datastore_by_vm_def)
  show ?thesis unfolding eq using g c fr(3) by (simp add: add_disks_def Let_def)
qed

lemma run_absent_no_match:
  assumes "state p = ''absent''" "disks_on_scsi (device vm_obj)"
      and "host_view vm_obj = Some (luns # hosts)" "datastore vm_obj \<noteq> []"
      and "\<forall>wwid\<in>set (rdm_disk p). \<exists>lun. find_lun luns wwid = Some lun
             \<and> (\<forall>rdm\<in>set (rdm_devices (device vm_obj)). lunUuid rdm \<noteq> uuid lun)"
  shows "run task p vm_obj
         = \<lparr>returned = Inr \<lparr>changed = False, failed = False, msg = None\<rparr>,
            vm_after = vm_obj, submitted = []\<rparr>"
proof -
  have res: "\<forall>wwid\<in>set (rdm_disk p). find_lun luns wwid \<noteq> None" using assms(5) by auto
  have "detach_specs ws luns (rdm_devices (device vm_obj)) = []"
    if "set ws \<subseteq> set (rdm_disk p)" for ws
    using that
  proof (induction ws)
    case Nil
    then show ?case by (simp add: detach_specs_def)
  next
    case (Cons w ws)
    then obtain lun where "find_lun luns w = Some lun"
      "\<forall>rdm\<in>set (rdm_devices (device vm_obj)). lunUuid rdm \<noteq> uuid lun"
      using assms(5) by auto
    from detach_specs_no_match [OF this] Cons
      detach_specs_append [of "[w]" ws luns "rdm_devices (device vm_obj)"]
    show ?case by simp
  qed
  then have "detach_specs (rdm_disk p) luns (rdm_devices (device vm_obj)) = []" by simp
  with run_absent_resolved [OF assms(1-4) res, of task] show ?thesis by simp
qed

text \<open>
  C6, as the code has it. With \<open>state: absent\<close>, readable host and datastore and every
  RDM disk on a SCSI controller of the machine: if every requested WWID resolves to a
  LUN the host presents and no RDM disk of the machine has that LUN's uuid, the run is a
  no-op: it returns changed false and failed false, submits nothing and leaves the
  machine as it is. For a single LUN without a matching disk the inner loop leaves the
  helper untouched: no detach specification, no change flag. Under the same conditions
  on host, datastore and disks, if \<open>missing\<close> is the first requested WWID whose LUN the host
  does not present, the run stops with "LUN \<open>missing\<close> not presented to host", submits
  nothing and leaves the machine as it is, whether or not a disk is attached for it or
  for any other requested WWID.
\<close>

theorem absent_without_match_is_noop:
  "(state p = ''absent'' \<and> disks_on_scsi (device vm_obj)
      \<and> host_view vm_obj = Some (luns # hosts) \<and> datastore vm_obj \<noteq> []
      \<and> (\<forall>wwid\<in>set (rdm_disk p). \<exists>lun. find_lun luns wwid = Some lun
             \<and> (\<forall>rdm\<in>set (rdm_devices (device vm_obj)). lunUuid rdm \<noteq> uuid lun))
    \<longrightarrow> run task p vm_obj
        = \<lparr>returned = Inr \<lparr>changed = False, failed = False, msg = None\<rparr>,
           vm_after = vm_obj, submitted = []\<rparr>)
   \<and> ((\<forall>rdm\<in>set (rdm_disks self). lunUuid rdm \<noteq> uuid lun')
        \<longrightarrow> detach_matching (rdm_disks self) lun' self = self)
   \<and> (state p' = ''absent'' \<and> disks_on_scsi (device vm_obj')
      \<and> host_view vm_obj' = Some (luns' # hosts') \<and> datastore vm_obj' \<noteq> []
      \<and> rdm_disk p' = earlier @ missing # later
      \<and> (\<forall>w\<in>set earlier. find_lun luns' w \<noteq> None) \<and> find_lun luns' missing = None
    \<longrightarrow> run task' p' vm_obj'
        = \<lparr>returned = Inl (LunNotPresented missing), vm_after = vm_obj', submitted = []\<rparr>)"
  using run_absent_no_match [of p vm_obj luns hosts task]
    detach_matching_none [of "rdm_disks self" lun' self]
    run_absent_unresolved [of p' vm_obj' luns' hosts' earlier missing later task']
  by (intro conjI impI) simp_all

lemma disks_on_scsi_vm_6a_attached: "disks_on_scsi (device vm_6a_attached)"
  by (simp add: disks_on_scsi_def vm_6a_attached_def rdm_devices_def controller_keys_def
      disk_6a_def)

lemma find_short_absent:
  "find_lun [lun_6a, lun_6a_short] ''60002AC0000000000000006A'' = Some lun_6a_short"
  by (simp add: find_lun_def lower_short) (simp add: lun_6a_def lun_6a_short_def)

theorem absent_without_match_is_noop_witness:
  "state absent_6a_short = ''absent''
   \<and> rdm_devices (device vm_6a_attached) = [disk_6a]
   \<and> find_lun [lun_6a, lun_6a_short] ''60002AC0000000000000006A'' = Some lun_6a_short
   \<and> lunUuid disk_6a \<noteq> uuid lun_6a_short
   \<and> run obedient_server absent_6a_short vm_6a_attached
       = \<lparr>returned = Inr \<lparr>changed = False, failed = False, msg = None\<rparr>,
          vm_after = vm_6a_attached, submitted = []\<rparr>
   \<and> rdm_disks helper_6a = [disk_6a]
   \<and> detach_matching (rdm_disks helper_6a) lun_6a_short helper_6a = helper_6a
   \<and> rdm_disk absent_6a_6b
       = [''60002AC0000000000000006A000123FD''] @ ''60002AC0000000000000006B000123FD'' # []
   \<and> find_lun [lun_6a] ''60002AC0000000000000006B000123FD'' = None
   \<and> run obedient_server absent_6a_6b vm_bus3
       = \<lparr>returned = Inl (LunNotPresented ''60002AC0000000000000006B000123FD''),
          vm_after = vm_bus3, submitted = []\<rparr>"
proof -
  have 1: "state absent_6a_short = ''absent''" by (simp add: absent_6a_short_def)
  have 3: "host_view vm_6a_attached = Some ([lun_6a, lun_6a_short] # [])"
    by (simp add: vm_6a_attached_def)
  have 4: "datastore vm_6a_attached \<noteq> []" by (simp add: vm_6a_attached_def)
  have e: "rdm_devices (device vm_6a_attached) = [disk_6a]"
    by (simp add: vm_6a_attached_def rdm_devices_def)
  have n: "lunUuid disk_6a \<noteq> uuid lun_6a_short" by (simp add: disk_6a_def lun_6a_short_def)
  have 5: "\<forall>wwid\<in>set (rdm_disk absent_6a_short).
             \<exists>lun. find_lun [lun_6a, lun_6a_short] wwid = Some lun
             \<and> (\<forall>rdm\<in>set (rdm_devices (device vm_6a_attached)). lunUuid rdm \<noteq> uuid lun)"
    using n by (simp add: absent_6a_short_def find_short_absent e)
  have h: "rdm_disks helper_6a = [disk_6a]" by (simp add: helper_6a_def)
  have 6: "\<forall>rdm\<in>set (rdm_disks helper_6a). lunUuid rdm \<noteq> uuid lun_6a_short"
    using n by (simp add: h)
  have 7: "state absent_6a_6b = ''absent''" by (simp add: absent_6a_6b_def)
  have 8: "host_view vm_bus3 = Some ([lun_6a] # [])" "datastore vm_bus3 \<noteq> []"
    by (simp_all add: vm_bus3_def)
  have 9: "rdm_disk absent_6a_6b
       = [''60002AC0000000000000006A000123FD''] @ ''60002AC0000000000000006B000123FD'' # []"
    by (simp add: absent_6a_6b_def)
  have 10: "\<forall>w\<in>set [''60002AC0000000000000006A000123FD'']. find_lun [lun_6a] w \<noteq> None"
    by (simp add: find_6a)
  note inst = absent_without_match_is_noop
         [where p = absent_6a_short and vm_obj = vm_6a_attached
            and luns = "[lun_6a, lun_6a_short]" and hosts = "[]" and task = obedient_server
            and self = helper_6a and lun' = lun_6a_short
            and p' = absent_6a_6b and vm_obj' = vm_bus3 and luns' = "[lun_6a]"
            and hosts' = "[]" and earlier = "[''60002AC0000000000000006A000123FD'']"
            and missing = "''60002AC0000000000000006B000123FD''" and later = "[]"
            and task' = obedient_server]
  have a: "run obedient_server absent_6a_short vm_6a_attached
       = \<lparr>returned = Inr \<lparr>changed = False, failed = False, msg = None\<rparr>,
          vm_after = vm_6a_attached, submitted = []\<rparr>"
    apply (rule inst [THEN conjunct1, THEN mp])
    apply (intro conjI 1 disks_on_scsi_vm_6a_attached 3 4 5)
    done
  have b: "detach_matching (rdm_disks helper_6a) lun_6a_short helper_6a = helper_6a"
    by (rule inst [THEN conjunct2, THEN conjunct1, THEN mp, OF 6])
  have c: "run obedient_server absent_6a_6b vm_bus3
       = \<lparr>returned = Inl (LunNotPresented ''60002AC0000000000000006B000123FD''),
          vm_after = vm_bus3, submitted = []\<rparr>"
    apply (rule inst [THEN conjunct2, THEN conjunct2, THEN mp])
    apply (intro conjI 7 disks_on_scsi_vm_bus3 8 9 10 find_6b)
    done
  show ?thesis
    by (intro conjI 1 e find_short_absent n a h b 9 find_6b c)
qed

text \<open>
  C6 as claimed fails: \<open>state: absent\<close> for a WWID that no RDM disk of the machine
  matches, and whose LUN the host does not present, stops with the error
  "LUN not presented to host".
\<close>

theorem absent_fails_when_lun_not_presented:
  "state absent_6b = ''absent''
   \<and> rdm_devices (device bare_vm) = []
   \<and> returned (run obedient_server absent_6b bare_vm)
       = Inl (LunNotPresented ''60002AC0000000000000006B000123FD'')"
proof -
  have 1: "state absent_6b = ''absent''" by (simp add: absent_6b_def)
  have e: "rdm_devices (device bare_vm) = []" by (simp add: bare_vm_def rdm_devices_def)
  have "returned (run obedient_server absent_6b bare_vm)
       = Inl (LunNotPresented ''60002AC0000000000000006B000123FD'')"
    by (simp add: run_defs absent_6b_def bare_vm_def find_6b)
  with 1 e show ?thesis by simp
qed

subsection \<open>The present pass: satisfied LUNs\<close>


lemma create_rdm_frame:
  assumes "create_rdm lun vm_ds rdm_file self = Inr self'"
  shows "rdm_disks self' = rdm_disks self \<and> rdm_state self' = rdm_state self
   \<and> (deviceChange self' = deviceChange self
        \<or> (\<exists>k u. deviceChange self'
               = deviceChange self @ [create_rdm_disk k lun vm_ds rdm_file u]))"
  using create_rdm_result [OF assms]
proof
  assume "exhausted self \<and> self' = self"
  then show ?thesis by simp
next
  assume "\<exists>pre ctl post u occupied scsi_key.
            ctl_list self = pre @ ctl # post
          \<and> (\<forall>c\<in>set pre. \<forall>u'. 0 \<le> u' \<and> u' \<le> ctl_max self
                \<longrightarrow> is_occupied (disk_units self) c u')
          \<and> map_of (disk_units self) ctl = Some occupied
          \<and> 0 \<le> u \<and> u \<le> ctl_max self \<and> u \<notin> occupied
          \<and> (\<forall>u'. 0 \<le> u' \<and> u' < u \<longrightarrow> u' \<in> occupied)
          \<and> map_of (ctl_slot_key self) ctl = Some scsi_key
          \<and> self' = self\<lparr> disk_units := AList.update ctl (insert u occupied) (disk_units self),
                           deviceChange :=
                             deviceChange self @ [create_rdm_disk scsi_key lun vm_ds rdm_file u],
                           change_detected := True \<rparr>"
  then obtain ctl u occupied scsi_key where
    "self' = self\<lparr> disk_units := AList.update ctl (insert u occupied) (disk_units self),
                           deviceChange :=
                             deviceChange self @ [create_rdm_disk scsi_key lun vm_ds rdm_file u],
                           change_detected := True \<rparr>" by fast
  then have "rdm_disks self' = rdm_disks self" "rdm_state self' = rdm_state self"
    "deviceChange self' = deviceChange self @ [create_rdm_disk scsi_key lun vm_ds rdm_file u]"
    by simp_all
  then show ?thesis by fast
qed



lemma attach_loop_all_attached:
  "\<forall>wwid\<in>set wwids. \<exists>lun. find_lun luns wwid = Some lun
       \<and> (\<exists>rdm\<in>set (rdm_disks self). uuid lun = lunUuid rdm)
   \<Longrightarrow> attach_loop wwids luns vm_ds path self = Inr self"
  by (induction wwids) auto

lemma attach_loop_never_respecifies:
  "attach_loop wwids luns vm_ds path self = Inr self' \<Longrightarrow>
   AddDisk k ck u lu dn d f \<in> set (deviceChange self') \<Longrightarrow>
   AddDisk k ck u lu dn d f \<in> set (deviceChange self) \<or> lu \<notin> lunUuid ` set (rdm_disks self)"
proof (induction wwids arbitrary: self)
  case Nil
  then show ?case by simp
next
  case (Cons wwid wwids)
  from Cons.prems(1) obtain lun where lun: "find_lun luns wwid = Some lun"
    by (auto split: option.splits)
  show ?case
  proof (cases "\<exists>rdm\<in>set (rdm_disks self). uuid lun = lunUuid rdm")
    case True
    with Cons.prems(1) lun have "attach_loop wwids luns vm_ds path self = Inr self'" by simp
    from Cons.IH [OF this Cons.prems(2)] show ?thesis .
  next
    case False
    with Cons.prems(1) lun obtain rdmid self1 where
      c: "create_rdm lun vm_ds (str_replace path ''.vmx'' (''_RDM'' @ rdmid @ ''.vmdk'')) self
          = Inr self1"
      and rest: "attach_loop wwids luns vm_ds path self1 = Inr self'"
      by (auto split: option.splits sum.splits)
    from create_rdm_frame [OF c] have
      fr: "rdm_disks self1 = rdm_disks self" and
      dc: "deviceChange self1 = deviceChange self
           \<or> (\<exists>k u. deviceChange self1 = deviceChange self
                 @ [create_rdm_disk k lun vm_ds
                      (str_replace path ''.vmx'' (''_RDM'' @ rdmid @ ''.vmdk'')) u])"
      by simp_all
    from Cons.IH [OF rest Cons.prems(2)] fr consider
        (old) "AddDisk k ck u lu dn d f \<in> set (deviceChange self1)"
      | (fresh) "lu \<notin> lunUuid ` set (rdm_disks self)" by auto
    then show ?thesis
    proof cases
      case fresh
      then show ?thesis by simp
    next
      case old
      from dc show ?thesis
      proof
        assume "deviceChange self1 = deviceChange self"
        with old show ?thesis by simp
      next
        assume "\<exists>k u. deviceChange self1 = deviceChange self
                 @ [create_rdm_disk k lun vm_ds
                      (str_replace path ''.vmx'' (''_RDM'' @ rdmid @ ''.vmdk'')) u]"
        then obtain k' u' where "deviceChange self1 = deviceChange self
                 @ [create_rdm_disk k' lun vm_ds
                      (str_replace path ''.vmx'' (''_RDM'' @ rdmid @ ''.vmdk'')) u']" by fast
        with old have "AddDisk k ck u lu dn d f \<in> set (deviceChange self) \<or> lu = uuid lun"
          by (auto simp: create_rdm_disk_def)
        with False show ?thesis by auto
      qed
    qed
  qed
qed


lemma short_matches_6a: "wwid_matches disk_6a [''60002AC0000000000000006A'']"
  by (simp add: wwid_matches_def disk_6a_def lower_short str_find_def)

lemma find_short:
  "find_lun [lun_6a, lun_6a_short] ''60002AC0000000000000006A'' = Some lun_6a_short"
  by (simp add: find_lun_def lower_short) (simp add: lun_6a_def lun_6a_short_def)

lemma split_short: "re_split_wwn (canonicalName lun_6a_short) = Some ''6a''"
  by (simp add: lun_6a_short_def re_split_wwn_def in_wwn_class_def)

lemma file_6a: "str_replace ''[ds1] vm/vm.vmx'' ''.vmx'' ''_RDM6a.vmdk'' = ''[ds1] vm/vm_RDM6a.vmdk''"
  by (simp add: str_replace_def)




lemma find_6a_two:
  "find_lun [lun_6a, lun_6a_short] ''60002AC0000000000000006A000123FD'' = Some lun_6a"
  by (simp add: find_lun_def lower_literals) (simp add: lun_6a_def)



lemma create_new_loop_none:
  "\<forall>ctl\<in>set ctls. ctl \<in> fst ` set (ctl_units self)
   \<Longrightarrow> create_new_loop ctls ty devs self = Inr self"
  by (induction ctls) simp_all

lemma split_6a: "re_split_wwn (canonicalName lun_6a) = Some ''6a000123fd''"
  by (simp add: lun_6a_def re_split_wwn_def in_wwn_class_def)

lemma file_6a_long:
  "str_replace ''[ds1] vm/vm.vmx'' ''.vmx'' ''_RDM6a000123fd.vmdk''
   = ''[ds1] vm/vm_RDM6a000123fd.vmdk''"
  by (simp add: str_replace_def)

subsection \<open>Running present a second time\<close>

lemma controller_buses_set:
  "bus \<in> set (controller_buses devs) \<longleftrightarrow> (\<exists>cls k. ScsiController cls k bus \<in> set devs)"
  by (induction devs) (auto simp: controller_buses_def split: device.splits)

lemma controller_buses_append:
  "controller_buses (xs @ ys) = controller_buses xs @ controller_buses ys"
  by (simp add: controller_buses_def)

lemma scsi_keys_by_bus_append:
  "scsi_keys_by_bus (xs @ ys) \<longleftrightarrow> scsi_keys_by_bus xs \<and> scsi_keys_by_bus ys"
  by (simp add: scsi_keys_by_bus_def)

lemma scsi_keys_by_bus_key:
  "scsi_keys_by_bus devs \<Longrightarrow> ScsiController cls k bus \<in> set devs \<Longrightarrow> k = 1000 + bus"
  by (induction devs) (auto simp: scsi_keys_by_bus_def)

lemma vm_get_ctls_append:
  "vm_get_ctls (xs @ ys) self = vm_get_ctls ys (vm_get_ctls xs self)"
  by (induction xs self rule: vm_get_ctls.induct) simp_all

lemma keyed_inventory_scan:
  "scsi_keys_by_bus devs \<Longrightarrow> keyed_inventory self B
   \<Longrightarrow> keyed_inventory (vm_get_ctls devs self) (B \<union> set (controller_buses devs))"
proof (induction devs arbitrary: self B)
  case Nil
  then show ?case by (simp add: controller_buses_def)
next
  case (Cons dev devs)
  from Cons.prems(1) have wf: "scsi_keys_by_bus devs" by (simp add: scsi_keys_by_bus_def)
  show ?case
  proof (cases dev)
    case (ScsiController cls k bus)
    with Cons.prems(1) have k: "k = 1000 + bus" by (simp add: scsi_keys_by_bus_def)
    define self' where "self' = self\<lparr> ctl_slot_key := AList.update bus k (ctl_slot_key self),
              ctl_key_slot := AList.update k bus (ctl_key_slot self),
              ctl_units :=
                AList.update bus (str_replace (str_lower (type_name cls)) ''vim.vm.device.'' [])
                  (ctl_units self) \<rparr>"
    have inv: "keyed_inventory self' (insert bus B)"
      using Cons.prems(2) unfolding keyed_inventory_def self'_def k
      by (auto simp: update_conv' dom_update)
    have "vm_get_ctls (dev # devs) self = vm_get_ctls devs self'"
      by (simp add: ScsiController self'_def)
    moreover have "B \<union> set (controller_buses (dev # devs))
                   = insert bus B \<union> set (controller_buses devs)"
      by (simp add: ScsiController controller_buses_def)
    ultimately show ?thesis using Cons.IH [OF wf inv] by simp
  next
    case (RdmDisk d)
    then show ?thesis using Cons.IH [OF wf Cons.prems(2)] by (simp add: controller_buses_def)
  next
    case OtherDevice
    then show ?thesis using Cons.IH [OF wf Cons.prems(2)] by (simp add: controller_buses_def)
  qed
qed

lemma keyed_inventory_init:
  "keyed_inventory (check_maximums version (init p)) {}"
  by (simp add: keyed_inventory_def check_maximums_def init_def)

lemma keyed_inventory_frame:
  "keyed_inventory (self\<lparr>deviceChange := dc\<rparr>) B = keyed_inventory self B"
  "keyed_inventory (self\<lparr>rdm_disks := rd\<rparr>) B = keyed_inventory self B"
  "keyed_inventory (self\<lparr>disk_units := du\<rparr>) B = keyed_inventory self B"
  "keyed_inventory (self\<lparr>change_detected := cd\<rparr>) B = keyed_inventory self B"
  by (simp_all add: keyed_inventory_def)

subsection \<open>What the server makes of a change list\<close>

lemma realise_controllers:
  "\<forall>s\<in>set specs. \<exists>bus. s = AddController cls bus \<Longrightarrow>
   \<exists>ctls. foldl realise devs specs = devs @ ctls
     \<and> (\<forall>dev\<in>set ctls. \<exists>bus. dev = ScsiController cls (1000 + bus) bus
            \<and> AddController cls bus \<in> set specs)
     \<and> (\<forall>bus. AddController cls bus \<in> set specs
            \<longrightarrow> ScsiController cls (1000 + bus) bus \<in> set ctls)"
proof (induction specs arbitrary: devs)
  case Nil
  then show ?case by simp
next
  case (Cons s specs)
  from Cons.prems obtain bus where s: "s = AddController cls bus" by auto
  from Cons.prems have "\<forall>s\<in>set specs. \<exists>bus. s = AddController cls bus" by simp
  from Cons.IH [OF this, of "devs @ [ScsiController cls (1000 + bus) bus]"]
  obtain ctls where c: "foldl realise (devs @ [ScsiController cls (1000 + bus) bus]) specs
       = (devs @ [ScsiController cls (1000 + bus) bus]) @ ctls"
     "\<forall>dev\<in>set ctls. \<exists>bus. dev = ScsiController cls (1000 + bus) bus
            \<and> AddController cls bus \<in> set specs"
     "\<forall>bus. AddController cls bus \<in> set specs
            \<longrightarrow> ScsiController cls (1000 + bus) bus \<in> set ctls" by blast
  show ?case
  proof (intro exI [of _ "ScsiController cls (1000 + bus) bus # ctls"] conjI)
    show "foldl realise devs (s # specs) = devs @ ScsiController cls (1000 + bus) bus # ctls"
      using c(1) s by simp
    show "\<forall>dev\<in>set (ScsiController cls (1000 + bus) bus # ctls).
            \<exists>bus. dev = ScsiController cls (1000 + bus) bus \<and> AddController cls bus \<in> set (s # specs)"
      using c(2) s by auto
    show "\<forall>bus'. AddController cls bus' \<in> set (s # specs)
            \<longrightarrow> ScsiController cls (1000 + bus') bus' \<in> set (ScsiController cls (1000 + bus) bus # ctls)"
      using c(3) s by auto
  qed
qed

lemma realise_disks:
  "\<forall>s\<in>set specs. \<exists>k ck u lu dn d f. s = AddDisk k ck u lu dn d f \<Longrightarrow>
   \<exists>disks. foldl realise devs specs = devs @ map RdmDisk disks
     \<and> (\<forall>disk\<in>set disks. \<exists>k dn d f.
            AddDisk k (controllerKey disk) (unitNumber disk) (lunUuid disk) dn d f \<in> set specs)
     \<and> (\<forall>k ck u lu dn d f. AddDisk k ck u lu dn d f \<in> set specs
            \<longrightarrow> (\<exists>disk\<in>set disks. controllerKey disk = ck \<and> unitNumber disk = u
                    \<and> lunUuid disk = lu))"
proof (induction specs arbitrary: devs)
  case Nil
  then show ?case by simp
next
  case (Cons s specs)
  from Cons.prems obtain k ck u lu dn d f where s: "s = AddDisk k ck u lu dn d f" by fastforce
  define disk where
    "disk = \<lparr>key = 2000 + 16 * ck + u, controllerKey = ck, unitNumber = u, lunUuid = lu\<rparr>"
  from Cons.prems have "\<forall>s\<in>set specs. \<exists>k ck u lu dn d f. s = AddDisk k ck u lu dn d f" by simp
  from Cons.IH [OF this, of "devs @ [RdmDisk disk]"]
  obtain disks where c: "foldl realise (devs @ [RdmDisk disk]) specs
       = (devs @ [RdmDisk disk]) @ map RdmDisk disks"
     "\<forall>disk\<in>set disks. \<exists>k dn d f.
            AddDisk k (controllerKey disk) (unitNumber disk) (lunUuid disk) dn d f \<in> set specs"
     "\<forall>k ck u lu dn d f. AddDisk k ck u lu dn d f \<in> set specs
            \<longrightarrow> (\<exists>disk\<in>set disks. controllerKey disk = ck \<and> unitNumber disk = u
                    \<and> lunUuid disk = lu)" by blast
  have fields: "controllerKey disk = ck" "unitNumber disk = u" "lunUuid disk = lu"
    by (simp_all add: disk_def)
  show ?case
  proof (intro exI [of _ "disk # disks"] conjI)
    show "foldl realise devs (s # specs) = devs @ map RdmDisk (disk # disks)"
      using c(1) s by (simp add: disk_def)
    show "\<forall>disk\<in>set (disk # disks). \<exists>k dn d f.
            AddDisk k (controllerKey disk) (unitNumber disk) (lunUuid disk) dn d f \<in> set (s # specs)"
    proof
      fix x assume "x \<in> set (disk # disks)"
      then consider "x = disk" | "x \<in> set disks" by auto
      then show "\<exists>k dn d f.
            AddDisk k (controllerKey x) (unitNumber x) (lunUuid x) dn d f \<in> set (s # specs)"
      proof cases
        case 1
        then show ?thesis using s fields by auto
      next
        case 2
        with c(2) obtain k' dn' d' f' where
          "AddDisk k' (controllerKey x) (unitNumber x) (lunUuid x) dn' d' f' \<in> set specs" by blast
        then show ?thesis by auto
      qed
    qed
    show "\<forall>k' ck' u' lu' dn' d' f'. AddDisk k' ck' u' lu' dn' d' f' \<in> set (s # specs)
            \<longrightarrow> (\<exists>disk\<in>set (disk # disks). controllerKey disk = ck' \<and> unitNumber disk = u'
                    \<and> lunUuid disk = lu')"
    proof (intro allI impI)
      fix k' ck' u' lu' dn' d' f'
      assume "AddDisk k' ck' u' lu' dn' d' f' \<in> set (s # specs)"
      then consider "ck' = ck \<and> u' = u \<and> lu' = lu" | "AddDisk k' ck' u' lu' dn' d' f' \<in> set specs"
        using s by auto
      then show "\<exists>disk\<in>set (disk # disks). controllerKey disk = ck' \<and> unitNumber disk = u'
                    \<and> lunUuid disk = lu'"
      proof cases
        case 1
        then show ?thesis using fields by auto
      next
        case 2
        with c(3) show ?thesis by fastforce
      qed
    qed
  qed
qed

lemma rdm_devices_append: "rdm_devices (xs @ ys) = rdm_devices xs @ rdm_devices ys"
  by (simp add: rdm_devices_def)

lemma rdm_devices_disks: "rdm_devices (map RdmDisk disks) = disks"
  by (induction disks) (simp_all add: rdm_devices_def)

lemma controller_buses_disks: "controller_buses (map RdmDisk disks) = []"
  by (induction disks) (simp_all add: controller_buses_def)

lemma scsi_keys_by_bus_disks: "scsi_keys_by_bus (map RdmDisk disks)"
  by (induction disks) (simp_all add: scsi_keys_by_bus_def)

lemma apply_changes_obedient:
  "apply_changes obedient_server vm_obj self
   = (Inr None, vm_obj\<lparr>device := foldl realise (device vm_obj) (deviceChange self)\<rparr>)"
  by (simp add: apply_changes_def obedient_server_def)


subsection \<open>Controller creation\<close>

lemma get_vm_ctl_n_None: "get_vm_ctl_n devs b = None \<longleftrightarrow> b \<notin> set (controller_buses devs)"
  by (induction devs b rule: get_vm_ctl_n.induct) (simp_all add: controller_buses_def)

lemma create_scsi_controller_bus_class:
  "create_scsi_controller_bus ty ctl = Inr s
   \<Longrightarrow> \<exists>cls. s = AddController cls ctl \<and> requested_class ty = Some cls"
  by (auto simp: create_scsi_controller_bus_def requested_class_def split: if_splits)

lemma create_new_loop_shape:
  "create_new_loop ctls ty devs self = Inr self' \<Longrightarrow>
   \<exists>adds. self' = self\<lparr>change_detected := change_detected self \<or> adds \<noteq> [],
                       deviceChange := deviceChange self @ adds\<rparr>
     \<and> (\<forall>s\<in>set adds. \<exists>ctl\<in>set ctls. create_scsi_controller_bus ty ctl = Inr s)
     \<and> (\<forall>ctl\<in>set ctls. ctl \<in> fst ` set (ctl_units self) \<or> get_vm_ctl_n devs ctl \<noteq> None
            \<or> (\<exists>s\<in>set adds. create_scsi_controller_bus ty ctl = Inr s))"
proof (induction ctls arbitrary: self)
  case Nil
  then show ?case by (intro exI [of _ "[]"]) simp
next
  case (Cons ctl ctls)
  show ?case
  proof (cases "ctl \<notin> fst ` set (ctl_units self) \<and> get_vm_ctl_n devs ctl = None")
    case False
    with Cons.prems have "create_new_loop ctls ty devs self = Inr self'" by auto
    from Cons.IH [OF this] obtain adds where a:
      "self' = self\<lparr>change_detected := change_detected self \<or> adds \<noteq> [],
                       deviceChange := deviceChange self @ adds\<rparr>"
      "\<forall>s\<in>set adds. \<exists>ctl\<in>set ctls. create_scsi_controller_bus ty ctl = Inr s"
      "\<forall>ctl\<in>set ctls. ctl \<in> fst ` set (ctl_units self) \<or> get_vm_ctl_n devs ctl \<noteq> None
            \<or> (\<exists>s\<in>set adds. create_scsi_controller_bus ty ctl = Inr s)" by blast
    show ?thesis
    proof (intro exI [of _ adds] conjI)
      show "self' = self\<lparr>change_detected := change_detected self \<or> adds \<noteq> [],
                       deviceChange := deviceChange self @ adds\<rparr>" by (rule a(1))
      show "\<forall>s\<in>set adds. \<exists>ctl\<in>set (ctl # ctls). create_scsi_controller_bus ty ctl = Inr s"
        using a(2) by auto
      show "\<forall>c\<in>set (ctl # ctls). c \<in> fst ` set (ctl_units self) \<or> get_vm_ctl_n devs c \<noteq> None
            \<or> (\<exists>s\<in>set adds. create_scsi_controller_bus ty c = Inr s)"
        using a(3) False by auto
    qed
  next
    case True
    with Cons.prems obtain s where s: "create_scsi_controller_bus ty ctl = Inr s"
      by (auto split: sum.splits)
    define self1 where
      "self1 = self\<lparr>change_detected := True, deviceChange := deviceChange self @ [s]\<rparr>"
    from Cons.prems True s have "create_new_loop ctls ty devs self1 = Inr self'"
      by (simp add: self1_def)
    from Cons.IH [OF this] obtain adds where a:
      "self' = self1\<lparr>change_detected := change_detected self1 \<or> adds \<noteq> [],
                       deviceChange := deviceChange self1 @ adds\<rparr>"
      "\<forall>s\<in>set adds. \<exists>ctl\<in>set ctls. create_scsi_controller_bus ty ctl = Inr s"
      "\<forall>ctl\<in>set ctls. ctl \<in> fst ` set (ctl_units self1) \<or> get_vm_ctl_n devs ctl \<noteq> None
            \<or> (\<exists>s\<in>set adds. create_scsi_controller_bus ty ctl = Inr s)" by blast
    show ?thesis
    proof (intro exI [of _ "s # adds"] conjI)
      show "self' = self\<lparr>change_detected := change_detected self \<or> s # adds \<noteq> [],
                       deviceChange := deviceChange self @ s # adds\<rparr>"
        unfolding a(1) by (simp add: self1_def)
      show "\<forall>x\<in>set (s # adds). \<exists>ctl\<in>set (ctl # ctls). create_scsi_controller_bus ty ctl = Inr x"
        using a(2) s by auto
      show "\<forall>c\<in>set (ctl # ctls). c \<in> fst ` set (ctl_units self) \<or> get_vm_ctl_n devs c \<noteq> None
            \<or> (\<exists>x\<in>set (s # adds). create_scsi_controller_bus ty c = Inr x)"
        using a(3) s by (auto simp: self1_def)
    qed
  qed
qed

subsection \<open>The attach loop\<close>

lemma create_rdm_cases:
  assumes "create_rdm lun vm_ds rdm_file self = Inr self'"
  shows "(exhausted self \<and> self' = self)
       \<or> (\<exists>ctl u occupied scsi_key.
             ctl \<in> set (ctl_list self)
           \<and> map_of (disk_units self) ctl = Some occupied
           \<and> map_of (ctl_slot_key self) ctl = Some scsi_key
           \<and> self' = self\<lparr> disk_units := AList.update ctl (insert u occupied) (disk_units self),
                            deviceChange :=
                              deviceChange self
                              @ [AddDisk (- 100 - u) scsi_key u (uuid lun) (deviceName lun)
                                   vm_ds rdm_file],
                            change_detected := True \<rparr>)"
  using create_rdm_result [OF assms]
proof
  assume "exhausted self \<and> self' = self"
  then show ?thesis by simp
next
  assume "\<exists>pre ctl post u occupied scsi_key.
            ctl_list self = pre @ ctl # post
          \<and> (\<forall>c\<in>set pre. \<forall>u'. 0 \<le> u' \<and> u' \<le> ctl_max self
                \<longrightarrow> is_occupied (disk_units self) c u')
          \<and> map_of (disk_units self) ctl = Some occupied
          \<and> 0 \<le> u \<and> u \<le> ctl_max self \<and> u \<notin> occupied
          \<and> (\<forall>u'. 0 \<le> u' \<and> u' < u \<longrightarrow> u' \<in> occupied)
          \<and> map_of (ctl_slot_key self) ctl = Some scsi_key
          \<and> self' = self\<lparr> disk_units := AList.update ctl (insert u occupied) (disk_units self),
                           deviceChange :=
                             deviceChange self @ [create_rdm_disk scsi_key lun vm_ds rdm_file u],
                           change_detected := True \<rparr>"
  then obtain pre ctl post u occupied scsi_key where
    "ctl_list self = pre @ ctl # post" "map_of (disk_units self) ctl = Some occupied"
    "map_of (ctl_slot_key self) ctl = Some scsi_key"
    "self' = self\<lparr> disk_units := AList.update ctl (insert u occupied) (disk_units self),
                           deviceChange :=
                             deviceChange self @ [create_rdm_disk scsi_key lun vm_ds rdm_file u],
                           change_detected := True \<rparr>" by blast
  then have "ctl \<in> set (ctl_list self)
           \<and> map_of (disk_units self) ctl = Some occupied
           \<and> map_of (ctl_slot_key self) ctl = Some scsi_key
           \<and> self' = self\<lparr> disk_units := AList.update ctl (insert u occupied) (disk_units self),
                            deviceChange :=
                              deviceChange self
                              @ [AddDisk (- 100 - u) scsi_key u (uuid lun) (deviceName lun)
                                   vm_ds rdm_file],
                            change_detected := True \<rparr>"
    by (simp add: create_rdm_disk_def)
  then show ?thesis by blast
qed

lemma attach_loop_Cons:
  assumes "attach_loop (wwid # ws) luns vm_ds path self = Inr self'"
  shows "\<exists>lun. find_lun luns wwid = Some lun
         \<and> (((\<exists>rdm\<in>set (rdm_disks self). uuid lun = lunUuid rdm)
               \<and> attach_loop ws luns vm_ds path self = Inr self')
            \<or> (\<not> (\<exists>rdm\<in>set (rdm_disks self). uuid lun = lunUuid rdm)
               \<and> (\<exists>rdmid self1. re_split_wwn (canonicalName lun) = Some rdmid
                    \<and> create_rdm lun vm_ds
                         (str_replace path ''.vmx'' (''_RDM'' @ rdmid @ ''.vmdk'')) self
                       = Inr self1
                    \<and> attach_loop ws luns vm_ds path self1 = Inr self')))"
  using assms by (auto split: option.splits sum.splits if_splits)

lemma attach_loop_invariant:
  assumes "attach_loop ws luns vm_ds path self = Inr self'" "P self"
      and "\<And>s lun file s'. P s \<Longrightarrow> create_rdm lun vm_ds file s = Inr s' \<Longrightarrow> P s'"
  shows "P self'"
  using assms(1,2)
proof (induction ws arbitrary: self)
  case Nil
  then show ?case by simp
next
  case (Cons wwid ws)
  from attach_loop_Cons [OF Cons.prems(1)] obtain lun where
    "(attach_loop ws luns vm_ds path self = Inr self')
     \<or> (\<exists>rdmid self1. create_rdm lun vm_ds
                         (str_replace path ''.vmx'' (''_RDM'' @ rdmid @ ''.vmdk'')) self
                       = Inr self1
                    \<and> attach_loop ws luns vm_ds path self1 = Inr self')" by blast
  then show ?case
  proof
    assume "attach_loop ws luns vm_ds path self = Inr self'"
    from Cons.IH [OF this Cons.prems(2)] show ?thesis .
  next
    assume "\<exists>rdmid self1. create_rdm lun vm_ds
                         (str_replace path ''.vmx'' (''_RDM'' @ rdmid @ ''.vmdk'')) self
                       = Inr self1
                    \<and> attach_loop ws luns vm_ds path self1 = Inr self'"
    then obtain rdmid self1 where
      c: "create_rdm lun vm_ds (str_replace path ''.vmx'' (''_RDM'' @ rdmid @ ''.vmdk'')) self
          = Inr self1" and r: "attach_loop ws luns vm_ds path self1 = Inr self'" by blast
    from assms(3) [OF Cons.prems(2) c] have "P self1" .
    from Cons.IH [OF r this] show ?thesis .
  qed
qed

lemma create_rdm_fields:
  assumes "create_rdm lun vm_ds file s = Inr s'"
  shows "rdm_disks s' = rdm_disks s" "rdm_state s' = rdm_state s" "ctl_list s' = ctl_list s"
    "ctl_max s' = ctl_max s" "ctl_slot_key s' = ctl_slot_key s" "ctl_key_slot s' = ctl_key_slot s"
    "ctl_units s' = ctl_units s" "requested s' = requested s" "ctl_type s' = ctl_type s"
  using create_rdm_cases [OF assms] by auto

lemma attach_loop_fields:
  assumes "attach_loop ws luns vm_ds path self = Inr self'"
  shows "rdm_disks self' = rdm_disks self" "rdm_state self' = rdm_state self"
    "ctl_list self' = ctl_list self" "ctl_max self' = ctl_max self"
    "ctl_slot_key self' = ctl_slot_key self" "ctl_key_slot self' = ctl_key_slot self"
    "ctl_units self' = ctl_units self" "requested self' = requested self"
    "ctl_type self' = ctl_type self"
proof -
  have "rdm_disks self' = rdm_disks self \<and> rdm_state self' = rdm_state self
      \<and> ctl_list self' = ctl_list self \<and> ctl_max self' = ctl_max self
      \<and> ctl_slot_key self' = ctl_slot_key self \<and> ctl_key_slot self' = ctl_key_slot self
      \<and> ctl_units self' = ctl_units self \<and> requested self' = requested self
      \<and> ctl_type self' = ctl_type self"
    by (rule attach_loop_invariant [OF assms]) (simp_all add: create_rdm_fields)
  then show "rdm_disks self' = rdm_disks self" "rdm_state self' = rdm_state self"
    "ctl_list self' = ctl_list self" "ctl_max self' = ctl_max self"
    "ctl_slot_key self' = ctl_slot_key self" "ctl_key_slot self' = ctl_key_slot self"
    "ctl_units self' = ctl_units self" "requested self' = requested self"
    "ctl_type self' = ctl_type self" by simp_all
qed

text \<open>While no change has been detected, nothing has been added to the change list.\<close>

lemma attach_loop_quiet:
  assumes "attach_loop ws luns vm_ds path self = Inr self'"
      and "\<not> change_detected self \<longrightarrow> deviceChange self = []"
  shows "\<not> change_detected self' \<longrightarrow> deviceChange self' = []"
  by (rule attach_loop_invariant [OF assms(1), where P = "\<lambda>s. \<not> change_detected s \<longrightarrow> deviceChange s = []"])
     (use assms(2) in simp, use create_rdm_cases in fastforce)

text \<open>
  Every operation the loop adds attaches the LUN found for a requested WWID to the
  controller that \<open>ctl_slot_key\<close> names for an allowed bus.
\<close>

lemma attach_loop_adds:
  assumes "attach_loop ws luns vm_ds path self = Inr self'" "s \<in> set (deviceChange self')"
  shows "s \<in> set (deviceChange self)
       \<or> (\<exists>k ck u lun dn f ctl wwid. s = AddDisk k ck u (uuid lun) dn vm_ds f
            \<and> ctl \<in> set (ctl_list self) \<and> map_of (ctl_slot_key self) ctl = Some ck
            \<and> wwid \<in> set ws \<and> find_lun luns wwid = Some lun)"
  using assms
proof (induction ws arbitrary: self)
  case Nil
  then show ?case by simp
next
  case (Cons wwid ws)
  from attach_loop_Cons [OF Cons.prems(1)] obtain lun where lun: "find_lun luns wwid = Some lun"
    and alt: "(attach_loop ws luns vm_ds path self = Inr self')
     \<or> (\<exists>rdmid self1. create_rdm lun vm_ds
                         (str_replace path ''.vmx'' (''_RDM'' @ rdmid @ ''.vmdk'')) self
                       = Inr self1
                    \<and> attach_loop ws luns vm_ds path self1 = Inr self')" by blast
  from alt show ?case
  proof
    assume "attach_loop ws luns vm_ds path self = Inr self'"
    from Cons.IH [OF this Cons.prems(2)] show ?thesis
    proof
      assume "s \<in> set (deviceChange self)"
      then show ?thesis by simp
    next
      assume "\<exists>k ck u lun dn f ctl wwid. s = AddDisk k ck u (uuid lun) dn vm_ds f
            \<and> ctl \<in> set (ctl_list self) \<and> map_of (ctl_slot_key self) ctl = Some ck
            \<and> wwid \<in> set ws \<and> find_lun luns wwid = Some lun"
      then obtain k ck u lun' dn f ctl wwid' where n:
        "s = AddDisk k ck u (uuid lun') dn vm_ds f" "ctl \<in> set (ctl_list self)"
        "map_of (ctl_slot_key self) ctl = Some ck" "wwid' \<in> set ws"
        "find_lun luns wwid' = Some lun'" by blast
      from n(4) have "wwid' \<in> set (wwid # ws)" by simp
      with n(1,2,3,5) show ?thesis by blast
    qed
  next
    assume "\<exists>rdmid self1. create_rdm lun vm_ds
                         (str_replace path ''.vmx'' (''_RDM'' @ rdmid @ ''.vmdk'')) self
                       = Inr self1
                    \<and> attach_loop ws luns vm_ds path self1 = Inr self'"
    then obtain rdmid self1 where
      c: "create_rdm lun vm_ds (str_replace path ''.vmx'' (''_RDM'' @ rdmid @ ''.vmdk'')) self
          = Inr self1" and r: "attach_loop ws luns vm_ds path self1 = Inr self'" by blast
    note f = create_rdm_fields [OF c]
    from Cons.IH [OF r Cons.prems(2)] consider
        (old) "s \<in> set (deviceChange self1)"
      | (new) "\<exists>k ck u lun dn f ctl wwid. s = AddDisk k ck u (uuid lun) dn vm_ds f
            \<and> ctl \<in> set (ctl_list self) \<and> map_of (ctl_slot_key self) ctl = Some ck
            \<and> wwid \<in> set ws \<and> find_lun luns wwid = Some lun"
      unfolding f by blast
    then show ?thesis
    proof cases
      case new
      then obtain k ck u lun' dn f ctl wwid' where n:
        "s = AddDisk k ck u (uuid lun') dn vm_ds f" "ctl \<in> set (ctl_list self)"
        "map_of (ctl_slot_key self) ctl = Some ck" "wwid' \<in> set ws"
        "find_lun luns wwid' = Some lun'" by blast
      from n(4) have "wwid' \<in> set (wwid # ws)" by simp
      with n(1,2,3,5) show ?thesis by blast
    next
      case old
      from create_rdm_cases [OF c] show ?thesis
      proof
        assume "exhausted self \<and> self1 = self"
        with old show ?thesis by simp
      next
        assume "\<exists>ctl u occupied scsi_key.
             ctl \<in> set (ctl_list self)
           \<and> map_of (disk_units self) ctl = Some occupied
           \<and> map_of (ctl_slot_key self) ctl = Some scsi_key
           \<and> self1 = self\<lparr> disk_units := AList.update ctl (insert u occupied) (disk_units self),
                            deviceChange :=
                              deviceChange self
                              @ [AddDisk (- 100 - u) scsi_key u (uuid lun) (deviceName lun)
                                   vm_ds (str_replace path ''.vmx'' (''_RDM'' @ rdmid @ ''.vmdk''))],
                            change_detected := True \<rparr>"
        then obtain ctl u occupied scsi_key where n:
          "ctl \<in> set (ctl_list self)" "map_of (ctl_slot_key self) ctl = Some scsi_key"
          "deviceChange self1 = deviceChange self
                              @ [AddDisk (- 100 - u) scsi_key u (uuid lun) (deviceName lun)
                                   vm_ds (str_replace path ''.vmx'' (''_RDM'' @ rdmid @ ''.vmdk''))]"
          by auto
        from old n(3) consider "s \<in> set (deviceChange self)"
          | "s = AddDisk (- 100 - u) scsi_key u (uuid lun) (deviceName lun)
                                   vm_ds (str_replace path ''.vmx'' (''_RDM'' @ rdmid @ ''.vmdk''))"
          by auto
        then show ?thesis
        proof cases
          case 1
          then show ?thesis by simp
        next
          case 2
          have "wwid \<in> set (wwid # ws)" by simp
          with 2 n(1,2) lun show ?thesis by blast
        qed
      qed
    qed
  qed
qed


lemma attach_loop_keeps:
  assumes "attach_loop ws luns vm_ds path self = Inr self'" "s \<in> set (deviceChange self)"
  shows "s \<in> set (deviceChange self')"
  by (rule attach_loop_invariant [OF assms(1), where P = "\<lambda>h. s \<in> set (deviceChange h)"])
     (use assms(2) in simp, use create_rdm_cases in fastforce)

lemma is_occupied_update:
  "map_of units ctl = Some occupied \<Longrightarrow>
   is_occupied (AList.update ctl (insert u0 occupied) units) c u
   \<longleftrightarrow> is_occupied units c u \<or> (c = ctl \<and> u = u0)"
  by (auto simp: is_occupied_def update_conv')

text \<open>
  A unit that is occupied when the loop ends was occupied when it started, or the loop
  added a disk on that unit of the controller that \<open>ctl_slot_key\<close> names for the bus.
\<close>

lemma attach_loop_occupied:
  assumes "attach_loop ws luns vm_ds path self = Inr self'" "is_occupied (disk_units self') c u"
  shows "is_occupied (disk_units self) c u
       \<or> (\<exists>k ck lu dn d f. map_of (ctl_slot_key self) c = Some ck
            \<and> AddDisk k ck u lu dn d f \<in> set (deviceChange self'))"
  using assms
proof (induction ws arbitrary: self)
  case Nil
  then show ?case by simp
next
  case (Cons wwid ws)
  from attach_loop_Cons [OF Cons.prems(1)] obtain lun where
    alt: "(attach_loop ws luns vm_ds path self = Inr self')
     \<or> (\<exists>rdmid self1. create_rdm lun vm_ds
                         (str_replace path ''.vmx'' (''_RDM'' @ rdmid @ ''.vmdk'')) self
                       = Inr self1
                    \<and> attach_loop ws luns vm_ds path self1 = Inr self')" by blast
  from alt show ?case
  proof
    assume "attach_loop ws luns vm_ds path self = Inr self'"
    from Cons.IH [OF this Cons.prems(2)] show ?thesis .
  next
    assume "\<exists>rdmid self1. create_rdm lun vm_ds
                         (str_replace path ''.vmx'' (''_RDM'' @ rdmid @ ''.vmdk'')) self
                       = Inr self1
                    \<and> attach_loop ws luns vm_ds path self1 = Inr self'"
    then obtain rdmid self1 where
      c: "create_rdm lun vm_ds (str_replace path ''.vmx'' (''_RDM'' @ rdmid @ ''.vmdk'')) self
          = Inr self1" and r: "attach_loop ws luns vm_ds path self1 = Inr self'" by blast
    note f = create_rdm_fields [OF c]
    from Cons.IH [OF r Cons.prems(2)] consider
        (occ) "is_occupied (disk_units self1) c u"
      | (add) "\<exists>k ck lu dn d f. map_of (ctl_slot_key self) c = Some ck
            \<and> AddDisk k ck u lu dn d f \<in> set (deviceChange self')"
      unfolding f by blast
    then show ?thesis
    proof cases
      case add
      then show ?thesis by simp
    next
      case occ
      from create_rdm_cases [OF c] show ?thesis
      proof
        assume "exhausted self \<and> self1 = self"
        with occ show ?thesis by simp
      next
        assume "\<exists>ctl u occupied scsi_key.
             ctl \<in> set (ctl_list self)
           \<and> map_of (disk_units self) ctl = Some occupied
           \<and> map_of (ctl_slot_key self) ctl = Some scsi_key
           \<and> self1 = self\<lparr> disk_units := AList.update ctl (insert u occupied) (disk_units self),
                            deviceChange :=
                              deviceChange self
                              @ [AddDisk (- 100 - u) scsi_key u (uuid lun) (deviceName lun)
                                   vm_ds (str_replace path ''.vmx'' (''_RDM'' @ rdmid @ ''.vmdk''))],
                            change_detected := True \<rparr>"
        then obtain ctl u0 occupied scsi_key where n:
          "map_of (disk_units self) ctl = Some occupied"
          "map_of (ctl_slot_key self) ctl = Some scsi_key"
          "disk_units self1 = AList.update ctl (insert u0 occupied) (disk_units self)"
          "deviceChange self1 = deviceChange self
                              @ [AddDisk (- 100 - u0) scsi_key u0 (uuid lun) (deviceName lun)
                                   vm_ds (str_replace path ''.vmx'' (''_RDM'' @ rdmid @ ''.vmdk''))]"
          by auto
        from occ have "is_occupied (disk_units self) c u \<or> (c = ctl \<and> u = u0)"
          unfolding n(3) is_occupied_update [OF n(1)] .
        then show ?thesis
        proof
          assume "is_occupied (disk_units self) c u"
          then show ?thesis by simp
        next
          assume e: "c = ctl \<and> u = u0"
          have "AddDisk (- 100 - u0) scsi_key u0 (uuid lun) (deviceName lun)
                                   vm_ds (str_replace path ''.vmx'' (''_RDM'' @ rdmid @ ''.vmdk''))
                \<in> set (deviceChange self1)" unfolding n(4) by simp
          from attach_loop_keeps [OF r this] e n(2) show ?thesis by blast
        qed
      qed
    qed
  qed
qed

lemma attach_loop_exhausted:
  "exhausted self \<Longrightarrow> attach_loop ws luns vm_ds path self = Inr self' \<Longrightarrow> self' = self"
proof (induction ws)
  case Nil
  then show ?case by simp
next
  case (Cons wwid ws)
  from attach_loop_Cons [OF Cons.prems(2)] obtain lun where
    alt: "(attach_loop ws luns vm_ds path self = Inr self')
     \<or> (\<exists>rdmid self1. create_rdm lun vm_ds
                         (str_replace path ''.vmx'' (''_RDM'' @ rdmid @ ''.vmdk'')) self
                       = Inr self1
                    \<and> attach_loop ws luns vm_ds path self1 = Inr self')" by blast
  have "attach_loop ws luns vm_ds path self = Inr self'"
    using alt create_rdm_exhausted [OF Cons.prems(1)] by auto
  from Cons.IH [OF Cons.prems(1) this] show ?case .
qed

text \<open>
  A requested LUN that was not attached when the loop started has an attach operation in
  the change list, or the loop ended with every unit of every allowed bus occupied.
\<close>

lemma attach_loop_unattached:
  assumes "attach_loop ws luns vm_ds path self = Inr self'" "wwid \<in> set ws"
      and "find_lun luns wwid = Some lun"
      and "\<not> (\<exists>rdm\<in>set (rdm_disks self). uuid lun = lunUuid rdm)"
  shows "(\<exists>k ck u dn d f. AddDisk k ck u (uuid lun) dn d f \<in> set (deviceChange self'))
         \<or> exhausted self'"
  using assms(1,2,4)
proof (induction ws arbitrary: self)
  case Nil
  then show ?case by simp
next
  case (Cons w ws)
  from attach_loop_Cons [OF Cons.prems(1)] obtain lun0 where lun0: "find_lun luns w = Some lun0"
    and alt: "((\<exists>rdm\<in>set (rdm_disks self). uuid lun0 = lunUuid rdm)
               \<and> attach_loop ws luns vm_ds path self = Inr self')
            \<or> (\<not> (\<exists>rdm\<in>set (rdm_disks self). uuid lun0 = lunUuid rdm)
               \<and> (\<exists>rdmid self1. re_split_wwn (canonicalName lun0) = Some rdmid
                    \<and> create_rdm lun0 vm_ds
                         (str_replace path ''.vmx'' (''_RDM'' @ rdmid @ ''.vmdk'')) self
                       = Inr self1
                    \<and> attach_loop ws luns vm_ds path self1 = Inr self'))" by blast
  from alt show ?case
  proof
    assume a: "(\<exists>rdm\<in>set (rdm_disks self). uuid lun0 = lunUuid rdm)
               \<and> attach_loop ws luns vm_ds path self = Inr self'"
    have "w \<noteq> wwid" using a lun0 assms(3) Cons.prems(3) by auto
    with Cons.prems(2) have "wwid \<in> set ws" by simp
    from Cons.IH [OF _ this Cons.prems(3)] a show ?thesis by simp
  next
    assume "\<not> (\<exists>rdm\<in>set (rdm_disks self). uuid lun0 = lunUuid rdm)
               \<and> (\<exists>rdmid self1. re_split_wwn (canonicalName lun0) = Some rdmid
                    \<and> create_rdm lun0 vm_ds
                         (str_replace path ''.vmx'' (''_RDM'' @ rdmid @ ''.vmdk'')) self
                       = Inr self1
                    \<and> attach_loop ws luns vm_ds path self1 = Inr self')"
    then obtain rdmid self1 where
      c: "create_rdm lun0 vm_ds (str_replace path ''.vmx'' (''_RDM'' @ rdmid @ ''.vmdk'')) self
          = Inr self1" and r: "attach_loop ws luns vm_ds path self1 = Inr self'" by blast
    note f = create_rdm_fields [OF c]
    show ?thesis
    proof (cases "wwid \<in> set ws")
      case True
      have "\<not> (\<exists>rdm\<in>set (rdm_disks self1). uuid lun = lunUuid rdm)"
        unfolding f using Cons.prems(3) .
      from Cons.IH [OF r True this] show ?thesis .
    next
      case False
      with Cons.prems(2) have "w = wwid" by simp
      with lun0 assms(3) have l: "lun0 = lun" by simp
      from create_rdm_cases [OF c] show ?thesis
      proof
        assume e: "exhausted self \<and> self1 = self"
        with r have "attach_loop ws luns vm_ds path self = Inr self'" by simp
        from attach_loop_exhausted [OF _ this] e show ?thesis by simp
      next
        assume "\<exists>ctl u occupied scsi_key.
             ctl \<in> set (ctl_list self)
           \<and> map_of (disk_units self) ctl = Some occupied
           \<and> map_of (ctl_slot_key self) ctl = Some scsi_key
           \<and> self1 = self\<lparr> disk_units := AList.update ctl (insert u occupied) (disk_units self),
                            deviceChange :=
                              deviceChange self
                              @ [AddDisk (- 100 - u) scsi_key u (uuid lun0) (deviceName lun0)
                                   vm_ds (str_replace path ''.vmx'' (''_RDM'' @ rdmid @ ''.vmdk''))],
                            change_detected := True \<rparr>"
        then obtain u0 scsi_key where
          "deviceChange self1 = deviceChange self
                              @ [AddDisk (- 100 - u0) scsi_key u0 (uuid lun0) (deviceName lun0)
                                   vm_ds (str_replace path ''.vmx'' (''_RDM'' @ rdmid @ ''.vmdk''))]"
          by auto
        then have "AddDisk (- 100 - u0) scsi_key u0 (uuid lun0) (deviceName lun0)
                                   vm_ds (str_replace path ''.vmx'' (''_RDM'' @ rdmid @ ''.vmdk''))
                \<in> set (deviceChange self1)" by simp
        from attach_loop_keeps [OF r this] l show ?thesis by blast
      qed
    qed
  qed
qed

lemma attach_loop_resolved:
  assumes "attach_loop ws luns vm_ds path self = Inr self'" "wwid \<in> set ws"
  shows "\<exists>lun. find_lun luns wwid = Some lun
           \<and> ((\<exists>rdm\<in>set (rdm_disks self). uuid lun = lunUuid rdm)
              \<or> re_split_wwn (canonicalName lun) \<noteq> None)"
  using assms
proof (induction ws arbitrary: self)
  case Nil
  then show ?case by simp
next
  case (Cons w ws)
  from attach_loop_Cons [OF Cons.prems(1)] obtain lun0 where lun0: "find_lun luns w = Some lun0"
    and alt: "((\<exists>rdm\<in>set (rdm_disks self). uuid lun0 = lunUuid rdm)
               \<and> attach_loop ws luns vm_ds path self = Inr self')
            \<or> (\<not> (\<exists>rdm\<in>set (rdm_disks self). uuid lun0 = lunUuid rdm)
               \<and> (\<exists>rdmid self1. re_split_wwn (canonicalName lun0) = Some rdmid
                    \<and> create_rdm lun0 vm_ds
                         (str_replace path ''.vmx'' (''_RDM'' @ rdmid @ ''.vmdk'')) self
                       = Inr self1
                    \<and> attach_loop ws luns vm_ds path self1 = Inr self'))" by blast
  show ?case
  proof (cases "w = wwid")
    case True
    with lun0 alt show ?thesis by auto
  next
    case False
    with Cons.prems(2) have mem: "wwid \<in> set ws" by simp
    from alt show ?thesis
    proof
      assume "(\<exists>rdm\<in>set (rdm_disks self). uuid lun0 = lunUuid rdm)
               \<and> attach_loop ws luns vm_ds path self = Inr self'"
      then have "attach_loop ws luns vm_ds path self = Inr self'" by simp
      from Cons.IH [OF this mem] show ?thesis .
    next
      assume "\<not> (\<exists>rdm\<in>set (rdm_disks self). uuid lun0 = lunUuid rdm)
               \<and> (\<exists>rdmid self1. re_split_wwn (canonicalName lun0) = Some rdmid
                    \<and> create_rdm lun0 vm_ds
                         (str_replace path ''.vmx'' (''_RDM'' @ rdmid @ ''.vmdk'')) self
                       = Inr self1
                    \<and> attach_loop ws luns vm_ds path self1 = Inr self')"
      then obtain rdmid self1 where
        c: "create_rdm lun0 vm_ds (str_replace path ''.vmx'' (''_RDM'' @ rdmid @ ''.vmdk'')) self
            = Inr self1" and r: "attach_loop ws luns vm_ds path self1 = Inr self'" by blast
      from Cons.IH [OF r mem] show ?thesis unfolding create_rdm_fields [OF c] .
    qed
  qed
qed

text \<open>
  When every requested LUN is attached, or would need a slot while none is free, the loop
  changes nothing.
\<close>

lemma attach_loop_settled:
  "\<forall>wwid\<in>set ws. \<exists>lun. find_lun luns wwid = Some lun
      \<and> ((\<exists>rdm\<in>set (rdm_disks self). uuid lun = lunUuid rdm)
         \<or> (re_split_wwn (canonicalName lun) \<noteq> None \<and> exhausted self))
   \<Longrightarrow> attach_loop ws luns vm_ds path self = Inr self"
proof (induction ws)
  case Nil
  then show ?case by simp
next
  case (Cons w ws)
  then have ih: "attach_loop ws luns vm_ds path self = Inr self" by simp
  from Cons.prems obtain lun where lun: "find_lun luns w = Some lun"
    and alt: "(\<exists>rdm\<in>set (rdm_disks self). uuid lun = lunUuid rdm)
         \<or> (re_split_wwn (canonicalName lun) \<noteq> None \<and> exhausted self)" by auto
  show ?case
  proof (cases "\<exists>rdm\<in>set (rdm_disks self). uuid lun = lunUuid rdm")
    case True
    with lun ih show ?thesis by simp
  next
    case False
    with alt obtain rdmid where s: "re_split_wwn (canonicalName lun) = Some rdmid"
      and e: "exhausted self" by auto
    from False lun s ih create_rdm_exhausted [OF e] show ?thesis by simp
  qed
qed

subsection \<open>The occupancy that \<open>get_rdm_info\<close> computes\<close>

lemma scan_rdms_occupied:
  "scan_rdms rdms req ks units n = Inr (units', n') \<Longrightarrow>
   is_occupied units' c u
   \<longleftrightarrow> is_occupied units c u
       \<or> (\<exists>d\<in>set rdms. map_of ks (controllerKey d) = Some c \<and> unitNumber d = u)"
proof (induction rdms arbitrary: units n)
  case Nil
  then show ?case by simp
next
  case (Cons disk rdms)
  from Cons.prems obtain ctl_n occupied where
    k: "map_of ks (controllerKey disk) = Some ctl_n" and o: "map_of units ctl_n = Some occupied"
    by (auto split: option.splits)
  with Cons.prems have
    "scan_rdms rdms req ks (AList.update ctl_n (insert (unitNumber disk) occupied) units)
       (if wwid_matches disk req then n + 1 else n) = Inr (units', n')" by simp
  from Cons.IH [OF this] show ?case
    unfolding is_occupied_update [OF o] using k by auto
qed

lemma reserved_occupied:
  "is_occupied (fold (\<lambda>c. AList.update c {7}) cs []) c u \<longleftrightarrow> c \<in> set cs \<and> u = 7"
  by (simp add: is_occupied_def fold_update_lookup)

lemma get_rdm_info_occupied:
  assumes "get_rdm_info rdms self = Inr self'" "disk_units self = []"
  shows "is_occupied (disk_units self') c u
         \<longleftrightarrow> (c \<in> fst ` set (ctl_units self) \<and> u = 7)
             \<or> (\<exists>d\<in>set rdms. map_of (ctl_key_slot self) (controllerKey d) = Some c
                  \<and> unitNumber d = u)"
proof -
  from assms obtain units n where
    s: "scan_rdms rdms (requested self) (ctl_key_slot self)
          (fold (\<lambda>c. AList.update c {7}) (map fst (ctl_units self)) []) 0 = Inr (units, n)"
    and u: "disk_units self' = units"
    by (auto simp: get_rdm_info_def Let_def split: sum.splits prod.splits if_splits)
  show ?thesis
    unfolding u scan_rdms_occupied [OF s] reserved_occupied by simp
qed


subsection \<open>A present run against a server that carries out every change\<close>

lemma get_rdm_info_within_capacity:
  assumes "get_rdm_info rdms self = Inr self'" "rdm_state self = ''present''"
  shows "all_disk self rdms \<le> free_bays self"
proof -
  from assms(1) obtain units n where
    s: "scan_rdms rdms (requested self) (ctl_key_slot self)
          (fold (\<lambda>c. AList.update c {7}) (map fst (ctl_units self)) (disk_units self)) 0
        = Inr (units, n)"
    by (auto simp: get_rdm_info_def Let_def split: sum.splits prod.splits if_splits)
  from scan_rdms_count [OF s] have n: "n = matched_disks rdms (requested self)" by simp
  from assms s show ?thesis
    unfolding n by (simp add: get_rdm_info_def Let_def all_disk_def free_bays_def split: if_splits)
qed

lemma add_disks_obedient:
  assumes "returned (add_disks obedient_server vm_obj sent applied self) = Inr r"
  shows "\<exists>self4 self5.
           get_rdm_info (rdm_devices (device vm_obj))
             (self\<lparr>deviceChange := [], rdm_disks := rdm_devices (device vm_obj)\<rparr>) = Inr self4
         \<and> configure_rdm_disks vm_obj self4 = Inr self5
         \<and> vm_after (add_disks obedient_server vm_obj sent applied self)
             = (if change_detected self5
                then vm_obj\<lparr>device := foldl realise (device vm_obj) (deviceChange self5)\<rparr>
                else vm_obj)"
proof (cases "get_rdm_info (rdm_devices (device vm_obj))
             (self\<lparr>deviceChange := [], rdm_disks := rdm_devices (device vm_obj)\<rparr>)")
  case (Inl e)
  with assms show ?thesis by (simp add: add_disks_def Let_def)
next
  case g: (Inr self4)
  show ?thesis
  proof (cases "configure_rdm_disks vm_obj self4")
    case (Inl e)
    with assms g show ?thesis by (simp add: add_disks_def Let_def)
  next
    case c: (Inr self5)
    have "vm_after (add_disks obedient_server vm_obj sent applied self)
             = (if change_detected self5
                then vm_obj\<lparr>device := foldl realise (device vm_obj) (deviceChange self5)\<rparr>
                else vm_obj)"
      using g c by (simp add: add_disks_def Let_def apply_changes_obedient truthy_def)
    with g c show ?thesis by simp
  qed
qed

lemma add_disks_unchanged:
  assumes "get_rdm_info (rdm_devices (device vm_obj))
             (self\<lparr>deviceChange := [], rdm_disks := rdm_devices (device vm_obj)\<rparr>) = Inr self4"
      and "configure_rdm_disks vm_obj self4 = Inr self5" "\<not> change_detected self5"
  shows "add_disks task vm_obj sent applied self
         = \<lparr>returned = Inr \<lparr>changed = applied, failed = False, msg = None\<rparr>,
            vm_after = vm_obj, submitted = sent\<rparr>"
  using assms by (simp add: add_disks_def Let_def)

lemma configure_present:
  assumes "rdm_state self = ''present''" "configure_rdm_disks vm_obj self = Inr self'"
  shows "\<exists>luns hosts ds dss. host_view vm_obj = Some (luns # hosts)
           \<and> datastore vm_obj = ds # dss
           \<and> attach_loop (requested self) luns ds (vmPathName vm_obj) self = Inr self'"
proof -
  from assms(2) obtain luns where h: "get_host_by_vm vm_obj = Inr luns"
    by (cases "get_host_by_vm vm_obj") (simp_all add: configure_rdm_disks_def)
  from assms(2) h obtain ds where d: "get_datastore_by_vm vm_obj = Inr ds"
    by (cases "get_datastore_by_vm vm_obj") (simp_all add: configure_rdm_disks_def)
  from h obtain hosts where hv: "host_view vm_obj = Some (luns # hosts)"
    by (auto simp: get_host_by_vm_def split: option.splits list.splits)
  from d obtain dss where dv: "datastore vm_obj = ds # dss"
    by (auto simp: get_datastore_by_vm_def split: list.splits)
  from assms h d obtain s where
    a: "attach_loop (requested self) luns ds (vmPathName vm_obj) self = Inr s"
    by (cases "attach_loop (requested self) luns ds (vmPathName vm_obj) self")
       (simp_all add: configure_rdm_disks_def)
  from attach_loop_fields(2) [OF a] assms(1) have "rdm_state s = ''present''" by simp
  with assms h d a have "s = self'" by (simp add: configure_rdm_disks_def)
  with hv dv a show ?thesis by blast
qed

lemma configure_present_settled:
  assumes "rdm_state self = ''present''" "host_view vm_obj = Some (luns # hosts)"
      and "datastore vm_obj = ds # dss"
      and "attach_loop (requested self) luns ds (vmPathName vm_obj) self = Inr self"
  shows "configure_rdm_disks vm_obj self = Inr self"
  using assms
  by (simp add: configure_rdm_disks_def get_host_by_vm_def get_datastore_by_vm_def)

lemma run_present_obedient:
  assumes "state p = ''present''" "returned (run obedient_server p vm_obj) = Inr r"
  shows "\<exists>self3.
      check_types_loop
        (ctl_units (vm_get_ctls (device vm_obj) (check_maximums (vm_version vm_obj) (init p))))
        (rdm_controller_bus p) (rdm_controller_type p) = Inr ()
    \<and> create_new_loop (rdm_controller_bus p) (rdm_controller_type p) (device vm_obj)
        ((vm_get_ctls (device vm_obj) (check_maximums (vm_version vm_obj) (init p)))
           \<lparr>deviceChange := []\<rparr>) = Inr self3
    \<and> run obedient_server p vm_obj
       = (if change_detected self3
          then add_disks obedient_server
                 (vm_obj\<lparr>device := foldl realise (device vm_obj) (deviceChange self3)\<rparr>)
                 [deviceChange self3] True
                 (vm_get_ctls (foldl realise (device vm_obj) (deviceChange self3)) self3)
          else add_disks obedient_server vm_obj [] False self3)"
proof -
  let ?init0 = "check_maximums (vm_version vm_obj) (init p)"
  let ?self1 = "vm_get_ctls (device vm_obj) ?init0"
  let ?self2 = "?self1\<lparr>deviceChange := []\<rparr>"
  have f1: "rdm_state ?self1 = ''present''" "ctl_list ?self1 = rdm_controller_bus p"
    "ctl_type ?self1 = rdm_controller_type p"
    using assms(1) by (simp_all add: vm_get_ctls_frame check_maximums_def init_def)
  show ?thesis
  proof (cases "check_types_loop (ctl_units ?self1) (rdm_controller_bus p) (rdm_controller_type p)")
    case (Inl e)
    then have "ctl_check_types (ctl_type ?self1) ?self2 = Inl e"
      by (simp add: ctl_check_types_def f1)
    with assms(2) f1(1) show ?thesis by (simp add: run_def reconfigure_vm_def Let_def)
  next
    case chk: (Inr x)
    then have c2: "ctl_check_types (ctl_type ?self1) ?self2 = Inr ?self2"
      by (simp add: ctl_check_types_def f1)
    show ?thesis
    proof (cases "create_new_loop (rdm_controller_bus p) (rdm_controller_type p) (device vm_obj)
                    ?self2")
      case (Inl e)
      then have "ctl_create_new (ctl_type ?self2) (device vm_obj) ?self2 = Inl e"
        by (simp add: ctl_create_new_def f1)
      with assms(2) f1(1) c2 show ?thesis by (simp add: run_def reconfigure_vm_def Let_def)
    next
      case n: (Inr self3)
      then have c3: "ctl_create_new (ctl_type ?self2) (device vm_obj) ?self2 = Inr self3"
        by (simp add: ctl_create_new_def f1)
      have "run obedient_server p vm_obj
       = (if change_detected self3
          then add_disks obedient_server
                 (vm_obj\<lparr>device := foldl realise (device vm_obj) (deviceChange self3)\<rparr>)
                 [deviceChange self3] True
                 (vm_get_ctls (foldl realise (device vm_obj) (deviceChange self3)) self3)
          else add_disks obedient_server vm_obj [] False self3)"
        using f1(1) c2 c3
        by (simp add: run_def reconfigure_vm_def Let_def apply_changes_obedient truthy_def)
      with chk n show ?thesis by simp
    qed
  qed
qed


lemma scan_rdms_keys:
  "scan_rdms rdms req ks units n = Inr res \<Longrightarrow> d \<in> set rdms
   \<Longrightarrow> map_of ks (controllerKey d) \<noteq> None"
proof (induction rdms arbitrary: units n)
  case Nil
  then show ?case by simp
next
  case (Cons disk rdms)
  from Cons.prems(1) obtain ctl_n occupied where
    k: "map_of ks (controllerKey disk) = Some ctl_n" and o: "map_of units ctl_n = Some occupied"
    by (auto split: option.splits)
  with Cons.prems(1) have
    s: "scan_rdms rdms req ks (AList.update ctl_n (insert (unitNumber disk) occupied) units)
       (if wwid_matches disk req then n + 1 else n) = Inr res" by simp
  show ?case
  proof (cases "d = disk")
    case True
    with k show ?thesis by simp
  next
    case False
    with Cons.prems(2) have "d \<in> set rdms" by simp
    from Cons.IH [OF s this] show ?thesis .
  qed
qed

lemma get_rdm_info_keys:
  assumes "get_rdm_info rdms self = Inr self'" "d \<in> set rdms"
  shows "map_of (ctl_key_slot self) (controllerKey d) \<noteq> None"
proof -
  from assms(1) obtain res where
    "scan_rdms rdms (requested self) (ctl_key_slot self)
          (fold (\<lambda>c. AList.update c {7}) (map fst (ctl_units self)) (disk_units self)) 0
     = Inr res"
    by (auto simp: get_rdm_info_def Let_def split: sum.splits prod.splits if_splits)
  from scan_rdms_keys [OF this assms(2)] show ?thesis .
qed

lemma keyed_occupancy:
  assumes "get_rdm_info rdms self = Inr self'" "disk_units self = []" "keyed_inventory self B"
  shows "is_occupied (disk_units self') c u
         \<longleftrightarrow> c \<in> B \<and> (u = 7 \<or> (\<exists>d\<in>set rdms. controllerKey d = 1000 + c \<and> unitNumber d = u))"
proof -
  from assms(3) have ks: "\<forall>k. map_of (ctl_key_slot self) k
      = (if k - 1000 \<in> B then Some (k - 1000) else None)"
    by (simp add: keyed_inventory_def)
  have k: "map_of (ctl_key_slot self) k = Some c \<longleftrightarrow> c \<in> B \<and> k = 1000 + c" for k
    using ks [rule_format, of k] by (auto split: if_splits)
  have b: "fst ` set (ctl_units self) = B" using assms(3) by (simp add: keyed_inventory_def)
  show ?thesis unfolding get_rdm_info_occupied [OF assms(1,2)] k b by auto
qed

lemma rdm_devices_controllers:
  "\<forall>dev\<in>set ctls. \<exists>cls k bus. dev = ScsiController cls k bus \<Longrightarrow> rdm_devices ctls = []"
  by (induction ctls) (auto simp: rdm_devices_def)

lemma first_run_shape:
  assumes "state p = ''present''" "scsi_keys_by_bus (device vm_obj)"
      and "returned (run obedient_server p vm_obj) = Inr r"
  shows "\<exists>ctls self4 self5 luns hosts ds dss.
      (\<forall>dev\<in>set ctls. \<exists>cls bus. dev = ScsiController cls (1000 + bus) bus
           \<and> requested_class (rdm_controller_type p) = Some cls)
    \<and> set (rdm_controller_bus p) \<subseteq> set (controller_buses (device vm_obj @ ctls))
    \<and> keyed_inventory self4 (set (controller_buses (device vm_obj @ ctls)))
    \<and> (\<forall>c u. is_occupied (disk_units self4) c u \<longleftrightarrow>
          c \<in> set (controller_buses (device vm_obj @ ctls))
          \<and> (u = 7 \<or> (\<exists>d\<in>set (rdm_devices (device vm_obj)).
                         controllerKey d = 1000 + c \<and> unitNumber d = u)))
    \<and> (\<forall>d\<in>set (rdm_devices (device vm_obj)).
          \<exists>c\<in>set (controller_buses (device vm_obj @ ctls)). controllerKey d = 1000 + c)
    \<and> all_disk (init p) (rdm_devices (device vm_obj))
        \<le> free_bays (check_maximums (vm_version vm_obj) (init p))
    \<and> deviceChange self4 = [] \<and> rdm_disks self4 = rdm_devices (device vm_obj)
    \<and> ctl_list self4 = rdm_controller_bus p
    \<and> ctl_max self4 = ctl_max (check_maximums (vm_version vm_obj) (init p))
    \<and> host_view vm_obj = Some (luns # hosts) \<and> datastore vm_obj = ds # dss
    \<and> attach_loop (rdm_disk p) luns ds (vmPathName vm_obj) self4 = Inr self5
    \<and> vm_after (run obedient_server p vm_obj)
        = vm_obj\<lparr>device := foldl realise (device vm_obj @ ctls) (deviceChange self5)\<rparr>"
proof -
  let ?devs = "device vm_obj"
  let ?ty = "rdm_controller_type p"
  let ?init0 = "check_maximums (vm_version vm_obj) (init p)"
  let ?self1 = "vm_get_ctls ?devs ?init0"
  let ?self2 = "?self1\<lparr>deviceChange := []\<rparr>"
  have f2: "rdm_state ?self2 = ''present''" "ctl_list ?self2 = rdm_controller_bus p"
    "change_detected ?self2 = False" "requested ?self2 = rdm_disk p" "disk_units ?self2 = []"
    "ctl_max ?self2 = ctl_max ?init0" "deviceChange ?self2 = []"
    using assms(1) by (simp_all add: vm_get_ctls_frame check_maximums_def init_def)
  have inv2: "keyed_inventory ?self2 (set (controller_buses ?devs))"
    using keyed_inventory_scan [OF assms(2) keyed_inventory_init, of "vm_version vm_obj" p]
    by (simp add: keyed_inventory_frame)
  from run_present_obedient [OF assms(1,3)] obtain self3 where
    n: "create_new_loop (rdm_controller_bus p) ?ty ?devs ?self2 = Inr self3"
    and run_eq: "run obedient_server p vm_obj
       = (if change_detected self3
          then add_disks obedient_server
                 (vm_obj\<lparr>device := foldl realise ?devs (deviceChange self3)\<rparr>)
                 [deviceChange self3] True
                 (vm_get_ctls (foldl realise ?devs (deviceChange self3)) self3)
          else add_disks obedient_server vm_obj [] False self3)" by blast
  from create_new_loop_shape [OF n] obtain adds where
    s3: "self3 = ?self2\<lparr>change_detected := adds \<noteq> [], deviceChange := adds\<rparr>"
    and a1: "\<forall>s\<in>set adds. \<exists>ctl\<in>set (rdm_controller_bus p).
               create_scsi_controller_bus ?ty ctl = Inr s"
    and a2: "\<forall>ctl\<in>set (rdm_controller_bus p).
               ctl \<in> fst ` set (ctl_units ?self2) \<or> get_vm_ctl_n ?devs ctl \<noteq> None
             \<or> (\<exists>s\<in>set adds. create_scsi_controller_bus ?ty ctl = Inr s)"
    unfolding f2 by auto
  \<comment> \<open>the controllers the first update creates\<close>
  obtain cls0 where c0: "\<forall>s\<in>set adds. \<exists>bus. s = AddController cls0 bus"
    and c1: "adds \<noteq> [] \<longrightarrow> requested_class ?ty = Some cls0"
  proof (cases "requested_class ?ty")
    case None
    have "adds = []"
    proof (rule ccontr)
      assume "adds \<noteq> []"
      then obtain s where "s \<in> set adds" by (cases adds) auto
      with a1 obtain ctl where "create_scsi_controller_bus ?ty ctl = Inr s" by blast
      from create_scsi_controller_bus_class [OF this] None show False by auto
    qed
    then show ?thesis using that [of VirtualLsiLogicController] by simp
  next
    case (Some cls)
    have "\<forall>s\<in>set adds. \<exists>bus. s = AddController cls bus"
    proof
      fix s assume "s \<in> set adds"
      with a1 obtain ctl where "create_scsi_controller_bus ?ty ctl = Inr s" by blast
      from create_scsi_controller_bus_class [OF this] Some
      show "\<exists>bus. s = AddController cls bus" by auto
    qed
    with Some show ?thesis using that [of cls] by simp
  qed
  from realise_controllers [OF c0, of ?devs] obtain ctls where
    r1: "foldl realise ?devs adds = ?devs @ ctls"
    and r2: "\<forall>dev\<in>set ctls. \<exists>bus. dev = ScsiController cls0 (1000 + bus) bus
            \<and> AddController cls0 bus \<in> set adds"
    and r3: "\<forall>bus. AddController cls0 bus \<in> set adds
            \<longrightarrow> ScsiController cls0 (1000 + bus) bus \<in> set ctls" by blast
  let ?B = "set (controller_buses (?devs @ ctls))"
  have A: "\<forall>dev\<in>set ctls. \<exists>cls bus. dev = ScsiController cls (1000 + bus) bus
           \<and> requested_class ?ty = Some cls"
  proof
    fix dev assume "dev \<in> set ctls"
    with r2 obtain bus where d: "dev = ScsiController cls0 (1000 + bus) bus"
      "AddController cls0 bus \<in> set adds" by blast
    then have "adds \<noteq> []" by auto
    with c1 d(1) show "\<exists>cls bus. dev = ScsiController cls (1000 + bus) bus
           \<and> requested_class ?ty = Some cls" by blast
  qed
  have wfc: "scsi_keys_by_bus ctls"
    using r2 by (fastforce simp: scsi_keys_by_bus_def list_all_iff)
  have nodisk: "rdm_devices ctls = []"
    using r2 by (intro rdm_devices_controllers) blast
  have b2: "fst ` set (ctl_units ?self2) = set (controller_buses ?devs)"
    using inv2 by (simp add: keyed_inventory_def)
  have Bsub: "set (rdm_controller_bus p) \<subseteq> ?B"
  proof
    fix ctl assume "ctl \<in> set (rdm_controller_bus p)"
    with a2 consider "ctl \<in> set (controller_buses ?devs)"
      | s where "s \<in> set adds" "create_scsi_controller_bus ?ty ctl = Inr s"
      unfolding b2 get_vm_ctl_n_None by blast
    then show "ctl \<in> ?B"
    proof cases
      case 1
      then show ?thesis by (simp add: controller_buses_append)
    next
      case 2
      from create_scsi_controller_bus_class [OF 2(2)] obtain cls where
        "s = AddController cls ctl" by blast
      with c0 2(1) have "AddController cls0 ctl \<in> set adds" by auto
      with r3 have "ScsiController cls0 (1000 + ctl) ctl \<in> set ctls" by blast
      then have "ctl \<in> set (controller_buses ctls)" unfolding controller_buses_set by blast
      then show ?thesis by (simp add: controller_buses_append)
    qed
  qed
  \<comment> \<open>the helper that enters the disk pass\<close>
  define vm' where "vm' = vm_obj\<lparr>device := ?devs @ ctls\<rparr>"
  define selfA where
    "selfA = (if adds \<noteq> [] then vm_get_ctls (?devs @ ctls) self3 else self3)"
  have dc3: "deviceChange self3 = adds" "change_detected self3 \<longleftrightarrow> adds \<noteq> []"
    unfolding s3 by simp_all
  have inv3: "keyed_inventory self3 (set (controller_buses ?devs))"
    unfolding s3 using inv2 by (simp add: keyed_inventory_def)
  have invA: "keyed_inventory selfA ?B"
  proof (cases "adds = []")
    case True
    with r2 have "ctls = []" by (cases ctls) auto
    with True inv3 show ?thesis by (simp add: selfA_def)
  next
    case False
    have "scsi_keys_by_bus (?devs @ ctls)"
      using assms(2) wfc by (simp add: scsi_keys_by_bus_append)
    from keyed_inventory_scan [OF this inv3] False show ?thesis
      by (simp add: selfA_def controller_buses_append Un_absorb1)
  qed
  have fA: "rdm_state selfA = ''present''" "ctl_list selfA = rdm_controller_bus p"
    "requested selfA = rdm_disk p" "disk_units selfA = []" "ctl_max selfA = ctl_max ?init0"
    unfolding selfA_def s3 using f2 by (simp_all add: vm_get_ctls_frame)
  have "\<exists>sent applied. run obedient_server p vm_obj
          = add_disks obedient_server vm' sent applied selfA"
  proof (cases "adds = []")
    case True
    with r2 have "ctls = []" by (cases ctls) auto
    with True run_eq dc3 show ?thesis
      by (intro exI [of _ "[]"] exI [of _ False]) (simp add: vm'_def selfA_def)
  next
    case False
    with run_eq dc3 r1 show ?thesis
      by (intro exI [of _ "[adds]"] exI [of _ True]) (simp add: vm'_def selfA_def)
  qed
  then obtain sent applied where
    run_add: "run obedient_server p vm_obj = add_disks obedient_server vm' sent applied selfA"
    by blast
  have rd': "rdm_devices (device vm') = rdm_devices ?devs"
    by (simp add: vm'_def rdm_devices_append nodisk)
  let ?selfA' = "selfA\<lparr>deviceChange := [], rdm_disks := rdm_devices ?devs\<rparr>"
  from add_disks_obedient [of vm' sent applied selfA r] assms(3) run_add rd'
  obtain self4 self5 where
    g: "get_rdm_info (rdm_devices ?devs) ?selfA' = Inr self4"
    and c: "configure_rdm_disks vm' self4 = Inr self5"
    and va: "vm_after (run obedient_server p vm_obj)
             = (if change_detected self5
                then vm'\<lparr>device := foldl realise (device vm') (deviceChange self5)\<rparr>
                else vm')" by auto
  from get_rdm_info_frame [OF g] obtain units where
    s4: "self4 = ?selfA'\<lparr>disk_units := units\<rparr>" by blast
  have f4: "rdm_state self4 = ''present''" "ctl_list self4 = rdm_controller_bus p"
    "requested self4 = rdm_disk p" "ctl_max self4 = ctl_max ?init0" "deviceChange self4 = []"
    "rdm_disks self4 = rdm_devices ?devs"
    unfolding s4 using fA by simp_all
  have inv4: "keyed_inventory self4 ?B"
    unfolding s4 using invA by (simp add: keyed_inventory_def)
  have invA': "keyed_inventory ?selfA' ?B"
    using invA by (simp add: keyed_inventory_def)
  have occ: "\<forall>c u. is_occupied (disk_units self4) c u \<longleftrightarrow>
          c \<in> ?B \<and> (u = 7 \<or> (\<exists>d\<in>set (rdm_devices ?devs).
                         controllerKey d = 1000 + c \<and> unitNumber d = u))"
    using keyed_occupancy [OF g _ invA'] fA(4) by simp
  have K: "\<forall>d\<in>set (rdm_devices ?devs). \<exists>c\<in>?B. controllerKey d = 1000 + c"
  proof
    fix d assume "d \<in> set (rdm_devices ?devs)"
    from get_rdm_info_keys [OF g this] obtain c where
      c: "map_of (ctl_key_slot ?selfA') (controllerKey d) = Some c" by auto
    from invA' have "\<forall>k. map_of (ctl_key_slot ?selfA') k
        = (if k - 1000 \<in> ?B then Some (k - 1000) else None)" by (simp add: keyed_inventory_def)
    from this [rule_format, of "controllerKey d"] c
    have "controllerKey d - 1000 \<in> ?B" by (auto split: if_splits)
    then show "\<exists>c\<in>?B. controllerKey d = 1000 + c"
      by (intro bexI [of _ "controllerKey d - 1000"]) simp_all
  qed
  have "all_disk ?selfA' (rdm_devices ?devs) \<le> free_bays ?selfA'"
    by (rule get_rdm_info_within_capacity [OF g]) (simp add: fA)
  moreover have "requested (init p) = rdm_disk p" by (simp add: init_def)
  then have "all_disk ?selfA' (rdm_devices ?devs) = all_disk (init p) (rdm_devices ?devs)"
    by (simp add: all_disk_def fA)
  moreover have "ctl_list ?init0 = rdm_controller_bus p"
    by (simp add: check_maximums_def init_def)
  then have "free_bays ?selfA' = free_bays ?init0"
    by (simp add: free_bays_def fA)
  ultimately have cap: "all_disk (init p) (rdm_devices ?devs) \<le> free_bays ?init0"
    by simp
  from configure_present [OF f4(1) c] obtain luns hosts ds dss where
    hv: "host_view vm_obj = Some (luns # hosts)" and dv: "datastore vm_obj = ds # dss"
    and al: "attach_loop (rdm_disk p) luns ds (vmPathName vm_obj) self4 = Inr self5"
    unfolding f4 by (auto simp: vm'_def)
  have "\<not> change_detected self5 \<longrightarrow> deviceChange self5 = []"
    by (rule attach_loop_quiet [OF al]) (simp add: f4)
  with va have V: "vm_after (run obedient_server p vm_obj)
        = vm_obj\<lparr>device := foldl realise (?devs @ ctls) (deviceChange self5)\<rparr>"
    by (auto simp: vm'_def)
  from A Bsub inv4 occ K cap f4(5,6,2,4) hv dv al V show ?thesis by blast
qed


lemma present_rerun:
  assumes "state p = ''present''" "scsi_keys_by_bus (device vm_obj)"
      and "returned (run obedient_server p vm_obj) = Inr r"
  shows "(all_disk (init p) (rdm_devices (device (vm_after (run obedient_server p vm_obj))))
            \<le> free_bays (check_maximums (vm_version vm_obj) (init p))
          \<longrightarrow> run task p (vm_after (run obedient_server p vm_obj))
              = \<lparr>returned = Inr \<lparr>changed = False, failed = False, msg = None\<rparr>,
                 vm_after = vm_after (run obedient_server p vm_obj), submitted = []\<rparr>)
       \<and> (all_disk (init p) (rdm_devices (device (vm_after (run obedient_server p vm_obj))))
            > free_bays (check_maximums (vm_version vm_obj) (init p))
          \<longrightarrow> run task p (vm_after (run obedient_server p vm_obj))
              = \<lparr>returned = Inl (InsufficientCapacity
                    (all_disk (init p)
                       (rdm_devices (device (vm_after (run obedient_server p vm_obj)))))
                    (free_bays (check_maximums (vm_version vm_obj) (init p)))),
                 vm_after = vm_after (run obedient_server p vm_obj), submitted = []\<rparr>)"
proof -
  let ?devs = "device vm_obj"
  let ?ty = "rdm_controller_type p"
  let ?init0 = "check_maximums (vm_version vm_obj) (init p)"
  from first_run_shape [OF assms] obtain ctls self4 self5 luns hosts ds dss where
    A: "\<forall>dev\<in>set ctls. \<exists>cls bus. dev = ScsiController cls (1000 + bus) bus
           \<and> requested_class ?ty = Some cls"
    and Bsub: "set (rdm_controller_bus p) \<subseteq> set (controller_buses (?devs @ ctls))"
    and inv4: "keyed_inventory self4 (set (controller_buses (?devs @ ctls)))"
    and occ: "\<forall>c u. is_occupied (disk_units self4) c u \<longleftrightarrow>
          c \<in> set (controller_buses (?devs @ ctls))
          \<and> (u = 7 \<or> (\<exists>d\<in>set (rdm_devices ?devs).
                         controllerKey d = 1000 + c \<and> unitNumber d = u))"
    and K: "\<forall>d\<in>set (rdm_devices ?devs).
          \<exists>c\<in>set (controller_buses (?devs @ ctls)). controllerKey d = 1000 + c"
    and f4: "deviceChange self4 = []" "rdm_disks self4 = rdm_devices ?devs"
      "ctl_list self4 = rdm_controller_bus p" "ctl_max self4 = ctl_max ?init0"
    and hv: "host_view vm_obj = Some (luns # hosts)" and dv: "datastore vm_obj = ds # dss"
    and al: "attach_loop (rdm_disk p) luns ds (vmPathName vm_obj) self4 = Inr self5"
    and V: "vm_after (run obedient_server p vm_obj)
        = vm_obj\<lparr>device := foldl realise (?devs @ ctls) (deviceChange self5)\<rparr>"
    by blast
  let ?B = "set (controller_buses (?devs @ ctls))"
  note f5 = attach_loop_fields [OF al]
  have slot: "map_of (ctl_slot_key self4) c = Some ck \<longleftrightarrow> c \<in> ?B \<and> ck = 1000 + c" for c ck
  proof -
    from inv4 have "\<forall>b. map_of (ctl_slot_key self4) b
        = (if b \<in> ?B then Some (1000 + b) else None)" by (simp add: keyed_inventory_def)
    from this [rule_format, of c] show ?thesis by (auto split: if_splits)
  qed
  \<comment> \<open>the disks the first run attached\<close>
  have specs: "\<exists>k ck u lun dn f ctl wwid. s = AddDisk k ck u (uuid lun) dn ds f
            \<and> ctl \<in> set (ctl_list self4) \<and> map_of (ctl_slot_key self4) ctl = Some ck
            \<and> wwid \<in> set (rdm_disk p) \<and> find_lun luns wwid = Some lun"
    if "s \<in> set (deviceChange self5)" for s
    using attach_loop_adds [OF al that] f4(1) by simp
  have "\<forall>s\<in>set (deviceChange self5). \<exists>k ck u lu dn d f. s = AddDisk k ck u lu dn d f"
  proof
    fix s assume "s \<in> set (deviceChange self5)"
    from specs [OF this] show "\<exists>k ck u lu dn d f. s = AddDisk k ck u lu dn d f" by blast
  qed
  from realise_disks [OF this, of "?devs @ ctls"] obtain disks where
    D1: "foldl realise (?devs @ ctls) (deviceChange self5) = (?devs @ ctls) @ map RdmDisk disks"
    and D2: "\<forall>disk\<in>set disks. \<exists>k dn d f.
            AddDisk k (controllerKey disk) (unitNumber disk) (lunUuid disk) dn d f
              \<in> set (deviceChange self5)"
    and D3: "\<forall>k ck u lu dn d f. AddDisk k ck u lu dn d f \<in> set (deviceChange self5)
            \<longrightarrow> (\<exists>disk\<in>set disks. controllerKey disk = ck \<and> unitNumber disk = u
                    \<and> lunUuid disk = lu)" by blast
  define vm1 where "vm1 = vm_obj\<lparr>device := (?devs @ ctls) @ map RdmDisk disks\<rparr>"
  have V1: "vm_after (run obedient_server p vm_obj) = vm1" unfolding V D1 vm1_def ..
  have fv: "device vm1 = (?devs @ ctls) @ map RdmDisk disks" "vm_version vm1 = vm_version vm_obj"
    "host_view vm1 = Some (luns # hosts)" "datastore vm1 = ds # dss"
    "vmPathName vm1 = vmPathName vm_obj"
    using hv dv by (simp_all add: vm1_def)
  have nodisk: "rdm_devices ctls = []"
    using A by (intro rdm_devices_controllers) blast
  have wfc: "scsi_keys_by_bus ctls"
    using A by (fastforce simp: scsi_keys_by_bus_def list_all_iff)
  let ?rdms1 = "rdm_devices ?devs @ disks"
  have rd1: "rdm_devices (device vm1) = ?rdms1"
    by (simp add: fv rdm_devices_append nodisk rdm_devices_disks)
  have B1: "set (controller_buses (device vm1)) = ?B"
    by (simp add: fv controller_buses_append controller_buses_disks)
  have wf1: "scsi_keys_by_bus (device vm1)"
    using assms(2) wfc by (simp add: fv scsi_keys_by_bus_append scsi_keys_by_bus_disks)
  have on_bus: "\<exists>c\<in>?B. controllerKey disk = 1000 + c" if "disk \<in> set disks" for disk
  proof -
    from D2 that obtain k dn d f where
      "AddDisk k (controllerKey disk) (unitNumber disk) (lunUuid disk) dn d f
         \<in> set (deviceChange self5)" by blast
    from specs [OF this] obtain ctl where
      "map_of (ctl_slot_key self4) ctl = Some (controllerKey disk)" by auto
    then show ?thesis unfolding slot by blast
  qed
  have dos1: "disks_on_scsi (device vm1)"
    unfolding disks_on_scsi_iff
  proof (intro allI impI)
    fix disk assume "RdmDisk disk \<in> set (device vm1)"
    then consider "disk \<in> set (rdm_devices ?devs)" | "RdmDisk disk \<in> set ctls"
      | "disk \<in> set disks"
      unfolding fv rdm_devices_set by auto
    then have "(\<exists>c\<in>?B. controllerKey disk = 1000 + c) \<or> RdmDisk disk \<in> set ctls"
      using K on_bus by blast
    then show "\<exists>cls bus. ScsiController cls (controllerKey disk) bus \<in> set (device vm1)"
    proof
      assume "RdmDisk disk \<in> set ctls"
      with A show ?thesis by auto
    next
      assume "\<exists>c\<in>?B. controllerKey disk = 1000 + c"
      then obtain c where c: "c \<in> ?B" "controllerKey disk = 1000 + c" by blast
      from c(1) obtain cls k where m: "ScsiController cls k c \<in> set (?devs @ ctls)"
        unfolding controller_buses_set by blast
      have "scsi_keys_by_bus (?devs @ ctls)"
        using assms(2) wfc by (simp add: scsi_keys_by_bus_append)
      from scsi_keys_by_bus_key [OF this m] have "k = 1000 + c" .
      with m c(2) have "ScsiController cls (controllerKey disk) c \<in> set (device vm1)"
        unfolding fv by auto
      then show ?thesis by blast
    qed
  qed
  \<comment> \<open>the second run: inventory, type check, nothing to create\<close>
  let ?s1 = "vm_get_ctls (device vm1) ?init0"
  let ?s2 = "?s1\<lparr>deviceChange := []\<rparr>"
  let ?s3 = "?s1\<lparr>deviceChange := [], rdm_disks := ?rdms1\<rparr>"
  have fr: "rdm_state ?s1 = ''present''" "ctl_list ?s1 = rdm_controller_bus p"
    "ctl_type ?s1 = ?ty" "change_detected ?s1 = False" "requested ?s1 = rdm_disk p"
    "disk_units ?s1 = []"
    using assms(1) by (simp_all add: vm_get_ctls_frame check_maximums_def init_def)
  have cm: "ctl_max ?s1 = ctl_max ?init0" by (simp add: vm_get_ctls_frame)
  have inv1: "keyed_inventory ?s1 ?B"
    using keyed_inventory_scan [OF wf1 keyed_inventory_init, of "vm_version vm_obj" p]
    by (simp add: B1)
  from run_present_obedient [OF assms(1,3)] have chk0:
    "check_types_loop (ctl_units (vm_get_ctls ?devs ?init0)) (rdm_controller_bus p) ?ty
     = Inr ()" by blast
  have "check_types_loop (ctl_units ?s1) (rdm_controller_bus p) ?ty = Inr ()"
    unfolding check_types_loop_ok_iff
  proof (intro ballI, clarify)
    fix bus ty'
    assume mem: "(bus, ty') \<in> set (ctl_units ?s1)" and allowed: "bus \<in> set (rdm_controller_bus p)"
      and miss: "str_find ty' ?ty = - 1"
    have "?s1 = vm_get_ctls (ctls @ map RdmDisk disks) (vm_get_ctls ?devs ?init0)"
      by (simp add: fv vm_get_ctls_append)
    with mem have "(bus, ty') \<in> set (ctl_units
        (vm_get_ctls (ctls @ map RdmDisk disks) (vm_get_ctls ?devs ?init0)))" by simp
    from vm_get_ctls_entries [OF this] consider
        (old) "(bus, ty') \<in> set (ctl_units (vm_get_ctls ?devs ?init0))"
      | (new) cls k where "ScsiController cls k bus \<in> set (ctls @ map RdmDisk disks)"
          "ty' = str_replace (str_lower (type_name cls)) ''vim.vm.device.'' []" by blast
    then show False
    proof cases
      case old
      with chk0 allowed miss show False unfolding check_types_loop_ok_iff by blast
    next
      case new
      from new(1) have "ScsiController cls k bus \<in> set ctls" by auto
      with A have "requested_class ?ty = Some cls" by auto
      from type_test [OF this, of cls] miss new(2) show False by simp
    qed
  qed
  then have chk: "ctl_check_types (ctl_type ?s1) ?s2 = Inr ?s2"
    using fr by (simp add: ctl_check_types_def)
  have "\<forall>ctl\<in>set (ctl_list ?s2). ctl \<in> fst ` set (ctl_units ?s2)"
    using Bsub fr(2) inv1 by (auto simp: keyed_inventory_def)
  then have new: "ctl_create_new (ctl_type ?s2) (device vm1) ?s2 = Inr ?s2"
    unfolding ctl_create_new_def by (rule create_new_loop_none)
  have eq: "run task p vm1 = add_disks task vm1 [] False ?s2"
    using fr chk new by (simp add: run_def reconfigure_vm_def Let_def fv)
  \<comment> \<open>the capacity check of the second run\<close>
  have "\<forall>k b. map_of (ctl_key_slot ?init0) k = Some b \<longrightarrow> b \<in> fst ` set (ctl_units ?init0)"
    by (simp add: check_maximums_def init_def)
  from vm_get_ctls_known [OF dos1 this]
  have known: "on_known_controllers ?s3 ?rdms1" unfolding rd1 .
  have "requested (init p) = rdm_disk p" by (simp add: init_def)
  then have ad: "all_disk ?s3 ?rdms1 = all_disk (init p) ?rdms1"
    by (simp add: all_disk_def fr)
  have "ctl_list ?init0 = rdm_controller_bus p" by (simp add: check_maximums_def init_def)
  then have fb: "free_bays ?s3 = free_bays ?init0" by (simp add: free_bays_def fr cm)
  have st3: "rdm_state ?s3 = ''present''" using fr by simp
  show ?thesis unfolding V1 rd1
  proof (intro conjI impI)
    assume "free_bays ?init0 < all_disk (init p) ?rdms1"
    with get_rdm_info_known [OF known] st3 ad fb have
      "get_rdm_info ?rdms1 ?s3
       = Inl (InsufficientCapacity (all_disk (init p) ?rdms1) (free_bays ?init0))" by simp
    then have "get_rdm_info (rdm_devices (device vm1))
             (?s2\<lparr>deviceChange := [], rdm_disks := rdm_devices (device vm1)\<rparr>)
       = Inl (InsufficientCapacity (all_disk (init p) ?rdms1) (free_bays ?init0))"
      unfolding rd1 by simp
    from add_disks_capacity_failure [OF this] show
      "run task p vm1
       = \<lparr>returned = Inl (InsufficientCapacity (all_disk (init p) ?rdms1) (free_bays ?init0)),
          vm_after = vm1, submitted = []\<rparr>"
      unfolding eq .
  next
    assume "all_disk (init p) ?rdms1 \<le> free_bays ?init0"
    then have "\<not> (rdm_state ?s3 = ''present'' \<and> all_disk ?s3 ?rdms1 > free_bays ?s3)"
      using ad fb by simp
    with get_rdm_info_known [OF known] obtain self2r where
      g: "get_rdm_info ?rdms1 ?s3 = Inr self2r" by blast
    from get_rdm_info_frame [OF g] obtain units where
      s2r: "self2r = ?s3\<lparr>disk_units := units\<rparr>" by blast
    have f2r: "rdm_state self2r = ''present''" "requested self2r = rdm_disk p"
      "change_detected self2r = False" "rdm_disks self2r = ?rdms1"
      "ctl_list self2r = rdm_controller_bus p" "ctl_max self2r = ctl_max ?init0"
      using fr cm unfolding s2r by simp_all
    have inv3: "keyed_inventory ?s3 ?B" using inv1 by (simp add: keyed_inventory_def)
    have occ1: "is_occupied (disk_units self2r) c u
         \<longleftrightarrow> c \<in> ?B \<and> (u = 7 \<or> (\<exists>d\<in>set ?rdms1. controllerKey d = 1000 + c \<and> unitNumber d = u))"
      for c u
      by (rule keyed_occupancy [OF g _ inv3]) (simp add: fr)
    \<comment> \<open>a slot that was taken at the end of the first run is taken now\<close>
    have still: "is_occupied (disk_units self2r) c u" if "is_occupied (disk_units self5) c u" for c u
    proof -
      from attach_loop_occupied [OF al that] consider
          (before) "is_occupied (disk_units self4) c u"
        | (added) k ck lu dn d f where "map_of (ctl_slot_key self4) c = Some ck"
            "AddDisk k ck u lu dn d f \<in> set (deviceChange self5)" by blast
      then show ?thesis
      proof cases
        case before
        with occ have "c \<in> ?B" "u = 7 \<or> (\<exists>d\<in>set (rdm_devices ?devs).
                         controllerKey d = 1000 + c \<and> unitNumber d = u)" by simp_all
        then show ?thesis unfolding occ1 by auto
      next
        case added
        from added(1) have c: "c \<in> ?B" "ck = 1000 + c" unfolding slot by simp_all
        from D3 added(2) obtain disk where
          "disk \<in> set disks" "controllerKey disk = ck" "unitNumber disk = u" by blast
        with c show ?thesis unfolding occ1 by auto
      qed
    qed
    have exh: "exhausted self2r" if "exhausted self5"
      using that still
      unfolding exhausted_def list_all_iff f2r f5 f4 by blast
    \<comment> \<open>nothing is left to attach\<close>
    have "\<forall>wwid\<in>set (requested self2r). \<exists>lun. find_lun luns wwid = Some lun
            \<and> ((\<exists>rdm\<in>set (rdm_disks self2r). uuid lun = lunUuid rdm)
               \<or> (re_split_wwn (canonicalName lun) \<noteq> None \<and> exhausted self2r))"
      unfolding f2r
    proof
      fix wwid assume w: "wwid \<in> set (rdm_disk p)"
      from attach_loop_resolved [OF al w] obtain lun where lun: "find_lun luns wwid = Some lun"
        and r: "(\<exists>rdm\<in>set (rdm_devices ?devs). uuid lun = lunUuid rdm)
              \<or> re_split_wwn (canonicalName lun) \<noteq> None" unfolding f4 by blast
      show "\<exists>lun. find_lun luns wwid = Some lun
            \<and> ((\<exists>rdm\<in>set ?rdms1. uuid lun = lunUuid rdm)
               \<or> (re_split_wwn (canonicalName lun) \<noteq> None \<and> exhausted self2r))"
      proof (cases "\<exists>rdm\<in>set ?rdms1. uuid lun = lunUuid rdm")
        case True
        with lun show ?thesis by blast
      next
        case False
        then have un: "\<not> (\<exists>rdm\<in>set (rdm_disks self4). uuid lun = lunUuid rdm)"
          unfolding f4 by auto
        from False r have sp: "re_split_wwn (canonicalName lun) \<noteq> None" by auto
        from attach_loop_unattached [OF al w lun un] have "exhausted self5"
        proof
          assume "\<exists>k ck u dn d f. AddDisk k ck u (uuid lun) dn d f \<in> set (deviceChange self5)"
          with D3 obtain disk where "disk \<in> set disks" "lunUuid disk = uuid lun" by blast
          then have "\<exists>rdm\<in>set ?rdms1. uuid lun = lunUuid rdm"
            by (intro bexI [of _ disk]) simp_all
          with False show ?thesis by simp
        qed
        from exh [OF this] lun sp show ?thesis by blast
      qed
    qed
    then have "attach_loop (requested self2r) luns ds (vmPathName vm1) self2r = Inr self2r"
      by (rule attach_loop_settled)
    from configure_present_settled [OF f2r(1) fv(3,4) this]
    have c: "configure_rdm_disks vm1 self2r = Inr self2r" .
    have "get_rdm_info (rdm_devices (device vm1))
             (?s2\<lparr>deviceChange := [], rdm_disks := rdm_devices (device vm1)\<rparr>) = Inr self2r"
      unfolding rd1 using g by simp
    from add_disks_unchanged [OF this c] f2r(3) show
      "run task p vm1
       = \<lparr>returned = Inr \<lparr>changed = False, failed = False, msg = None\<rparr>,
          vm_after = vm1, submitted = []\<rparr>"
      unfolding eq by simp
  qed
qed


lemma matched_disks_append:
  "matched_disks (xs @ ys) req = matched_disks xs req + matched_disks ys req"
  by (simp add: matched_disks_def)

lemma matched_disks_all:
  "\<forall>disk\<in>set ys. wwid_matches disk req \<Longrightarrow> matched_disks ys req = int (length ys)"
  by (simp add: matched_disks_def)

lemma capacity_terms:
  "all_disk (init p) rdms
   = int (length rdms) + (int (length (rdm_disk p)) - matched_disks rdms (rdm_disk p))"
  "free_bays (check_maximums version (init p))
   = (if rdm_controller_type p = ''paravirtual'' \<and> version \<ge> 14 then 64 else 15)
     * int (length (rdm_controller_bus p))"
  by (simp_all add: all_disk_def free_bays_def check_maximums_def init_def)

lemma present_rerun_capacity:
  assumes "state p = ''present''" "scsi_keys_by_bus (device vm_obj)"
      and "returned (run obedient_server p vm_obj) = Inr r"
      and "host_view vm_obj = Some (luns # hosts)"
      and "\<forall>wwid\<in>set (rdm_disk p). \<forall>lun. find_lun luns wwid = Some lun
             \<longrightarrow> sublist (str_lower wwid) (str_lower (uuid lun))"
  shows "all_disk (init p) (rdm_devices (device (vm_after (run obedient_server p vm_obj))))
         \<le> free_bays (check_maximums (vm_version vm_obj) (init p))"
proof -
  let ?devs = "device vm_obj"
  let ?init0 = "check_maximums (vm_version vm_obj) (init p)"
  from first_run_shape [OF assms(1,2,3)] assms(4)
  obtain ctls self4 self5 ds where
    A: "\<forall>dev\<in>set ctls. \<exists>cls bus. dev = ScsiController cls (1000 + bus) bus
           \<and> requested_class (rdm_controller_type p) = Some cls"
    and cap: "all_disk (init p) (rdm_devices ?devs) \<le> free_bays ?init0"
    and f4: "deviceChange self4 = []"
    and al: "attach_loop (rdm_disk p) luns ds (vmPathName vm_obj) self4 = Inr self5"
    and V: "vm_after (run obedient_server p vm_obj)
        = vm_obj\<lparr>device := foldl realise (?devs @ ctls) (deviceChange self5)\<rparr>"
    by auto
  have specs: "\<exists>k ck u lun dn f wwid. s = AddDisk k ck u (uuid lun) dn ds f
            \<and> wwid \<in> set (rdm_disk p) \<and> find_lun luns wwid = Some lun"
    if "s \<in> set (deviceChange self5)" for s
  proof -
    from attach_loop_adds [OF al that] f4
    have "\<exists>k ck u lun dn f ctl wwid. s = AddDisk k ck u (uuid lun) dn ds f
            \<and> ctl \<in> set (ctl_list self4) \<and> map_of (ctl_slot_key self4) ctl = Some ck
            \<and> wwid \<in> set (rdm_disk p) \<and> find_lun luns wwid = Some lun" by simp
    then show ?thesis by blast
  qed
  have "\<forall>s\<in>set (deviceChange self5). \<exists>k ck u lu dn d f. s = AddDisk k ck u lu dn d f"
  proof
    fix s assume "s \<in> set (deviceChange self5)"
    from specs [OF this] show "\<exists>k ck u lu dn d f. s = AddDisk k ck u lu dn d f" by blast
  qed
  from realise_disks [OF this, of "?devs @ ctls"] obtain disks where
    D1: "foldl realise (?devs @ ctls) (deviceChange self5) = (?devs @ ctls) @ map RdmDisk disks"
    and D2: "\<forall>disk\<in>set disks. \<exists>k dn d f.
            AddDisk k (controllerKey disk) (unitNumber disk) (lunUuid disk) dn d f
              \<in> set (deviceChange self5)" by blast
  have nodisk: "rdm_devices ctls = []"
    using A by (intro rdm_devices_controllers) blast
  have rd1: "rdm_devices (device (vm_after (run obedient_server p vm_obj)))
             = rdm_devices ?devs @ disks"
    unfolding V D1 by (simp add: rdm_devices_append nodisk rdm_devices_disks)
  have "\<forall>disk\<in>set disks. wwid_matches disk (rdm_disk p)"
  proof
    fix disk assume "disk \<in> set disks"
    with D2 obtain k dn d f where
      "AddDisk k (controllerKey disk) (unitNumber disk) (lunUuid disk) dn d f
         \<in> set (deviceChange self5)" by blast
    from specs [OF this] obtain lun wwid where
      l: "lunUuid disk = uuid lun" "wwid \<in> set (rdm_disk p)" "find_lun luns wwid = Some lun"
      by auto
    with assms(5) have "sublist (str_lower wwid) (str_lower (lunUuid disk))" by simp
    with l(2) show "wwid_matches disk (rdm_disk p)" unfolding wwid_matches_sublist by blast
  qed
  from matched_disks_all [OF this]
  have "all_disk (init p) (rdm_devices ?devs @ disks) = all_disk (init p) (rdm_devices ?devs)"
    unfolding capacity_terms by (simp add: matched_disks_append)
  with cap show ?thesis unfolding rd1 by simp
qed

text \<open>
  C5, as the code has it. The first \<open>present\<close> run is made on a machine whose SCSI
  controllers carry the key 1000 + bus number, against a server that carries out every
  change it is sent, and it returns without an error; \<open>machine_after\<close> is the machine
  it leaves. Running \<open>present\<close> again with the same parameters on that machine, whatever
  the server: when the capacity check of the second run passes (RDM disks of the machine
  plus requested WWIDs minus matched disks is at most the capacity times the number of
  allowed buses), the second run builds no change, submits nothing, returns changed false
  and leaves the machine as it is; when it does not pass, the second run stops with the
  capacity error for these two numbers, and again submits nothing and leaves the machine
  as it is. The check passes, so the second run is that no-op, whenever the \<open>uuid\<close> of
  the LUN found for each requested WWID contains, in lower case, the lower-cased WWID.
  In the attach loop, requested LUNs that are all attached leave the helper untouched,
  and no attach specification ever names the \<open>lunUuid\<close> of an existing RDM disk.
\<close>

theorem present_rerun_is_noop:
  "(state p = ''present'' \<and> scsi_keys_by_bus (device vm_obj)
      \<and> returned (run obedient_server p vm_obj) = Inr r
    \<longrightarrow> (int (length (rdm_devices (device (machine_after p vm_obj))))
             + (int (length (rdm_disk p))
                - matched_disks (rdm_devices (device (machine_after p vm_obj))) (rdm_disk p))
           \<le> (if rdm_controller_type p = ''paravirtual'' \<and> vm_version vm_obj \<ge> 14
               then 64 else 15) * int (length (rdm_controller_bus p))
          \<longrightarrow> run task p (machine_after p vm_obj)
              = \<lparr>returned = Inr \<lparr>changed = False, failed = False, msg = None\<rparr>,
                 vm_after = machine_after p vm_obj, submitted = []\<rparr>)
       \<and> (int (length (rdm_devices (device (machine_after p vm_obj))))
             + (int (length (rdm_disk p))
                - matched_disks (rdm_devices (device (machine_after p vm_obj))) (rdm_disk p))
           > (if rdm_controller_type p = ''paravirtual'' \<and> vm_version vm_obj \<ge> 14
              then 64 else 15) * int (length (rdm_controller_bus p))
          \<longrightarrow> run task p (machine_after p vm_obj)
              = \<lparr>returned = Inl (InsufficientCapacity
                    (int (length (rdm_devices (device (machine_after p vm_obj))))
                       + (int (length (rdm_disk p))
                          - matched_disks (rdm_devices (device (machine_after p vm_obj)))
                              (rdm_disk p)))
                    ((if rdm_controller_type p = ''paravirtual'' \<and> vm_version vm_obj \<ge> 14
                      then 64 else 15) * int (length (rdm_controller_bus p)))),
                 vm_after = machine_after p vm_obj, submitted = []\<rparr>))
   \<and> (state p = ''present'' \<and> scsi_keys_by_bus (device vm_obj)
      \<and> returned (run obedient_server p vm_obj) = Inr r
      \<and> host_view vm_obj = Some (luns # hosts)
      \<and> (\<forall>wwid\<in>set (rdm_disk p). \<forall>lun. find_lun luns wwid = Some lun
             \<longrightarrow> sublist (str_lower wwid) (str_lower (uuid lun)))
    \<longrightarrow> run task p (machine_after p vm_obj)
        = \<lparr>returned = Inr \<lparr>changed = False, failed = False, msg = None\<rparr>,
           vm_after = machine_after p vm_obj, submitted = []\<rparr>)
   \<and> ((\<forall>wwid\<in>set wwids. \<exists>lun. find_lun luns' wwid = Some lun
             \<and> (\<exists>rdm\<in>set (rdm_disks self). uuid lun = lunUuid rdm))
        \<longrightarrow> attach_loop wwids luns' vm_ds path self = Inr self)
   \<and> (attach_loop wwids luns' vm_ds path self = Inr self'
        \<and> AddDisk k ck u lu dn d f \<in> set (deviceChange self')
        \<longrightarrow> AddDisk k ck u lu dn d f \<in> set (deviceChange self)
            \<or> lu \<notin> lunUuid ` set (rdm_disks self))"
proof (intro conjI impI)
  assume h: "state p = ''present'' \<and> scsi_keys_by_bus (device vm_obj)
      \<and> returned (run obedient_server p vm_obj) = Inr r"
  then have h': "state p = ''present''" "scsi_keys_by_bus (device vm_obj)"
    "returned (run obedient_server p vm_obj) = Inr r"
    by simp_all
  note re = present_rerun [OF h', of task, folded machine_after_def, unfolded capacity_terms]
  {
    assume "int (length (rdm_devices (device (machine_after p vm_obj))))
             + (int (length (rdm_disk p))
                - matched_disks (rdm_devices (device (machine_after p vm_obj))) (rdm_disk p))
           \<le> (if rdm_controller_type p = ''paravirtual'' \<and> vm_version vm_obj \<ge> 14
               then 64 else 15) * int (length (rdm_controller_bus p))"
    with re [THEN conjunct1]
    show "run task p (machine_after p vm_obj)
              = \<lparr>returned = Inr \<lparr>changed = False, failed = False, msg = None\<rparr>,
                 vm_after = machine_after p vm_obj, submitted = []\<rparr>" by (rule mp)
  }
  {
    assume "int (length (rdm_devices (device (machine_after p vm_obj))))
             + (int (length (rdm_disk p))
                - matched_disks (rdm_devices (device (machine_after p vm_obj))) (rdm_disk p))
           > (if rdm_controller_type p = ''paravirtual'' \<and> vm_version vm_obj \<ge> 14
              then 64 else 15) * int (length (rdm_controller_bus p))"
    with re [THEN conjunct2]
    show "run task p (machine_after p vm_obj)
              = \<lparr>returned = Inl (InsufficientCapacity
                    (int (length (rdm_devices (device (machine_after p vm_obj))))
                       + (int (length (rdm_disk p))
                          - matched_disks (rdm_devices (device (machine_after p vm_obj)))
                              (rdm_disk p)))
                    ((if rdm_controller_type p = ''paravirtual'' \<and> vm_version vm_obj \<ge> 14
                      then 64 else 15) * int (length (rdm_controller_bus p)))),
                 vm_after = machine_after p vm_obj, submitted = []\<rparr>" by (rule mp)
  }
next
  assume h: "state p = ''present'' \<and> scsi_keys_by_bus (device vm_obj)
      \<and> returned (run obedient_server p vm_obj) = Inr r
      \<and> host_view vm_obj = Some (luns # hosts)
      \<and> (\<forall>wwid\<in>set (rdm_disk p). \<forall>lun. find_lun luns wwid = Some lun
             \<longrightarrow> sublist (str_lower wwid) (str_lower (uuid lun)))"
  then have h': "state p = ''present''" "scsi_keys_by_bus (device vm_obj)"
    "returned (run obedient_server p vm_obj) = Inr r"
    and hv: "host_view vm_obj = Some (luns # hosts)"
    and sub: "\<forall>wwid\<in>set (rdm_disk p). \<forall>lun. find_lun luns wwid = Some lun
             \<longrightarrow> sublist (str_lower wwid) (str_lower (uuid lun))"
    by simp_all
  from present_rerun_capacity [OF h' hv sub] present_rerun [OF h', of task]
  show "run task p (machine_after p vm_obj)
        = \<lparr>returned = Inr \<lparr>changed = False, failed = False, msg = None\<rparr>,
           vm_after = machine_after p vm_obj, submitted = []\<rparr>"
    unfolding machine_after_def by (rule conjunct1 [THEN mp, rotated])
next
  assume "\<forall>wwid\<in>set wwids. \<exists>lun. find_lun luns' wwid = Some lun
             \<and> (\<exists>rdm\<in>set (rdm_disks self). uuid lun = lunUuid rdm)"
  then show "attach_loop wwids luns' vm_ds path self = Inr self"
    by (rule attach_loop_all_attached)
next
  assume "attach_loop wwids luns' vm_ds path self = Inr self'
        \<and> AddDisk k ck u lu dn d f \<in> set (deviceChange self')"
  then show "AddDisk k ck u lu dn d f \<in> set (deviceChange self)
            \<or> lu \<notin> lunUuid ` set (rdm_disks self)"
    using attach_loop_never_respecifies by fast
qed


lemma lower_6c:
  "str_lower ''60002AC0000000000000006C000123FD'' = ''60002ac0000000000000006c000123fd''"
  "str_lower ''0100000000364330'' = ''0100000000364330''"
  "str_lower ''020000000060002ac0000000000000006a565620''
     = ''020000000060002ac0000000000000006a565620''"
  by (simp_all add: str_lower_def lower_char_def)

lemma find_6c: "find_lun [lun_6c] ''60002AC0000000000000006C000123FD'' = Some lun_6c"
  by (simp add: find_lun_def lower_6c) (simp add: lun_6c_def)

lemma split_6c: "re_split_wwn (canonicalName lun_6c) = Some ''6c000123fd''"
  by (simp add: lun_6c_def re_split_wwn_def in_wwn_class_def)

lemma file_6c:
  "str_replace ''[ds1] vm/vm.vmx'' ''.vmx'' ''_RDM6c000123fd.vmdk''
   = ''[ds1] vm/vm_RDM6c000123fd.vmdk''"
  by (simp add: str_replace_def)

lemma no_match_6c:
  "\<not> wwid_matches \<lparr>key = k, controllerKey = ck, unitNumber = u, lunUuid = ''0200''\<rparr>
       [''60002AC0000000000000006C000123FD'']"
  "\<not> wwid_matches \<lparr>key = k, controllerKey = ck, unitNumber = u, lunUuid = ''0100000000364330''\<rparr>
       [''60002AC0000000000000006C000123FD'']"
  by (simp_all add: wwid_matches_def lower_6c lower_short str_find_def)

lemma first_run_6c:
  "run obedient_server present_6c vm_fourteen
   = \<lparr>returned = Inr \<lparr>changed = True, failed = False, msg = None\<rparr>,
      vm_after = vm_fifteen,
      submitted = [[AddDisk (- 115) 1000 15 (uuid lun_6c) (deviceName lun_6c) ''ds1''
                      ''[ds1] vm/vm_RDM6c000123fd.vmdk'']]\<rparr>"
proof -
  have u: "uuid lun_6c = ''0100000000364330''" by (simp add: lun_6c_def)
  show ?thesis
    by (simp add: run_defs present_6c_def vm_fourteen_def vm_fifteen_def fourteen_disks_def
        find_6c split_6c file_6c create_rdm_def create_rdm_disk_def upto_small no_match_6c u)
qed

lemma rerun_6c:
  "run obedient_server present_6c vm_fifteen
   = \<lparr>returned = Inl (InsufficientCapacity 16 15), vm_after = vm_fifteen, submitted = []\<rparr>"
  by (simp add: run_defs present_6c_def vm_fourteen_def vm_fifteen_def fourteen_disks_def
      no_match_6c)


lemma first_run_two:
  "run obedient_server present_two vm_two_luns
   = \<lparr>returned = Inr \<lparr>changed = True, failed = False, msg = None\<rparr>,
      vm_after = vm_two_attached,
      submitted = [[AddController ParaVirtualSCSIController 0],
                   [AddDisk (- 100) 1000 0 (uuid lun_6a) (deviceName lun_6a) ''ds1''
                      ''[ds1] vm/vm_RDM6a000123fd.vmdk'',
                    AddDisk (- 101) 1000 1 (uuid lun_6a_short) (deviceName lun_6a_short) ''ds1''
                      ''[ds1] vm/vm_RDM6a.vmdk'']]\<rparr>"
proof -
  have u: "uuid lun_6a = ''020000000060002ac0000000000000006a000123fd565620''"
    "uuid lun_6a_short = ''020000000060002ac0000000000000006a565620''"
    by (simp_all add: lun_6a_def lun_6a_short_def)
  show ?thesis
    by (simp add: run_defs present_two_def vm_two_luns_def vm_two_attached_def find_6a_two
        find_short split_6a split_short file_6a file_6a_long create_rdm_def create_rdm_disk_def
        upto_small wwid_matches_def u)
qed

lemma first_run_short:
  "run obedient_server present_6a_short vm_6a_attached
   = \<lparr>returned = Inr \<lparr>changed = True, failed = False, msg = None\<rparr>,
      vm_after = vm_6a_both,
      submitted = [[AddDisk (- 101) 1000 1 (uuid lun_6a_short) (deviceName lun_6a_short) ''ds1''
                      ''[ds1] vm/vm_RDM6a.vmdk'']]\<rparr>"
proof -
  have u: "uuid lun_6a_short = ''020000000060002ac0000000000000006a565620''"
    "''020000000060002ac0000000000000006a565620'' \<noteq> lunUuid disk_6a"
    by (simp_all add: lun_6a_short_def disk_6a_def)
  have k: "controllerKey disk_6a = 1000" "unitNumber disk_6a = 0" by (simp_all add: disk_6a_def)
  show ?thesis
    using short_matches_6a
    by (simp add: run_defs present_6a_short_def vm_6a_attached_def vm_6a_both_def find_short
        split_short file_6a u k create_rdm_def create_rdm_disk_def upto_small)
qed

lemma machine_after_runs:
  "machine_after present_two vm_two_luns = vm_two_attached"
  "machine_after present_6a_short vm_6a_attached = vm_6a_both"
  "machine_after present_6c vm_fourteen = vm_fifteen"
  by (simp_all add: machine_after_def first_run_two first_run_short first_run_6c)

lemma matched_6a_both:
  "matched_disks (rdm_devices (device vm_6a_both)) (rdm_disk present_6a_short) = 2"
  using short_matches_6a
  by (simp add: matched_disks_def vm_6a_both_def vm_6a_attached_def rdm_devices_def
      present_6a_short_def wwid_matches_def lower_short lower_6c str_find_def)

lemma matched_fifteen:
  "matched_disks (rdm_devices (device vm_fifteen)) (rdm_disk present_6c) = 0"
  by (simp add: matched_disks_def vm_fifteen_def vm_fourteen_def rdm_devices_def
      present_6c_def fourteen_disks_def no_match_6c)

lemma uuids_contain_wwids:
  "sublist (str_lower ''60002AC0000000000000006A000123FD'') (str_lower (uuid lun_6a))"
  "sublist (str_lower ''60002AC0000000000000006A'') (str_lower (uuid lun_6a_short))"
  unfolding str_find_sublist [symmetric]
  by (simp_all add: lun_6a_def lun_6a_short_def lower_literals lower_short lower_6c str_find_def)

theorem present_rerun_is_noop_witness:
  "returned (run obedient_server present_two vm_two_luns)
     = Inr \<lparr>changed = True, failed = False, msg = None\<rparr>
   \<and> rdm_devices (device vm_two_luns) = []
   \<and> length (rdm_devices (device (machine_after present_two vm_two_luns))) = 2
   \<and> run obedient_server present_two (machine_after present_two vm_two_luns)
     = \<lparr>returned = Inr \<lparr>changed = False, failed = False, msg = None\<rparr>,
        vm_after = machine_after present_two vm_two_luns, submitted = []\<rparr>
   \<and> returned (run obedient_server present_6a_short vm_6a_attached)
     = Inr \<lparr>changed = True, failed = False, msg = None\<rparr>
   \<and> run obedient_server present_6a_short (machine_after present_6a_short vm_6a_attached)
     = \<lparr>returned = Inr \<lparr>changed = False, failed = False, msg = None\<rparr>,
        vm_after = machine_after present_6a_short vm_6a_attached, submitted = []\<rparr>
   \<and> returned (run obedient_server present_6c vm_fourteen)
     = Inr \<lparr>changed = True, failed = False, msg = None\<rparr>
   \<and> run obedient_server present_6c (machine_after present_6c vm_fourteen)
     = \<lparr>returned = Inl (InsufficientCapacity 16 15),
        vm_after = machine_after present_6c vm_fourteen, submitted = []\<rparr>"
proof -
  \<comment> \<open>two LUNs on a machine without a controller\<close>
  have a1: "state present_two = ''present''" by (simp add: present_two_def)
  have a2: "scsi_keys_by_bus (device vm_two_luns)"
    by (simp add: scsi_keys_by_bus_def vm_two_luns_def)
  have a4: "returned (run obedient_server present_two vm_two_luns)
            = Inr \<lparr>changed = True, failed = False, msg = None\<rparr>" by (simp add: first_run_two)
  have a5: "host_view vm_two_luns = Some ([lun_6a, lun_6a_short] # [])"
    by (simp add: vm_two_luns_def)
  have a6: "\<forall>wwid\<in>set (rdm_disk present_two). \<forall>lun.
              find_lun [lun_6a, lun_6a_short] wwid = Some lun
              \<longrightarrow> sublist (str_lower wwid) (str_lower (uuid lun))"
    using uuids_contain_wwids by (simp add: present_two_def find_6a_two find_short)
  have a7: "rdm_devices (device vm_two_luns) = []"
    by (simp add: vm_two_luns_def rdm_devices_def)
  have a8: "length (rdm_devices (device (machine_after present_two vm_two_luns))) = 2"
    unfolding machine_after_runs by (simp add: vm_two_attached_def rdm_devices_def)
  have A: "run obedient_server present_two (machine_after present_two vm_two_luns)
     = \<lparr>returned = Inr \<lparr>changed = False, failed = False, msg = None\<rparr>,
        vm_after = machine_after present_two vm_two_luns, submitted = []\<rparr>"
    apply (rule present_rerun_is_noop
         [where p = present_two and vm_obj = vm_two_luns and task = obedient_server
            and r = "\<lparr>changed = True, failed = False, msg = None\<rparr>"
            and luns = "[lun_6a, lun_6a_short]" and hosts = "[]",
          THEN conjunct2, THEN conjunct1, THEN mp])
    apply (intro conjI a1 a2 a4 a5 a6)
    done
  \<comment> \<open>one more LUN on a machine with a controller and a disk\<close>
  have b1: "state present_6a_short = ''present''" by (simp add: present_6a_short_def)
  have b2: "scsi_keys_by_bus (device vm_6a_attached)"
    by (simp add: scsi_keys_by_bus_def vm_6a_attached_def)
  have b4: "returned (run obedient_server present_6a_short vm_6a_attached)
            = Inr \<lparr>changed = True, failed = False, msg = None\<rparr>"
    by (simp add: first_run_short)
  have b5: "int (length (rdm_devices (device (machine_after present_6a_short vm_6a_attached))))
             + (int (length (rdm_disk present_6a_short))
                - matched_disks
                    (rdm_devices (device (machine_after present_6a_short vm_6a_attached)))
                    (rdm_disk present_6a_short))
           \<le> (if rdm_controller_type present_6a_short = ''paravirtual''
                  \<and> vm_version vm_6a_attached \<ge> 14
               then 64 else 15) * int (length (rdm_controller_bus present_6a_short))"
    unfolding machine_after_runs matched_6a_both
    by (simp add: vm_6a_both_def vm_6a_attached_def rdm_devices_def present_6a_short_def)
  have B: "run obedient_server present_6a_short (machine_after present_6a_short vm_6a_attached)
     = \<lparr>returned = Inr \<lparr>changed = False, failed = False, msg = None\<rparr>,
        vm_after = machine_after present_6a_short vm_6a_attached, submitted = []\<rparr>"
    apply (rule present_rerun_is_noop
         [where p = present_6a_short and vm_obj = vm_6a_attached and task = obedient_server
            and r = "\<lparr>changed = True, failed = False, msg = None\<rparr>",
          THEN conjunct1, THEN mp, THEN conjunct1, THEN mp])
     apply (intro conjI b1 b2 b4)
    apply (rule b5)
    done
  \<comment> \<open>the fifteenth disk on a bus of capacity 15\<close>
  have c1: "state present_6c = ''present''" by (simp add: present_6c_def)
  have c2: "scsi_keys_by_bus (device vm_fourteen)"
    by (simp add: scsi_keys_by_bus_def vm_fourteen_def fourteen_disks_def)
  have c4: "returned (run obedient_server present_6c vm_fourteen)
            = Inr \<lparr>changed = True, failed = False, msg = None\<rparr>" by (simp add: first_run_6c)
  have len: "int (length (rdm_devices (device (machine_after present_6c vm_fourteen)))) = 15"
    unfolding machine_after_runs
    by (simp add: vm_fifteen_def vm_fourteen_def rdm_devices_def fourteen_disks_def)
  have mt: "matched_disks (rdm_devices (device (machine_after present_6c vm_fourteen)))
              (rdm_disk present_6c) = 0"
    unfolding machine_after_runs by (rule matched_fifteen)
  have pc: "int (length (rdm_disk present_6c)) = 1"
    "(if rdm_controller_type present_6c = ''paravirtual'' \<and> vm_version vm_fourteen \<ge> 14
               then 64 else 15) * int (length (rdm_controller_bus present_6c)) = 15"
    by (simp_all add: present_6c_def vm_fourteen_def)
  have C: "run obedient_server present_6c (machine_after present_6c vm_fourteen)
     = \<lparr>returned = Inl (InsufficientCapacity 16 15),
        vm_after = machine_after present_6c vm_fourteen, submitted = []\<rparr>"
    using present_rerun_is_noop
         [where p = present_6c and vm_obj = vm_fourteen and task = obedient_server
            and r = "\<lparr>changed = True, failed = False, msg = None\<rparr>",
          THEN conjunct1, THEN mp, THEN conjunct2, OF conjI [OF c1 conjI [OF c2 c4]]]
    unfolding len mt pc by simp
  show ?thesis by (intro conjI a4 a7 a8 A b4 B c4 C)
qed

text \<open>
  C5 as claimed fails. The machine has fourteen RDM disks on its single allowed bus of
  capacity 15 and the request names one more LUN, whose \<open>uuid\<close> does not contain its
  WWID. The first \<open>present\<close> run passes the capacity check with 14 + 1 = 15, attaches
  the LUN on unit 15 and returns changed true. The second run with the same parameters
  on the machine the first one left counts 15 disks, one request and no matched disk,
  and stops with the capacity error for 16 against 15 instead of returning changed
  false.
\<close>

theorem present_rerun_fails_capacity_check:
  "state present_6c = ''present''
   \<and> run obedient_server present_6c vm_fourteen
       = \<lparr>returned = Inr \<lparr>changed = True, failed = False, msg = None\<rparr>,
          vm_after = vm_fifteen,
          submitted = [[AddDisk (- 115) 1000 15 (uuid lun_6c) (deviceName lun_6c) ''ds1''
                          ''[ds1] vm/vm_RDM6c000123fd.vmdk'']]\<rparr>
   \<and> run obedient_server present_6c vm_fifteen
       = \<lparr>returned = Inl (InsufficientCapacity 16 15), vm_after = vm_fifteen, submitted = []\<rparr>"
  by (simp add: first_run_6c rerun_6c) (simp add: present_6c_def)

subsection \<open>The second submission after controllers were created\<close>

text \<open>
  C9 at a concrete run: \<open>state: present\<close> with bus 1 allowed and no disk requested, on a
  machine without controllers. The controller is created and submitted; the disk pass
  then builds an empty change list, and since \<open>change_detected\<close> is still set from the
  controller pass that empty list is submitted as a second configuration update.
\<close>

theorem empty_change_set_submitted_after_controller_creation:
  "submitted (run obedient_server present_nothing bare_vm) =
     [[AddController ParaVirtualSCSIController 1], []] \<and>
   returned (run obedient_server present_nothing bare_vm) =
     Inr \<lparr>changed = True, failed = False, msg = None\<rparr>"
  by (simp add: run_defs present_nothing_def bare_vm_def)

end
